(* ===== verification/Go_Prelude.thy ===== *)
theory Go_Prelude
  imports Main "HOL-Library.Word" "HOL-Library.Multiset" "HOL-Library.Finite_Map"
    "HOL-Library.Sublist" "HOL-Library.List_Lexorder" "HOL-Library.Char_ord"
begin

unbundle bit_operations_syntax

text \<open>
  The prelude of the development: how the Go language itself is read in HOL.

  \<^item> A Go \<open>string\<close> and a \<open>[]byte\<close> are both sequences of bytes, here \<open>string\<close> (a \<open>char\<close> is one
    byte). Where the code tells a nil slice from an empty one the model has an \<open>option\<close>.
  \<^item> A sized integer is a word: \<open>uint32\<close>, \<open>uint64\<close>. The type \<open>int\<close> of the plugins is a 32-bit
    word, as TinyGo's wasm32 target has it; \<open>sint\<close> reads it.
  \<^item> A panic is a value: \<open>Panic\<close> of the type \<open>outcome\<close>. Nothing in the modelled code recovers
    from a panic.
  \<^item> A pair \<open>(value, err)\<close> is a pair whose second part is an \<open>option\<close>: \<open>None\<close> is the nil error.
  \<^item> A Go map is a finite map; \<open>range\<close> over it visits the keys in an order the language does not
    fix, so a definition that ranges over a map takes that order as an argument.
\<close>

named_theorems go_defs \<open>definitions of the Go prelude and standard library\<close>
named_theorems exchange_defs \<open>what a handler's exchange with its peer evaluates by\<close>

section \<open>Types\<close>

type_synonym uint8 = "8 word"
type_synonym int32 = "32 word"
type_synonym uint32 = "32 word"
type_synonym uint64 = "64 word"
type_synonym goint = "32 word"
type_synonym headers = "(string \<times> string) list"

datatype 'a outcome = Return 'a | Panic string

fun returns :: "'a outcome \<Rightarrow> bool" where
  "returns (Return _) = True"
| "returns (Panic _) = False"

lemma returns_iff: "returns r \<longleftrightarrow> (\<exists>v. r = Return v)"
  by (cases r) auto

text \<open>Reading a nilable byte slice as a string: the conversion of nil is the empty string.\<close>

definition go_string :: "string option \<Rightarrow> string" where
  [go_defs]: "go_string d = (case d of None \<Rightarrow> '''' | Some s \<Rightarrow> s)"

lemma go_string_simps [simp]: "go_string None = ''''" "go_string (Some s) = s"
  by (simp_all add: go_string_def)

section \<open>Ranging over a map\<close>

text \<open>
  \<open>range_order it\<close> says that \<open>it\<close> is a possible order of iteration: for each map it lists every
  key once. The first argument tells apart the times at which the same map is ranged over.
\<close>

definition range_order :: "(nat \<Rightarrow> ('k, 'v) fmap \<Rightarrow> 'k list) \<Rightarrow> bool" where
  "range_order it \<longleftrightarrow> (\<forall>n m. distinct (it n m) \<and> set (it n m) = fset (fmdom m))"

definition range_values :: "'k list \<Rightarrow> ('k, 'v) fmap \<Rightarrow> 'v list" where
  "range_values ks m = map (\<lambda>k. the (fmlookup m k)) (filter (\<lambda>k. fmlookup m k \<noteq> None) ks)"

lemma range_orderD:
  assumes "range_order it"
  shows "distinct (it n m)" and "set (it n m) = fset (fmdom m)"
  using assms by (auto simp: range_order_def)

lemma fmlookup_in_fmdom: "k \<in> fset (fmdom m) \<longleftrightarrow> fmlookup m k \<noteq> None"
  by (simp add: fmdom'_alt_def[symmetric] fmdom'_notI fmlookup_dom'_iff)

lemma mset_range_values:
  assumes "distinct ks" and "set ks = fset (fmdom m)"
  shows "mset (range_values ks m) = image_mset (\<lambda>k. the (fmlookup m k)) (mset_set (fset (fmdom m)))"
proof -
  have "filter (\<lambda>k. fmlookup m k \<noteq> None) ks = ks"
    using assms(2) by (auto simp: filter_id_conv fmlookup_in_fmdom)
  moreover have "mset ks = mset_set (fset (fmdom m))"
    using assms by (metis mset_set_set)
  ultimately show ?thesis by (simp add: range_values_def)
qed

lemma set_range_values:
  assumes "set ks = fset (fmdom m)"
  shows "set (range_values ks m) = {v. \<exists>k. fmlookup m k = Some v}"
  using assms by (force simp: range_values_def fmlookup_in_fmdom)

lemma range_order_sorted:
  "range_order (\<lambda>_ m. sorted_list_of_fset (fmdom (m :: ('k::linorder, 'v) fmap)))"
  by (simp add: range_order_def sorted_list_of_fset.rep_eq)

section \<open>Generic list lemmas\<close>

lemma foldl_append_concat: "foldl (\<lambda>acc x. acc @ f x) a xs = a @ concat (map f xs)"
  by (induction xs arbitrary: a) auto

section \<open>Signed integers\<close>

lemma sint_nat: "n < 2 ^ 31 \<Longrightarrow> sint (word_of_nat n :: goint) = int n"
  by (simp add: signed_of_nat signed_take_bit_int_eq_self)

end
