(* ===== verification/Order_Types.thy ===== *)
theory Order_Types
  imports Go_Prelude
begin

text \<open>
  The messages of the order service, from the generated file
  \<^verbatim>\<open>dev/grpc/basic/order/order.pb.go\<close>: the structs \<open>Order\<close>, \<open>Order_Address\<close> and
  \<open>CombinedShipment\<close> with their getters, and the enum \<open>Order_AddressType\<close>. The fields that
  the protobuf runtime owns (state, sizeCache, unknownFields) are left out: the service never
  reads them. Pointers are options; \<open>Price\<close> is kept as the bits of the float32, since it is
  only ever copied, and a timestamp as its two protobuf fields.
\<close>

section \<open>Enum Order_AddressType\<close>

type_synonym Order_AddressType = int32

definition Order_HOME :: Order_AddressType where
  "Order_HOME = 0"

definition Order_WORK :: Order_AddressType where
  "Order_WORK = 1"

definition Order_AddressType_name :: "(Order_AddressType, string) fmap" where
  "Order_AddressType_name = fmap_of_list [(0, ''HOME''), (1, ''WORK'')]"

definition Order_AddressType_value :: "(string, Order_AddressType) fmap" where
  "Order_AddressType_value = fmap_of_list [(''HOME'', 0), (''WORK'', 1)]"

text \<open>The two generated tables of the enum are inverse to each other.\<close>

lemma Order_AddressType_tables:
  "fmlookup Order_AddressType_name n = Some s \<longleftrightarrow> fmlookup Order_AddressType_value s = Some n"
  by (auto simp: Order_AddressType_name_def Order_AddressType_value_def fmlookup_of_list
      split: if_splits)

section \<open>Messages\<close>

record Order_Address =
  Address_Address :: string
  Address_Type :: Order_AddressType

type_synonym float32_bits = "32 word"
type_synonym Timestamp = "64 word \<times> 32 word"

record Order =
  Order_Id :: string
  Order_Items :: "string list"
  Order_Description :: string
  Order_Price :: float32_bits
  Order_Addresses :: "Order_Address option list"
  Order_LastUpdated :: "Timestamp option"

record CombinedShipment =
  Shipment_Id :: string
  Shipment_Status :: string
  Shipment_OrderList :: "Order list"

text \<open>The zero values, which \<open>Reset\<close> assigns and a map read of an absent key returns.\<close>

definition Order_Reset :: Order where
  "Order_Reset = \<lparr>Order_Id = '''', Order_Items = [], Order_Description = '''', Order_Price = 0,
     Order_Addresses = [], Order_LastUpdated = None\<rparr>"

definition CombinedShipment_Reset :: CombinedShipment where
  "CombinedShipment_Reset =
     \<lparr>Shipment_Id = '''', Shipment_Status = '''', Shipment_OrderList = []\<rparr>"

definition Order_Address_Reset :: Order_Address where
  "Order_Address_Reset = \<lparr>Address_Address = '''', Address_Type = Order_HOME\<rparr>"

section \<open>Getters on a pointer that may be nil\<close>

definition Order_GetId :: "Order option \<Rightarrow> string" where
  "Order_GetId x = (case x of Some v \<Rightarrow> Order_Id v | None \<Rightarrow> '''')"

definition Order_GetItems :: "Order option \<Rightarrow> string list" where
  "Order_GetItems x = (case x of Some v \<Rightarrow> Order_Items v | None \<Rightarrow> [])"

definition Order_GetDescription :: "Order option \<Rightarrow> string" where
  "Order_GetDescription x = (case x of Some v \<Rightarrow> Order_Description v | None \<Rightarrow> '''')"

definition Order_GetPrice :: "Order option \<Rightarrow> float32_bits" where
  "Order_GetPrice x = (case x of Some v \<Rightarrow> Order_Price v | None \<Rightarrow> 0)"

definition Order_GetAddresses :: "Order option \<Rightarrow> Order_Address option list" where
  "Order_GetAddresses x = (case x of Some v \<Rightarrow> Order_Addresses v | None \<Rightarrow> [])"

definition Order_GetLastUpdated :: "Order option \<Rightarrow> Timestamp option" where
  "Order_GetLastUpdated x = (case x of Some v \<Rightarrow> Order_LastUpdated v | None \<Rightarrow> None)"

definition CombinedShipment_GetId :: "CombinedShipment option \<Rightarrow> string" where
  "CombinedShipment_GetId x = (case x of Some v \<Rightarrow> Shipment_Id v | None \<Rightarrow> '''')"

definition CombinedShipment_GetStatus :: "CombinedShipment option \<Rightarrow> string" where
  "CombinedShipment_GetStatus x = (case x of Some v \<Rightarrow> Shipment_Status v | None \<Rightarrow> '''')"

definition CombinedShipment_GetOrderList :: "CombinedShipment option \<Rightarrow> Order list" where
  "CombinedShipment_GetOrderList x = (case x of Some v \<Rightarrow> Shipment_OrderList v | None \<Rightarrow> [])"

definition Order_Address_GetAddress :: "Order_Address option \<Rightarrow> string" where
  "Order_Address_GetAddress x = (case x of Some v \<Rightarrow> Address_Address v | None \<Rightarrow> '''')"

definition Order_Address_GetType :: "Order_Address option \<Rightarrow> Order_AddressType" where
  "Order_Address_GetType x = (case x of Some v \<Rightarrow> Address_Type v | None \<Rightarrow> Order_HOME)"

lemmas Order_getters =
  Order_GetId_def Order_GetItems_def Order_GetDescription_def Order_GetPrice_def
  Order_GetAddresses_def Order_GetLastUpdated_def

lemmas CombinedShipment_getters =
  CombinedShipment_GetId_def CombinedShipment_GetStatus_def CombinedShipment_GetOrderList_def

lemmas Order_Address_getters = Order_Address_GetAddress_def Order_Address_GetType_def

text \<open>A getter on nil returns what it returns on the zero message.\<close>

lemma Order_getters_nil:
  "Order_GetId None = Order_GetId (Some Order_Reset)"
  "Order_GetItems None = Order_GetItems (Some Order_Reset)"
  "Order_GetDescription None = Order_GetDescription (Some Order_Reset)"
  "Order_GetPrice None = Order_GetPrice (Some Order_Reset)"
  "Order_GetAddresses None = Order_GetAddresses (Some Order_Reset)"
  "Order_GetLastUpdated None = Order_GetLastUpdated (Some Order_Reset)"
  by (simp_all add: Order_getters Order_Reset_def)

lemma Order_Address_getters_nil:
  "Order_Address_GetAddress None = Order_Address_GetAddress (Some Order_Address_Reset)"
  "Order_Address_GetType None = Order_Address_GetType (Some Order_Address_Reset)"
  by (simp_all add: Order_Address_getters Order_Address_Reset_def)

section \<open>Errors and streams of gRPC\<close>

text \<open>
  An error of a handler: a status with a code, a \<open>fmt.Errorf\<close> around another error, or whatever
  the transport reports. A stream that is read delivers its messages in order and then, for
  good, either \<open>io.EOF\<close> or a transport error: what \<open>grpc.ServerStream\<close> documents of \<open>RecvMsg\<close>.
\<close>

datatype grpc_code = OK | NotFound | Unimplemented

datatype rpc_error = Status grpc_code string | Errorf string rpc_error | Transport string

datatype stream_end = EOF | Broken rpc_error

datatype 'm in_stream = In_Stream (pending: "'m list") (closing: stream_end)

definition stream_Recv :: "'m in_stream \<Rightarrow> ('m option \<times> stream_end option) \<times> 'm in_stream" where
  "stream_Recv s = (case pending s of
      m # ms \<Rightarrow> ((Some m, None), In_Stream ms (closing s))
    | [] \<Rightarrow> ((None, Some (closing s)), s))"

lemma stream_Recv_simps [simp]:
  "stream_Recv (In_Stream (m # ms) e) = ((Some m, None), In_Stream ms e)"
  "stream_Recv (In_Stream [] e) = ((None, Some e), In_Stream [] e)"
  by (simp_all add: stream_Recv_def)

text \<open>
  A stream that is written: the messages sent so far. The outcome of the k-th \<open>Send\<close> is \<open>f k\<close>,
  chosen by the transport; a failed \<open>Send\<close> delivers nothing.
\<close>

definition stream_Send :: "(nat \<Rightarrow> rpc_error option) \<Rightarrow> 'm \<Rightarrow> 'm list \<Rightarrow> rpc_error option \<times> 'm list"
where
  "stream_Send f m sent = (case f (length sent) of None \<Rightarrow> (None, sent @ [m]) | Some e \<Rightarrow> (Some e, sent))"

end
