(* ===== verification/Go_Stdlib.thy ===== *)
theory Go_Stdlib
  imports Go_Prelude
begin

text \<open>
  The parts of the Go standard library that the modelled code calls: \<open>strings.Contains\<close>,
  \<open>strings.Join\<close>, \<open>strings.TrimSpace\<close>, \<open>filepath.Clean\<close>, \<open>strconv.Itoa\<close> (and the verb \<open>%d\<close>),
  \<open>encoding/binary\<close> in little-endian order, \<open>encoding/hex\<close>, \<open>unicode/utf8\<close> and \<open>hash/fnv\<close>. Each has the lemma
  that the components rest on.
\<close>

section \<open>strings\<close>

fun strings_Contains :: "string \<Rightarrow> string \<Rightarrow> bool" where
  "strings_Contains [] sub = (sub = [])"
| "strings_Contains (c # cs) sub = (prefix sub (c # cs) \<or> strings_Contains cs sub)"

lemma strings_Contains_iff: "strings_Contains s sub \<longleftrightarrow> (\<exists>p q. s = p @ sub @ q)"
proof (induction s)
  case Nil
  then show ?case by simp
next
  case (Cons c cs)
  have "(\<exists>p q. c # cs = p @ sub @ q) \<longleftrightarrow> prefix sub (c # cs) \<or> (\<exists>p q. cs = p @ sub @ q)"
  proof
    assume "\<exists>p q. c # cs = p @ sub @ q"
    then obtain p q where "c # cs = p @ sub @ q" by blast
    then show "prefix sub (c # cs) \<or> (\<exists>p q. cs = p @ sub @ q)"
      by (cases p) (auto simp: prefix_def)
  next
    assume "prefix sub (c # cs) \<or> (\<exists>p q. cs = p @ sub @ q)"
    then show "\<exists>p q. c # cs = p @ sub @ q"
      by (auto simp: prefix_def) (metis append_Nil, metis append_Cons)
  qed
  then show ?case using Cons.IH by simp
qed

fun strings_Join :: "string list \<Rightarrow> string \<Rightarrow> string" where
  "strings_Join [] sep = ''''"
| "strings_Join [x] sep = x"
| "strings_Join (x # y # xs) sep = x @ sep @ strings_Join (y # xs) sep"

text \<open>
  \<open>strings.TrimSpace\<close> drops Unicode white space at both ends. On bytes, white space is one of the
  UTF-8 encodings below; since UTF-8 is self-synchronising, a prefix (or a suffix) of the bytes
  is one of them exactly when the first (or the last) rune decoded is that white space.
\<close>

definition space_encodings :: "string list" where
  "space_encodings =
     [[CHR 0x09], [CHR 0x0A], [CHR 0x0B], [CHR 0x0C], [CHR 0x0D], [CHR 0x20],
      [CHR 0xC2, CHR 0x85], [CHR 0xC2, CHR 0xA0], [CHR 0xE1, CHR 0x9A, CHR 0x80],
      [CHR 0xE2, CHR 0x80, CHR 0x80], [CHR 0xE2, CHR 0x80, CHR 0x81],
      [CHR 0xE2, CHR 0x80, CHR 0x82], [CHR 0xE2, CHR 0x80, CHR 0x83],
      [CHR 0xE2, CHR 0x80, CHR 0x84], [CHR 0xE2, CHR 0x80, CHR 0x85],
      [CHR 0xE2, CHR 0x80, CHR 0x86], [CHR 0xE2, CHR 0x80, CHR 0x87],
      [CHR 0xE2, CHR 0x80, CHR 0x88], [CHR 0xE2, CHR 0x80, CHR 0x89],
      [CHR 0xE2, CHR 0x80, CHR 0x8A], [CHR 0xE2, CHR 0x80, CHR 0xA8],
      [CHR 0xE2, CHR 0x80, CHR 0xA9], [CHR 0xE2, CHR 0x80, CHR 0xAF],
      [CHR 0xE2, CHR 0x81, CHR 0x9F], [CHR 0xE3, CHR 0x80, CHR 0x80]]"

function trim_prefixes :: "string list \<Rightarrow> string \<Rightarrow> string" where
  "trim_prefixes es s =
     (case find (\<lambda>e. e \<noteq> [] \<and> prefix e s) es of
        None \<Rightarrow> s
      | Some e \<Rightarrow> trim_prefixes es (drop (length e) s))"
  by pat_completeness auto
termination
proof (relation "measure (\<lambda>(es, s). length s)", goal_cases)
  case (2 es s e)
  then have "e \<noteq> [] \<and> prefix e s" by (auto simp: find_Some_iff)
  then show ?case by (auto simp: prefix_def)
qed simp

declare trim_prefixes.simps [simp del]

definition strings_TrimSpace :: "string \<Rightarrow> string" where
  "strings_TrimSpace s =
     rev (trim_prefixes (map rev space_encodings) (rev (trim_prefixes space_encodings s)))"

lemma trim_prefixes_none:
  "e \<in> set es \<Longrightarrow> e \<noteq> [] \<Longrightarrow> \<not> prefix e (trim_prefixes es s)"
proof (induction es s rule: trim_prefixes.induct)
  case (1 es s)
  show ?case
  proof (cases "find (\<lambda>e. e \<noteq> [] \<and> prefix e s) es")
    case None
    then have "trim_prefixes es s = s" by (subst trim_prefixes.simps) simp
    with None "1.prems" show ?thesis by (auto simp: find_None_iff)
  next
    case (Some d)
    then have "trim_prefixes es s = trim_prefixes es (drop (length d) s)"
      by (subst trim_prefixes.simps) simp
    with "1.IH" [OF Some "1.prems"] show ?thesis by simp
  qed
qed

lemma trim_prefixes_suffix: "suffix (trim_prefixes es s) s"
proof (induction es s rule: trim_prefixes.induct)
  case (1 es s)
  show ?case
  proof (cases "find (\<lambda>e. e \<noteq> [] \<and> prefix e s) es")
    case None
    then show ?thesis by (subst trim_prefixes.simps) simp
  next
    case (Some d)
    then show ?thesis using "1.IH" [OF Some]
      by (subst trim_prefixes.simps) (simp, meson suffix_drop suffix_order.trans)
  qed
qed

lemma trim_prefixes_id:
  "(\<And>e. e \<in> set es \<Longrightarrow> e \<noteq> [] \<Longrightarrow> \<not> prefix e s) \<Longrightarrow> trim_prefixes es s = s"
  by (subst trim_prefixes.simps) (auto simp: find_None_iff split: option.splits dest!: find_Some_iff [THEN iffD1])

section \<open>strconv and decimal formatting\<close>

definition digit_char :: "nat \<Rightarrow> char" where
  "digit_char d = char_of (48 + d)"

fun dec_nat :: "nat \<Rightarrow> string" where
  "dec_nat n = (if n < 10 then [digit_char n] else dec_nat (n div 10) @ [digit_char (n mod 10)])"

declare dec_nat.simps [simp del]

definition dec_int :: "int \<Rightarrow> string" where
  "dec_int i = (if i < 0 then CHR ''-'' # dec_nat (nat (- i)) else dec_nat (nat i))"

definition dec_word :: "'a::len word \<Rightarrow> string" where
  "dec_word w = dec_nat (unat w)"

definition strconv_Itoa :: "goint \<Rightarrow> string" where
  "strconv_Itoa i = dec_int (sint i)"

lemma dec_nat_nonempty [simp]: "dec_nat n \<noteq> []"
  by (subst dec_nat.simps) simp

lemma itoa_10: "strconv_Itoa 10 = ''10''"
  by (simp add: strconv_Itoa_def dec_int_def) code_simp

section \<open>encoding/binary, little endian\<close>

definition byte :: "char \<Rightarrow> uint8" where
  "byte c = of_char c"

definition unbyte :: "uint8 \<Rightarrow> char" where
  "unbyte w = char_of (unat w)"

lemma unbyte_byte [simp]: "unbyte (byte c) = c"
proof -
  have "unat (of_char c :: uint8) = unat (of_nat (of_char c) :: uint8)"
    by (simp only: of_nat_of_char)
  then show ?thesis by (simp add: unbyte_def byte_def unat_of_nat)
qed

lemma unat_less_256: "unat (w :: uint8) < 256"
  using unsigned_less [of w] by simp

lemma unat_less_2_64: "unat (v :: uint64) < 256 ^ 8"
  using unsigned_less [of v] by simp

lemma byte_unbyte [simp]: "byte (unbyte w) = w"
proof -
  have "(of_char (char_of (unat w)) :: uint8) = of_nat (of_char (char_of (unat w)))"
    by (simp only: of_nat_of_char)
  also have "\<dots> = of_nat (unat w mod 256)" by (simp only: of_char_of)
  also have "\<dots> = w"
    by (simp add: unat_less_256)
  finally show ?thesis by (simp add: unbyte_def byte_def)
qed

fun le_decode :: "string \<Rightarrow> nat" where
  "le_decode [] = 0"
| "le_decode (c # cs) = unat (byte c) + 256 * le_decode cs"

fun le_encode :: "nat \<Rightarrow> nat \<Rightarrow> string" where
  "le_encode 0 n = []"
| "le_encode (Suc k) n = unbyte (word_of_nat n) # le_encode k (n div 256)"

text \<open>
  \<open>binary.LittleEndian.Uint64(b)\<close> reads eight bytes and panics on a shorter slice; \<open>PutUint64\<close>
  into a fresh slice of eight bytes writes them.
\<close>

definition LittleEndian_Uint64 :: "string \<Rightarrow> uint64 outcome" where
  "LittleEndian_Uint64 b =
     (if length b < 8 then Panic ''index out of range'' else Return (word_of_nat (le_decode (take 8 b))))"

definition LittleEndian_PutUint64 :: "uint64 \<Rightarrow> string" where
  "LittleEndian_PutUint64 v = le_encode 8 (unat v)"

definition LittleEndian_Uint32 :: "string \<Rightarrow> uint32 outcome" where
  "LittleEndian_Uint32 b =
     (if length b < 4 then Panic ''index out of range'' else Return (word_of_nat (le_decode (take 4 b))))"

lemma length_le_encode [simp]: "length (le_encode k n) = k"
  by (induction k arbitrary: n) auto

lemma le_decode_encode: "le_decode (le_encode k n) = n mod 256 ^ k"
proof (induction k arbitrary: n)
  case 0
  then show ?case by simp
next
  case (Suc k)
  then show ?case by (simp add: unat_of_nat mod_mult2_eq mult.commute)
qed

lemma LittleEndian_roundtrip: "LittleEndian_Uint64 (LittleEndian_PutUint64 v) = Return v"
proof -
  have "unat v < 256 ^ 8" by (rule unat_less_2_64)
  then show ?thesis
    by (simp add: LittleEndian_Uint64_def LittleEndian_PutUint64_def le_decode_encode)
qed

lemma length_PutUint64 [simp]: "length (LittleEndian_PutUint64 v) = 8"
  by (simp add: LittleEndian_PutUint64_def)

section \<open>path/filepath\<close>

text \<open>\<open>Clean\<close> on Unix takes out empty and \<open>.\<close> elements and lets \<open>..\<close> remove the element before it, if there is one.\<close>

fun split_slash :: "string \<Rightarrow> string list" where
  "split_slash [] = [[]]"
| "split_slash (c # cs) =
     (if c = CHR ''/'' then [] # split_slash cs
      else case split_slash cs of [] \<Rightarrow> [[c]] | w # ws \<Rightarrow> (c # w) # ws)"

text \<open>The elements kept so far, the last one first.\<close>

definition clean_step :: "bool \<Rightarrow> string list \<Rightarrow> string \<Rightarrow> string list" where
  "clean_step rooted kept e =
     (if e = [] \<or> e = ''.'' then kept
      else if e = ''..'' then
        (case kept of
           k # ks \<Rightarrow> if k = ''..'' then ''..'' # kept else ks
         | [] \<Rightarrow> if rooted then [] else [''..''])
      else e # kept)"

definition filepath_Clean :: "string \<Rightarrow> string" where
  "filepath_Clean p =
     (let rooted = (p \<noteq> [] \<and> hd p = CHR ''/'');
          kept = rev (foldl (clean_step rooted) [] (split_slash p));
          s = (if rooted then ''/'' else []) @ strings_Join kept ''/''
      in if s = [] then ''.'' else s)"

text \<open>A name that is one element of a path.\<close>

definition plain_element :: "string \<Rightarrow> bool" where
  "plain_element e \<longleftrightarrow> e \<noteq> [] \<and> CHR ''/'' \<notin> set e \<and> e \<noteq> ''.'' \<and> e \<noteq> ''..''"

lemma split_slash_nonempty [simp]: "split_slash s \<noteq> []"
  by (cases s) (auto split: list.split)

lemma split_slash_plain: "CHR ''/'' \<notin> set e \<Longrightarrow> split_slash (e @ s) = (case split_slash s of w # ws \<Rightarrow> (e @ w) # ws)"
  by (induction e) (auto split: list.splits)

lemma split_slash_join:
  "list_all plain_element es \<Longrightarrow> es \<noteq> [] \<Longrightarrow> split_slash (strings_Join es ''/'') = es"
proof (induction es)
  case (Cons x xs)
  then show ?case
    using split_slash_plain [of x "[]"] by (cases xs) (simp_all add: plain_element_def split_slash_plain)
qed simp

lemma clean_plain: "list_all plain_element es \<Longrightarrow> foldl (clean_step r) kept es = rev es @ kept"
  by (induction es arbitrary: kept) (auto simp: clean_step_def plain_element_def)

text \<open>A rooted path keeps plain elements only.\<close>

lemma split_slash_no_slash: "e \<in> set (split_slash s) \<Longrightarrow> CHR ''/'' \<notin> set e"
proof (induction s arbitrary: e)
  case (Cons c cs)
  obtain w ws where "split_slash cs = w # ws" by (cases "split_slash cs") auto
  with Cons show ?case by (auto split: if_splits)
qed simp

lemma clean_rooted_plain:
  "\<forall>e \<in> set es. CHR ''/'' \<notin> set e \<Longrightarrow> list_all plain_element kept \<Longrightarrow> list_all plain_element (foldl (clean_step True) kept es)"
proof (induction es arbitrary: kept)
  case (Cons e es)
  have "list_all plain_element (clean_step True kept e)"
    using Cons.prems by (cases kept) (auto simp: clean_step_def plain_element_def [abs_def])
  with Cons show ?case by simp
qed simp

lemma filepath_Clean_rooted:
  obtains es where "filepath_Clean (CHR ''/'' # p) = CHR ''/'' # strings_Join es ''/''" and "list_all plain_element es"
proof
  let ?es = "rev (foldl (clean_step True) [] (split_slash (CHR ''/'' # p)))"
  show "filepath_Clean (CHR ''/'' # p) = CHR ''/'' # strings_Join ?es ''/''"
    by (simp add: filepath_Clean_def Let_def del: split_slash.simps)
  have "list_all plain_element (foldl (clean_step True) [] (split_slash (CHR ''/'' # p)))"
    by (rule clean_rooted_plain) (auto dest: split_slash_no_slash simp del: split_slash.simps)
  then show "list_all plain_element ?es" by simp
qed

lemma split_slash_trailing:
  "list_all plain_element es \<Longrightarrow> es \<noteq> [] \<Longrightarrow> split_slash (strings_Join es ''/'' @ ''/'') = es @ [[]]"
proof (induction es)
  case (Cons x xs)
  then show ?case
    using split_slash_plain [of x "''/''"] by (cases xs) (simp_all add: plain_element_def split_slash_plain)
qed simp

lemma join_last_plain:
  "list_all plain_element es \<Longrightarrow> es \<noteq> [] \<Longrightarrow> strings_Join es ''/'' \<noteq> [] \<and> last (strings_Join es ''/'') \<noteq> CHR ''/''"
proof (induction es)
  case (Cons x xs)
  then show ?case
    by (cases xs) (auto simp: plain_element_def dest: last_in_set)
qed simp

text \<open>No character is new in a rooted clean path.\<close>

lemma split_slash_chars: "e \<in> set (split_slash s) \<Longrightarrow> set e \<subseteq> set s"
proof (induction s arbitrary: e)
  case (Cons c cs)
  obtain w ws where "split_slash cs = w # ws" by (cases "split_slash cs") auto
  with Cons show ?case by (fastforce split: if_splits)
qed simp

lemma clean_chars:
  "\<forall>k \<in> set kept. set k \<subseteq> S \<Longrightarrow> \<forall>e \<in> set es. set e \<subseteq> S \<Longrightarrow> \<forall>k \<in> set (foldl (clean_step True) kept es). set k \<subseteq> S"
proof (induction es arbitrary: kept)
  case (Cons e es)
  have "\<forall>k \<in> set (clean_step True kept e). set k \<subseteq> S"
    using Cons.prems by (cases kept) (auto simp: clean_step_def)
  with Cons show ?case by simp
qed simp

lemma set_strings_Join: "set (strings_Join es sep) \<subseteq> (\<Union>e \<in> set es. set e) \<union> set sep"
  by (induction es sep rule: strings_Join.induct) auto

lemma filepath_Clean_chars:
  assumes "hd p = CHR ''/''" and "p \<noteq> []"
  shows "set (filepath_Clean p) \<subseteq> set p"
proof -
  let ?es = "rev (foldl (clean_step True) [] (split_slash p))"
  have "\<forall>k \<in> set (foldl (clean_step True) [] (split_slash p)). set k \<subseteq> set p"
    by (rule clean_chars) (auto dest: split_slash_chars)
  then have "set (strings_Join ?es ''/'') \<subseteq> set p \<union> {CHR ''/''}"
    using set_strings_Join [of ?es "''/''"] by fastforce
  moreover have "CHR ''/'' \<in> set p" using assms hd_in_set by metis
  ultimately show ?thesis using assms by (auto simp: filepath_Clean_def Let_def)
qed

section \<open>encoding/hex\<close>

definition hex_digit :: "nat \<Rightarrow> char" where
  "hex_digit d = char_of (if d < 10 then 48 + d else 87 + d)"

definition hex_EncodeToString :: "string \<Rightarrow> string" where
  "hex_EncodeToString bs =
     concat (map (\<lambda>c. [hex_digit (of_char c div 16), hex_digit (of_char c mod 16)]) bs)"

lemma length_hex [simp]: "length (hex_EncodeToString bs) = 2 * length bs"
  by (induction bs) (auto simp: hex_EncodeToString_def)

lemma hex_digit_inj: "d < 16 \<Longrightarrow> e < 16 \<Longrightarrow> hex_digit d = hex_digit e \<Longrightarrow> d = e"
  by (auto simp: hex_digit_def char_of_eq_iff take_bit_eq_mod split: if_splits)

lemma of_char_less: "(of_char c :: nat) < 256"
  by (metis of_char_mod_256 mod_less_divisor zero_less_numeral)

lemma hex_inj: "hex_EncodeToString a = hex_EncodeToString b \<Longrightarrow> a = b"
proof (induction a arbitrary: b)
  case Nil
  then show ?case by (cases b) (auto simp: hex_EncodeToString_def)
next
  case (Cons c cs)
  then obtain d ds where b: "b = d # ds"
    by (cases b) (auto simp: hex_EncodeToString_def)
  have lt: "(of_char c :: nat) div 16 < 16" "(of_char d :: nat) div 16 < 16"
    using of_char_less [of c] of_char_less [of d] by (simp_all only: less_mult_imp_div_less)
  from Cons.prems b have "hex_digit (of_char c div 16) = hex_digit (of_char d div 16)"
    and "hex_digit (of_char c mod 16) = hex_digit (of_char d mod 16)"
    and rest: "hex_EncodeToString cs = hex_EncodeToString ds"
    by (auto simp: hex_EncodeToString_def)
  then have "(of_char c :: nat) div 16 = of_char d div 16" "(of_char c :: nat) mod 16 = of_char d mod 16"
    using lt by (blast intro: hex_digit_inj mod_less_divisor zero_less_numeral)+
  then have "(of_char c :: nat) = of_char d"
    by (metis mult_div_mod_eq)
  then show ?case using Cons.IH [OF rest] b by simp
qed

section \<open>unicode/utf8\<close>

text \<open>
  \<open>utf8.ValidString\<close>: the first byte of a rune fixes the ranges of the bytes that follow, so that
  neither overlong forms nor surrogates nor anything above U+10FFFF is accepted. \<open>utf8_rune s\<close> is
  the length of the rune that \<open>s\<close> begins with, 0 if it begins with none.
\<close>

definition utf8_forms :: "(nat \<times> nat) list list" where
  "utf8_forms =
     [[(0x00, 0x7F)],
      [(0xC2, 0xDF), (0x80, 0xBF)],
      [(0xE0, 0xE0), (0xA0, 0xBF), (0x80, 0xBF)],
      [(0xE1, 0xEC), (0x80, 0xBF), (0x80, 0xBF)],
      [(0xED, 0xED), (0x80, 0x9F), (0x80, 0xBF)],
      [(0xEE, 0xEF), (0x80, 0xBF), (0x80, 0xBF)],
      [(0xF0, 0xF0), (0x90, 0xBF), (0x80, 0xBF), (0x80, 0xBF)],
      [(0xF1, 0xF3), (0x80, 0xBF), (0x80, 0xBF), (0x80, 0xBF)],
      [(0xF4, 0xF4), (0x80, 0x8F), (0x80, 0xBF), (0x80, 0xBF)]]"

definition in_range :: "nat \<times> nat \<Rightarrow> char \<Rightarrow> bool" where
  "in_range r c \<longleftrightarrow> fst r \<le> of_char c \<and> of_char c \<le> snd r"

definition utf8_rune :: "string \<Rightarrow> nat" where
  "utf8_rune s =
     (case s of
        [] \<Rightarrow> 0
      | c # _ \<Rightarrow>
          (case find (\<lambda>f. in_range (hd f) c) utf8_forms of
             None \<Rightarrow> 0
           | Some f \<Rightarrow> if list_all2 in_range f (take (length f) s) then length f else 0))"

function utf8_ValidString :: "string \<Rightarrow> bool" where
  "utf8_ValidString s =
     (if s = [] then True
      else if utf8_rune s = 0 then False
      else utf8_ValidString (drop (utf8_rune s) s))"
  by pat_completeness auto
termination
  by (relation "measure length") auto

declare utf8_ValidString.simps [simp del]

lemma utf8_rune_le: "utf8_rune s \<le> length s"
  by (auto simp: utf8_rune_def dest: list_all2_lengthD split: list.split option.split)

lemma utf8_rune_append:
  assumes "utf8_rune s \<noteq> 0"
  shows "utf8_rune (s @ t) = utf8_rune s"
proof -
  obtain c cs where s: "s = c # cs" using assms by (cases s) (auto simp: utf8_rune_def)
  obtain f where f: "find (\<lambda>f. in_range (hd f) c) utf8_forms = Some f"
    and match: "list_all2 in_range f (take (length f) s)"
    using assms by (auto simp: utf8_rune_def s split: option.splits if_splits)
  from match have "length f \<le> length s" by (auto dest: list_all2_lengthD)
  then have "take (length f) (s @ t) = take (length f) s" by simp
  with f match show ?thesis by (simp add: utf8_rune_def s)
qed

lemma utf8_append: "utf8_ValidString s \<Longrightarrow> utf8_ValidString t \<Longrightarrow> utf8_ValidString (s @ t)"
proof (induction s rule: utf8_ValidString.induct)
  case (1 s)
  show ?case
  proof (cases "s = []")
    case True
    then show ?thesis using "1.prems" by simp
  next
    case False
    with "1.prems"(1) have rune: "utf8_rune s \<noteq> 0" and rest: "utf8_ValidString (drop (utf8_rune s) s)"
      using utf8_ValidString.simps [of s] by (simp_all split: if_splits)
    have "utf8_ValidString (drop (utf8_rune s) s @ t)"
      by (rule "1.IH" [OF False rune rest "1.prems"(2)])
    then show ?thesis
      using False rune utf8_rune_le [of s] utf8_ValidString.simps [of "s @ t"] by (simp add: utf8_rune_append)
  qed
qed

lemma utf8_ascii: "list_all (\<lambda>c. (of_char c :: nat) < 128) s \<Longrightarrow> utf8_ValidString s"
proof (induction s)
  case (Cons c s)
  then have "utf8_rune (c # s) = 1" by (simp add: utf8_rune_def utf8_forms_def in_range_def)
  with Cons show ?case using utf8_ValidString.simps [of "c # s"] by simp
qed (simp add: utf8_ValidString.simps)

section \<open>hash/fnv\<close>

text \<open>FNV-1a of 32 bits: \<open>fnv.New32a\<close>, \<open>Write\<close> and \<open>Sum32\<close>. \<open>Write\<close> never fails.\<close>

definition fnv32a_byte :: "uint32 \<Rightarrow> char \<Rightarrow> uint32" where
  "fnv32a_byte hash c = (hash XOR ucast (byte c)) * 16777619"

definition fnv32a :: "string \<Rightarrow> uint32" where
  "fnv32a data = foldl fnv32a_byte 2166136261 data"

text \<open>
  FNV-1a of 128 bits as the library computes it: two limbs, the high one first. A byte is xored
  into the low limb, which is multiplied by the low part of the prime with the carry kept
  (\<open>bits.Mul64\<close>); the prime has one more bit, 24 bits up in the high limb.
\<close>

type_synonym fnv_state = "uint64 \<times> uint64"

definition fnv128_byte :: "fnv_state \<Rightarrow> char \<Rightarrow> fnv_state" where
  "fnv128_byte s c =
     (let s1 = snd s XOR ucast (byte c);
          product = uint (0x13b :: uint64) * uint s1;
          hi = word_of_int (product div 2 ^ 64);
          lo = word_of_int product
      in (hi + push_bit 24 s1 + 0x13b * fst s, lo))"

definition fnv128a_state :: "string \<Rightarrow> fnv_state" where
  "fnv128a_state data = foldl fnv128_byte (0x6c62272e07bb0142, 0x62b821756295c58d) data"

fun be_encode :: "nat \<Rightarrow> nat \<Rightarrow> string" where
  "be_encode k n = rev (le_encode k n)"

definition fnv128a_Sum :: "string \<Rightarrow> string" where
  "fnv128a_Sum data =
     (case fnv128a_state data of (hi, lo) \<Rightarrow> be_encode 8 (unat hi) @ be_encode 8 (unat lo))"

lemma length_fnv128a_Sum [simp]: "length (fnv128a_Sum data) = 16"
  by (simp add: fnv128a_Sum_def split: prod.split)

text \<open>The parity of the 32-bit hash: the prime and the offset are odd.\<close>

lemma even_word_mult: "even (a * b :: 'a::len word) \<longleftrightarrow> even a \<or> even b"
  by (simp add: even_mult_iff)

lemma even_fnv32a_byte: "even (fnv32a_byte hash c) \<longleftrightarrow> (even hash \<longleftrightarrow> even (byte c))"
proof -
  have "even (ucast (byte c) :: uint32) \<longleftrightarrow> even (byte c)"
  proof -
    have "bit (ucast (byte c) :: uint32) 0 \<longleftrightarrow> bit (byte c) 0" by (simp add: bit_ucast_iff del: bit_0)
    then show ?thesis by (simp add: bit_0)
  qed
  moreover have "even (hash XOR ucast (byte c)) \<longleftrightarrow> (even hash \<longleftrightarrow> even (ucast (byte c) :: uint32))"
    by (simp add: even_xor_iff)
  ultimately show ?thesis
    by (simp add: fnv32a_byte_def even_word_mult)
qed

lemma even_fnv32a: "even (fnv32a data) \<longleftrightarrow> odd (length (filter (\<lambda>c. odd (byte c)) data))"
proof -
  have "even (foldl fnv32a_byte h data) \<longleftrightarrow> (even h \<longleftrightarrow> even (length (filter (\<lambda>c. odd (byte c)) data)))" for h
    by (induction data arbitrary: h) (auto simp: even_fnv32a_byte)
  then show ?thesis by (simp add: fnv32a_def)
qed

text \<open>
  The two-limb computation is FNV-1a over 128-bit integers: each byte is xored into the hash, which
  is then multiplied by the prime \<open>2 ^ 88 + 0x13b\<close> modulo \<open>2 ^ 128\<close>.
\<close>

definition fnv1a_128 :: "string \<Rightarrow> int" where
  "fnv1a_128 data =
     foldl (\<lambda>hash c. (hash XOR uint (byte c)) * (2 ^ 88 + 0x13b) mod 2 ^ 128)
       0x6c62272e07bb014262b821756295c58d data"

definition limbs_value :: "fnv_state \<Rightarrow> int" where
  "limbs_value s = concat_bit 64 (uint (snd s)) (uint (fst s))"

lemma limbs_value_eq: "limbs_value s = uint (snd s) + 2 ^ 64 * uint (fst s)"
proof -
  have "take_bit 64 (uint (snd s)) = uint (snd s)"
    using uint_lt2p [of "snd s"] by (simp add: take_bit_int_eq_self)
  then show ?thesis
    by (simp add: limbs_value_def concat_bit_eq push_bit_eq_mult)
qed

lemma concat_bit_xor:
  fixes a b c :: int
  assumes "take_bit n c = c"
  shows "concat_bit n a b XOR c = concat_bit n (a XOR c) b"
proof (rule bit_eqI)
  fix i
  have "bit c i \<Longrightarrow> i < n" using assms by (metis bit_take_bit_iff)
  then show "bit (concat_bit n a b XOR c) i = bit (concat_bit n (a XOR c) b) i"
    by (auto simp: bit_concat_bit_iff bit_xor_iff)
qed

lemma limbs_value_xor: "limbs_value s XOR uint (byte c) = limbs_value (fst s, snd s XOR ucast (byte c))"
proof -
  have small: "take_bit 64 (uint (byte c)) = uint (byte c)"
    using uint_lt2p [of "byte c"] uint_ge_0 [of "byte c"] by (simp add: take_bit_int_eq_self)
  then show ?thesis
    by (simp add: limbs_value_def concat_bit_xor uint_xor unsigned_ucast_eq)
qed

lemma mod_limbs:
  fixes a r m :: int
  assumes "0 \<le> r" and "r < m"
  shows "(a * m + r) mod (m * m) = (a mod m) * m + r"
proof -
  have "(a * m + r) div m = a" and "(a * m + r) mod m = r" using assms by auto
  then show ?thesis using assms by (subst zmod_zmult2_eq) auto
qed

lemma limbs_arith:
  fixes lo hi :: int
  shows "((lo * 0x13b div 2 ^ 64 + 2 ^ 24 * lo + 0x13b * hi) mod 2 ^ 64) * 2 ^ 64 + lo * 0x13b mod 2 ^ 64
    = (lo + 2 ^ 64 * hi) * (2 ^ 88 + 0x13b) mod 2 ^ 128"
proof -
  let ?p = "lo * 0x13b"
  have "(lo + 2 ^ 64 * hi) * (2 ^ 88 + 0x13b)
      = (?p div 2 ^ 64 + 2 ^ 24 * lo + 0x13b * hi) * 2 ^ 64 + ?p mod 2 ^ 64 + 2 ^ 128 * (2 ^ 24 * hi)"
    using div_mult_mod_eq [of ?p "2 ^ 64"] by (simp add: algebra_simps)
  then have "(lo + 2 ^ 64 * hi) * (2 ^ 88 + 0x13b) mod 2 ^ 128
      = ((?p div 2 ^ 64 + 2 ^ 24 * lo + 0x13b * hi) * 2 ^ 64 + ?p mod 2 ^ 64) mod (2 ^ 64 * 2 ^ 64)"
    by (simp only: mod_mult_self2) simp
  also have "\<dots> = ((?p div 2 ^ 64 + 2 ^ 24 * lo + 0x13b * hi) mod 2 ^ 64) * 2 ^ 64 + ?p mod 2 ^ 64"
    by (rule mod_limbs) (simp_all only: pos_mod_sign pos_mod_bound zero_less_power zero_less_numeral)
  finally show ?thesis by (rule sym)
qed

lemma limbs_value_step:
  "limbs_value (fnv128_byte s c) = (limbs_value s XOR uint (byte c)) * (2 ^ 88 + 0x13b) mod 2 ^ 128"
proof -
  define lo hi where "lo = uint (snd s XOR ucast (byte c))" and "hi = uint (fst s)"
  have prod: "uint (0x13b :: uint64) * lo = lo * 0x13b" by simp
  have shift: "lo * 16777216 = 16777216 * lo" by simp
  have "limbs_value (fnv128_byte s c)
      = ((lo * 0x13b div 2 ^ 64 + 2 ^ 24 * lo + 0x13b * hi) mod 2 ^ 64) * 2 ^ 64 + lo * 0x13b mod 2 ^ 64"
    unfolding limbs_value_eq fnv128_byte_def Let_def lo_def [symmetric] prod
    by (simp add: lo_def hi_def uint_word_ariths uint_word_of_int push_bit_eq_mult mod_simps
        shift [unfolded lo_def])
  also have "\<dots> = (lo + 2 ^ 64 * hi) * (2 ^ 88 + 0x13b) mod 2 ^ 128"
    by (rule limbs_arith)
  finally show ?thesis
    unfolding limbs_value_xor by (simp add: limbs_value_eq lo_def hi_def)
qed

lemma fnv128a_correct: "limbs_value (fnv128a_state data) = fnv1a_128 data"
proof -
  have "limbs_value (foldl fnv128_byte s data)
      = foldl (\<lambda>hash c. (hash XOR uint (byte c)) * (2 ^ 88 + 0x13b) mod 2 ^ 128) (limbs_value s) data" for s
    by (induction data arbitrary: s) (simp_all add: limbs_value_step)
  moreover have "limbs_value (0x6c62272e07bb0142, 0x62b821756295c58d) = 0x6c62272e07bb014262b821756295c58d"
    by (simp add: limbs_value_eq)
  ultimately show ?thesis by (simp add: fnv128a_state_def fnv1a_128_def)
qed

lemma le_encode_add: "le_encode (j + k) n = le_encode j n @ le_encode k (n div 256 ^ j)"
  by (induction j arbitrary: n) (simp_all add: div_mult2_eq)

lemma le_encode_low: "le_encode k (l + 256 ^ k * m) = le_encode k l"
proof (induction k arbitrary: l)
  case (Suc k)
  have "(word_of_nat (l + 256 ^ Suc k * m) :: uint8) = word_of_nat l"
    by (simp only: word_of_nat_eq_iff) (simp add: take_bit_eq_mod mult.assoc)
  moreover have "(l + 256 ^ Suc k * m) div 256 = l div 256 + 256 ^ k * m"
    by (simp add: mult.assoc div_mult_self2 add.commute)
  ultimately show ?case using Suc.IH [of "l div 256"] by simp
qed simp

lemma fnv128a_Sum_correct: "fnv128a_Sum data = be_encode 16 (nat (fnv1a_128 data))"
proof -
  obtain hi lo where s: "fnv128a_state data = (hi, lo)" by fastforce
  have "fnv1a_128 data = int (unat lo + 256 ^ 8 * unat hi)"
    using fnv128a_correct [of data] s by (simp add: limbs_value_eq)
  then have "nat (fnv1a_128 data) = unat lo + 256 ^ 8 * unat hi"
    by (simp only: nat_int)
  moreover have "le_encode 16 (unat lo + 256 ^ 8 * unat hi) = le_encode 8 (unat lo) @ le_encode 8 (unat hi)"
    using le_encode_add [of 8 8 "unat lo + 256 ^ 8 * unat hi"] unat_less_2_64 [of lo] le_encode_low [of 8 "unat lo" "unat hi"]
    by simp
  ultimately show ?thesis by (simp add: fnv128a_Sum_def s)
qed

end
