(* ===== verification/Order_Server.thy ===== *)
theory Order_Server
  imports Order_Types Go_Stdlib
begin

text \<open>
  The order service, \<^verbatim>\<open>dev/grpc/basic/server/order.go\<close>. The state is the global map
  \<open>orders\<close>; each handler is a function of it, of the request and of the stream. A handler is
  modelled as one uninterrupted run, except that \<open>ProcessOrders\<close>, which may stay open for long,
  reads at its n-th message whatever the map holds then (\<open>at n\<close>). Ranging over a map uses an
  iteration order given as an argument. Log output is left out.
\<close>

type_synonym orders = "(string, Order) fmap"

definition orderBatchSize :: int where
  "orderBatchSize = 3"

text \<open>Reading an absent key of a Go map gives the zero value.\<close>

definition orders_get :: "orders \<Rightarrow> string \<Rightarrow> Order" where
  "orders_get orders k = (case fmlookup orders k of Some o' \<Rightarrow> o' | None \<Rightarrow> Order_Reset)"

section \<open>Simple RPCs\<close>

definition AddOrder :: "orders \<Rightarrow> Order \<Rightarrow> (string option \<times> rpc_error option) \<times> orders" where
  "AddOrder orders orderReq =
     (let orders' = fmupd (Order_Id orderReq) orderReq orders
      in ((Some (''Order Added: '' @ Order_Id orderReq), None), orders'))"

text \<open>
  The format string of \<open>GetOrder\<close>'s error has no verb for its argument, so \<open>fmt\<close> appends it as
  an \<open>EXTRA\<close>; \<open>pbtext\<close> is the protobuf runtime's text of the request message.
\<close>

definition GetOrder :: "(string \<Rightarrow> string) \<Rightarrow> orders \<Rightarrow> string \<Rightarrow> Order option \<times> rpc_error option" where
  "GetOrder pbtext orders orderId =
     (case fmlookup orders orderId of
        Some ord \<Rightarrow> (Some ord, None)
      | None \<Rightarrow> (None, Some (Status NotFound
          (''Order does not exist. : %!(EXTRA *wrapperspb.StringValue='' @ pbtext orderId @ '')''))))"

section \<open>SearchOrders: server streaming\<close>

fun search_items :: "(nat \<Rightarrow> rpc_error option) \<Rightarrow> string \<Rightarrow> Order \<Rightarrow> string list \<Rightarrow> Order list
    \<Rightarrow> rpc_error option \<times> Order list" where
  "search_items f q order [] sent = (None, sent)"
| "search_items f q order (str # strs) sent =
     (if strings_Contains str q
      then (case stream_Send f order sent of
              (Some e, sent') \<Rightarrow> (Some (Errorf ''error send: '' e), sent')
            | (None, sent') \<Rightarrow> search_items f q order strs sent')
      else search_items f q order strs sent)"

fun search_range :: "(nat \<Rightarrow> rpc_error option) \<Rightarrow> string \<Rightarrow> Order list \<Rightarrow> Order list
    \<Rightarrow> rpc_error option \<times> Order list" where
  "search_range f q [] sent = (None, sent)"
| "search_range f q (order # rest) sent =
     (case search_items f q order (Order_Items order) sent of
        (Some e, sent') \<Rightarrow> (Some e, sent')
      | (None, sent') \<Rightarrow> search_range f q rest sent')"

definition SearchOrders :: "(nat \<Rightarrow> rpc_error option) \<Rightarrow> (nat \<Rightarrow> orders \<Rightarrow> string list)
    \<Rightarrow> orders \<Rightarrow> string \<Rightarrow> rpc_error option \<times> Order list" where
  "SearchOrders f it orders query = search_range f query (range_values (it 0 orders) orders) []"

section \<open>UpdateOrders: client streaming\<close>

text \<open>
  The loop ignores every error of \<open>Recv\<close> but \<open>io.EOF\<close>; the generated \<open>Recv\<close> returns a nil order
  with an error, and \<open>order.Id\<close> then dereferences nil.
\<close>

function UpdateOrders_loop :: "(nat \<Rightarrow> rpc_error option) \<Rightarrow> orders \<Rightarrow> string \<Rightarrow> Order in_stream
    \<Rightarrow> (rpc_error option outcome \<times> string list) \<times> orders" where
  "UpdateOrders_loop f orders ordersStr stream =
     (case stream_Recv stream of
        ((_, Some EOF), _) \<Rightarrow>
          (let (err, sent) = stream_Send f (''Orders processed '' @ ordersStr) []
           in ((Return err, sent), orders))
      | ((None, _), _) \<Rightarrow> ((Panic ''nil pointer dereference'', []), orders)
      | ((Some order, _), stream') \<Rightarrow>
          UpdateOrders_loop f (fmupd (Order_Id order) order orders)
            (ordersStr @ Order_Id order @ '', '') stream')"
  by pat_completeness auto
termination
  by (relation "measure (\<lambda>(f, orders, ordersStr, stream). length (pending stream))")
     (auto simp: stream_Recv_def split: list.splits)

declare UpdateOrders_loop.simps [simp del]

definition UpdateOrders :: "(nat \<Rightarrow> rpc_error option) \<Rightarrow> orders \<Rightarrow> Order in_stream
    \<Rightarrow> (rpc_error option outcome \<times> string list) \<times> orders" where
  "UpdateOrders f orders stream = UpdateOrders_loop f orders ''Updated Order IDs : '' stream"

lemma UpdateOrders_loop_Nil:
  "UpdateOrders_loop f orders acc (In_Stream [] EOF) =
     ((Return (f 0), case f 0 of None \<Rightarrow> [''Orders processed '' @ acc] | Some _ \<Rightarrow> []), orders)"
  "UpdateOrders_loop f orders acc (In_Stream [] (Broken e)) =
     ((Panic ''nil pointer dereference'', []), orders)"
  by (subst UpdateOrders_loop.simps, simp add: stream_Send_def split: option.splits)+

lemma UpdateOrders_loop_Cons:
  "UpdateOrders_loop f orders acc (In_Stream (m # ms) e) =
     UpdateOrders_loop f (fmupd (Order_Id m) m orders) (acc @ Order_Id m @ '', '') (In_Stream ms e)"
  by (subst UpdateOrders_loop.simps) simp

lemmas UpdateOrders_loop_simps = UpdateOrders_loop_Nil UpdateOrders_loop_Cons

section \<open>ProcessOrders: bidirectional streaming\<close>

record process_state =
  batchMarker :: int
  combinedShipmentMap :: "(string, CombinedShipment) fmap"

definition process_init :: process_state where
  "process_init = \<lparr>batchMarker = 1, combinedShipmentMap = fmempty\<rparr>"

text \<open>\<open>orderId.GetValue()\<close> on the wrapper message, whose getter is nil-safe.\<close>

definition StringValue_GetValue :: "string option \<Rightarrow> string" where
  "StringValue_GetValue m = go_string m"

text \<open>
  The body of the loop up to the batch test: the order joins the shipment of its address. The look-ups for a
  message find one map here; \<open>Order_Lookups\<close> takes them apart.
\<close>

definition combine :: "orders \<Rightarrow> string \<Rightarrow> (string, CombinedShipment) fmap
    \<Rightarrow> (string, CombinedShipment) fmap outcome" where
  "combine orders orderId shipments =
     (case Order_Addresses (orders_get orders orderId) of
        [] \<Rightarrow> Panic ''index out of range [0] with length 0''
      | None # _ \<Rightarrow> Panic ''nil pointer dereference''
      | Some a # _ \<Rightarrow>
          (let destination = Address_Address a; ord = orders_get orders orderId in
           case fmlookup shipments destination of
             Some shipment \<Rightarrow>
               Return (fmupd destination
                 (shipment\<lparr>Shipment_OrderList := Shipment_OrderList shipment @ [ord]\<rparr>) shipments)
           | None \<Rightarrow>
               Return (fmupd destination
                 \<lparr>Shipment_Id = ''cmb - '' @ destination, Shipment_Status = ''Processed!'',
                  Shipment_OrderList = [ord]\<rparr> shipments)))"

fun send_each :: "(nat \<Rightarrow> rpc_error option) \<Rightarrow> 'm list \<Rightarrow> 'm list \<Rightarrow> rpc_error option \<times> 'm list" where
  "send_each f [] sent = (None, sent)"
| "send_each f (m # ms) sent =
     (case stream_Send f m sent of
        (Some e, sent') \<Rightarrow> (Some e, sent')
      | (None, sent') \<Rightarrow> send_each f ms sent')"

function ProcessOrders_loop ::
  "(nat \<Rightarrow> orders) \<Rightarrow> (nat \<Rightarrow> (string, CombinedShipment) fmap \<Rightarrow> string list)
    \<Rightarrow> (nat \<Rightarrow> rpc_error option) \<Rightarrow> nat \<Rightarrow> process_state \<Rightarrow> string in_stream \<Rightarrow> CombinedShipment list
    \<Rightarrow> rpc_error option outcome \<times> CombinedShipment list" where
  "ProcessOrders_loop at it f n st stream sent =
     (case stream_Recv stream of
        ((_, Some EOF), _) \<Rightarrow>
          (let (err, sent') = send_each f (range_values (it n (combinedShipmentMap st)) (combinedShipmentMap st)) sent
           in (Return err, sent'))
      | ((_, Some (Broken e)), _) \<Rightarrow> (Return (Some e), sent)
      | ((m, None), stream') \<Rightarrow>
          (let orderId = StringValue_GetValue m in
           case combine (at n) orderId (combinedShipmentMap st) of
             Panic p \<Rightarrow> (Panic p, sent)
           | Return shipments \<Rightarrow>
               if batchMarker st = orderBatchSize
               then (case send_each f (range_values (it n shipments) shipments) sent of
                       (Some e, sent') \<Rightarrow> (Return (Some e), sent')
                     | (None, sent') \<Rightarrow>
                         ProcessOrders_loop at it f (Suc n)
                           \<lparr>batchMarker = 0, combinedShipmentMap = fmempty\<rparr> stream' sent')
               else ProcessOrders_loop at it f (Suc n)
                      \<lparr>batchMarker = batchMarker st + 1, combinedShipmentMap = shipments\<rparr> stream' sent))"
  by pat_completeness auto
termination
  by (relation "measure (\<lambda>(at, it, f, n, st, stream, sent). length (pending stream))")
     (auto simp: stream_Recv_def split: list.splits)

declare ProcessOrders_loop.simps [simp del]

definition ProcessOrders :: "(nat \<Rightarrow> orders) \<Rightarrow> (nat \<Rightarrow> (string, CombinedShipment) fmap \<Rightarrow> string list)
    \<Rightarrow> (nat \<Rightarrow> rpc_error option) \<Rightarrow> string in_stream \<Rightarrow> rpc_error option outcome \<times> CombinedShipment list" where
  "ProcessOrders at it f stream = ProcessOrders_loop at it f 0 process_init stream []"

lemma ProcessOrders_loop_Nil:
  "ProcessOrders_loop at it f n st (In_Stream [] EOF) sent =
     (let (err, sent') = send_each f (range_values (it n (combinedShipmentMap st)) (combinedShipmentMap st)) sent
      in (Return err, sent'))"
  "ProcessOrders_loop at it f n st (In_Stream [] (Broken e)) sent = (Return (Some e), sent)"
  by (subst ProcessOrders_loop.simps, simp)+

lemma ProcessOrders_loop_Cons:
  "ProcessOrders_loop at it f n st (In_Stream (orderId # ids) e) sent =
     (case combine (at n) orderId (combinedShipmentMap st) of
        Panic p \<Rightarrow> (Panic p, sent)
      | Return shipments \<Rightarrow>
          if batchMarker st = orderBatchSize
          then (case send_each f (range_values (it n shipments) shipments) sent of
                  (Some e, sent') \<Rightarrow> (Return (Some e), sent')
                | (None, sent') \<Rightarrow>
                    ProcessOrders_loop at it f (Suc n)
                      \<lparr>batchMarker = 0, combinedShipmentMap = fmempty\<rparr> (In_Stream ids e) sent')
          else ProcessOrders_loop at it f (Suc n)
                 \<lparr>batchMarker = batchMarker st + 1, combinedShipmentMap = shipments\<rparr> (In_Stream ids e) sent)"
  by (subst ProcessOrders_loop.simps) (simp add: StringValue_GetValue_def cong: outcome.case_cong)

section \<open>The store behind the service\<close>

text \<open>
  What every operation that writes an order promises to the readers: the order is found under
  its id, and no other id is touched.
\<close>

locale order_store =
  fixes put :: "'s \<Rightarrow> Order \<Rightarrow> 's"
    and get :: "'s \<Rightarrow> string \<Rightarrow> Order option"
  assumes get_put: "get (put s x) k = (if k = Order_Id x then Some x else get s k)"
begin

lemma get_put_all:
  "get (foldl put s xs) k =
     (case find (\<lambda>x. Order_Id x = k) (rev xs) of Some x \<Rightarrow> Some x | None \<Rightarrow> get s k)"
  by (induction xs rule: rev_induct) (auto simp: get_put)

lemma get_put_idem: "get (put (put s x) x) k = get (put s x) k"
  by (simp add: get_put)

lemma put_commute:
  "Order_Id x \<noteq> Order_Id y \<Longrightarrow> get (put (put s x) y) k = get (put (put s y) x) k"
  by (simp add: get_put)

end

interpretation simple: order_store "\<lambda>s x. snd (AddOrder s x)" "\<lambda>s k. fst (GetOrder pbtext s k)"
  for pbtext
  by unfold_locales (simp add: AddOrder_def GetOrder_def)

interpretation streamed: order_store "\<lambda>s x. snd (UpdateOrders f s (In_Stream [x] EOF))"
    "\<lambda>s k. fst (GetOrder pbtext s k)"
  for f pbtext
  by unfold_locales (simp add: UpdateOrders_def UpdateOrders_loop_simps GetOrder_def)

lemma GetOrder_cases:
  "GetOrder pbtext orders k =
     (case fst (GetOrder pbtext orders k) of Some x \<Rightarrow> (Some x, None)
      | None \<Rightarrow> (None, Some (Status NotFound
          (''Order does not exist. : %!(EXTRA *wrapperspb.StringValue='' @ pbtext k @ '')''))))"
  by (simp add: GetOrder_def split: option.splits)

lemma UpdateOrders_loop_run:
  "UpdateOrders_loop f orders acc (In_Stream xs EOF) =
     ((Return (f 0), case f 0 of None \<Rightarrow> [''Orders processed '' @ acc @ concat (map (\<lambda>x. Order_Id x @ '', '') xs)]
        | Some _ \<Rightarrow> []), foldl (\<lambda>s x. snd (AddOrder s x)) orders xs)"
  by (induction xs arbitrary: orders acc)
     (simp_all add: UpdateOrders_loop_simps AddOrder_def split: option.split)

lemma UpdateOrders_loop_broken:
  "UpdateOrders_loop f orders acc (In_Stream xs (Broken e)) =
     ((Panic ''nil pointer dereference'', []), foldl (\<lambda>s x. snd (AddOrder s x)) orders xs)"
  by (induction xs arbitrary: orders acc) (simp_all add: UpdateOrders_loop_simps AddOrder_def)

section \<open>Sending a list of messages\<close>

lemma send_each_ok [simp]: "send_each (\<lambda>_. None) ms sent = (None, sent @ ms)"
  by (induction ms arbitrary: sent) (simp_all add: stream_Send_def)

lemma send_each_append:
  "send_each f (ms @ ns) sent =
     (case send_each f ms sent of (Some e, s) \<Rightarrow> (Some e, s) | (None, s) \<Rightarrow> send_each f ns s)"
  by (induction ms arbitrary: sent) (auto split: prod.splits option.splits)

lemma send_each_prefix:
  "\<exists>k \<le> length ms. snd (send_each f ms sent) = sent @ take k ms
     \<and> (case fst (send_each f ms sent) of
          None \<Rightarrow> k = length ms
        | Some e \<Rightarrow> k < length ms \<and> f (length sent + k) = Some e)
     \<and> (\<forall>i < k. f (length sent + i) = None)"
proof (induction ms arbitrary: sent)
  case Nil
  then show ?case by simp
next
  case (Cons m ms)
  show ?case
  proof (cases "f (length sent)")
    case (Some e)
    then show ?thesis by (intro exI [of _ 0]) (simp add: stream_Send_def)
  next
    case None
    obtain k where k: "k \<le> length ms"
      "snd (send_each f ms (sent @ [m])) = (sent @ [m]) @ take k ms"
      "case fst (send_each f ms (sent @ [m])) of None \<Rightarrow> k = length ms
       | Some e \<Rightarrow> k < length ms \<and> f (length (sent @ [m]) + k) = Some e"
      "\<forall>i < k. f (length (sent @ [m]) + i) = None"
      using Cons.IH [of "sent @ [m]"] by blast
    then have "f (length sent + i) = None" if "i < Suc k" for i
      using None that by (cases i) auto
    with k None show ?thesis
      by (intro exI [of _ "Suc k"]) (auto simp: stream_Send_def split: option.splits)
  qed
qed

section \<open>SearchOrders\<close>

definition matching_items :: "string \<Rightarrow> Order \<Rightarrow> nat" where
  "matching_items q x = length (filter (\<lambda>s. strings_Contains s q) (Order_Items x))"

definition search_matches :: "(nat \<Rightarrow> orders \<Rightarrow> string list) \<Rightarrow> orders \<Rightarrow> string \<Rightarrow> Order list" where
  "search_matches it orders q =
     concat (map (\<lambda>x. replicate (matching_items q x) x) (range_values (it 0 orders) orders))"

lemma search_items_eq:
  "search_items f q x strs sent =
     (let (e, s) = send_each f (replicate (length (filter (\<lambda>s. strings_Contains s q) strs)) x) sent
      in (map_option (Errorf ''error send: '') e, s))"
  by (induction strs arbitrary: sent) (auto split: prod.splits option.splits)

lemma search_range_eq:
  "search_range f q xs sent =
     (let (e, s) = send_each f (concat (map (\<lambda>x. replicate (matching_items q x) x) xs)) sent
      in (map_option (Errorf ''error send: '') e, s))"
  by (induction xs arbitrary: sent)
     (auto simp: search_items_eq send_each_append matching_items_def split: prod.splits option.splits)

lemma mset_search:
  "mset (concat (map (\<lambda>x. replicate (matching_items q x) x) xs))
     = (\<Sum>x\<in>#mset xs. replicate_mset (matching_items q x) x)"
  by (induction xs) simp_all

section \<open>ProcessOrders\<close>

definition first_destination :: "Order \<Rightarrow> string option" where
  "first_destination x =
     (case Order_Addresses x of Some a # _ \<Rightarrow> Some (Address_Address a) | _ \<Rightarrow> None)"

text \<open>The orders that the ids name, each read from the map at the time of its message.\<close>

fun looked_up :: "(nat \<Rightarrow> orders) \<Rightarrow> nat \<Rightarrow> string list \<Rightarrow> Order list" where
  "looked_up at n [] = []"
| "looked_up at n (k # ks) = orders_get (at n) k # looked_up at (Suc n) ks"

lemma length_looked_up [simp]: "length (looked_up at n ks) = length ks"
  by (induction ks arbitrary: n) auto

definition shipment_for :: "string \<Rightarrow> CombinedShipment \<Rightarrow> bool" where
  "shipment_for d s \<longleftrightarrow> Shipment_Id s = ''cmb - '' @ d \<and> Shipment_Status s = ''Processed!''
     \<and> Shipment_OrderList s \<noteq> [] \<and> (\<forall>x \<in> set (Shipment_OrderList s). first_destination x = Some d)"

definition shipments_ok :: "(string, CombinedShipment) fmap \<Rightarrow> bool" where
  "shipments_ok m \<longleftrightarrow> (\<forall>d s. fmlookup m d = Some s \<longrightarrow> shipment_for d s)"

definition shipped :: "CombinedShipment list \<Rightarrow> Order multiset" where
  "shipped ss = mset (concat (map Shipment_OrderList ss))"

definition content :: "(string, CombinedShipment) fmap \<Rightarrow> Order multiset" where
  "content m = (\<Sum>d\<in>fset (fmdom m). mset (Shipment_OrderList (the (fmlookup m d))))"

lemma shipped_simps [simp]:
  "shipped [] = {#}" "shipped (s # ss) = mset (Shipment_OrderList s) + shipped ss"
  "shipped (ss @ ts) = shipped ss + shipped ts"
  by (simp_all add: shipped_def)

lemma content_empty [simp]: "content fmempty = {#}"
  by (simp add: content_def)

lemma shipments_ok_empty [simp]: "shipments_ok fmempty"
  by (simp add: shipments_ok_def)

lemma shipped_range: "range_order it \<Longrightarrow> shipped (range_values (it n m) m) = content m"
proof -
  assume it: "range_order it"
  have "shipped ss = (\<Sum>s\<in>#mset ss. mset (Shipment_OrderList s))" for ss
    by (induction ss) simp_all
  then show ?thesis
    by (simp add: mset_range_values range_orderD [OF it] content_def sum_unfold_sum_mset
        image_mset.compositionality comp_def)
qed

lemma content_upd:
  "content (fmupd d s m) + (case fmlookup m d of None \<Rightarrow> {#} | Some t \<Rightarrow> mset (Shipment_OrderList t))
     = content m + mset (Shipment_OrderList s)"
proof -
  let ?g = "\<lambda>m d. mset (Shipment_OrderList (the (fmlookup m d)))"
  have frame: "(\<Sum>k\<in>fset (fmdom m) - {d}. ?g (fmupd d s m) k) = (\<Sum>k\<in>fset (fmdom m) - {d}. ?g m k)"
    by (intro sum.cong) auto
  have new: "content (fmupd d s m) = mset (Shipment_OrderList s) + (\<Sum>k\<in>fset (fmdom m) - {d}. ?g m k)"
    using frame by (simp add: content_def sum.insert_remove)
  show ?thesis
  proof (cases "fmlookup m d")
    case None
    then have "d \<notin> fset (fmdom m)" by (simp add: fmlookup_in_fmdom)
    then show ?thesis using new None by (simp add: content_def ac_simps)
  next
    case (Some t)
    then have "d \<in> fset (fmdom m)" by (simp add: fmlookup_in_fmdom)
    then have "content m = mset (Shipment_OrderList t) + (\<Sum>k\<in>fset (fmdom m) - {d}. ?g m k)"
      using Some by (simp add: content_def sum.remove [of _ d])
    then show ?thesis using new Some by (simp add: ac_simps)
  qed
qed

lemma combine_returns: "returns (combine os k m) \<longleftrightarrow> first_destination (orders_get os k) \<noteq> None"
  by (auto simp: combine_def first_destination_def Let_def split: list.splits option.splits)

definition joined :: "string \<Rightarrow> Order \<Rightarrow> CombinedShipment option \<Rightarrow> CombinedShipment" where
  "joined d x old = (case old of
      Some s \<Rightarrow> s\<lparr>Shipment_OrderList := Shipment_OrderList s @ [x]\<rparr>
    | None \<Rightarrow> \<lparr>Shipment_Id = ''cmb - '' @ d, Shipment_Status = ''Processed!'', Shipment_OrderList = [x]\<rparr>)"

lemma combine_Return:
  "combine os k m = Return m' \<longleftrightarrow>
     (\<exists>d. first_destination (orders_get os k) = Some d
        \<and> m' = fmupd d (joined d (orders_get os k) (fmlookup m d)) m)"
  by (auto simp: combine_def first_destination_def joined_def Let_def split: list.splits option.splits)

lemma combine_content:
  assumes "combine os k m = Return m'"
  shows "content m' = add_mset (orders_get os k) (content m)"
proof -
  let ?x = "orders_get os k"
  obtain d where m': "m' = fmupd d (joined d ?x (fmlookup m d)) m"
    using assms by (auto simp: combine_Return)
  let ?old = "case fmlookup m d of None \<Rightarrow> {#} | Some t \<Rightarrow> mset (Shipment_OrderList t)"
  have "mset (Shipment_OrderList (joined d ?x (fmlookup m d))) = add_mset ?x ?old"
    by (simp add: joined_def split: option.split)
  with content_upd [of d "joined d ?x (fmlookup m d)" m]
  have "content m' + ?old = add_mset ?x (content m) + ?old"
    by (simp add: m')
  then show ?thesis by (simp only: add_right_cancel)
qed

lemma combine_ok:
  assumes "combine os k m = Return m'" and "shipments_ok m"
  shows "shipments_ok m'"
proof -
  obtain d where d: "first_destination (orders_get os k) = Some d"
    and m': "m' = fmupd d (joined d (orders_get os k) (fmlookup m d)) m"
    using assms(1) by (auto simp: combine_Return)
  have "shipment_for d (joined d (orders_get os k) (fmlookup m d))"
    using assms(2) d by (auto simp: shipments_ok_def shipment_for_def joined_def split: option.split)
  then show ?thesis using assms(2) by (simp add: m' shipments_ok_def)
qed

lemma range_shipments_ok:
  "shipments_ok m \<Longrightarrow> set ks = fset (fmdom m) \<Longrightarrow> s \<in> set (range_values ks m) \<Longrightarrow> \<exists>d. shipment_for d s"
  by (auto simp: set_range_values shipments_ok_def)

lemma send_each_subset:
  "set (snd (send_each f ms sent)) \<subseteq> set sent \<union> set ms"
  using send_each_prefix [of ms f sent] by (auto dest: in_set_takeD)

section \<open>The loop of ProcessOrders\<close>

text \<open>Whatever the transport does, only well-formed shipments are sent.\<close>

definition sent_ok :: "CombinedShipment list \<Rightarrow> bool" where
  "sent_ok sent \<longleftrightarrow> (\<forall>s \<in> set sent. \<exists>d. shipment_for d s)"

lemma sent_ok_flush:
  assumes "range_order it" and "shipments_ok m" and "sent_ok sent"
  shows "sent_ok (snd (send_each f (range_values (it n m) m) sent))"
  using send_each_subset [of f "range_values (it n m) m" sent] assms(3)
    range_shipments_ok [OF assms(2) range_orderD(2) [OF assms(1)]]
  unfolding sent_ok_def by blast

lemma ProcessOrders_loop_sound:
  assumes "range_order it" and "shipments_ok (combinedShipmentMap st)" and "sent_ok sent"
  shows "sent_ok (snd (ProcessOrders_loop at it f n st (In_Stream ids e) sent))"
  using assms(2,3)
proof (induction ids arbitrary: n st sent)
  case Nil
  then show ?case
    using sent_ok_flush [OF assms(1) Nil, of f n]
    by (cases e) (auto simp: ProcessOrders_loop_Nil split: prod.split)
next
  case (Cons k ks)
  show ?case
  proof (cases "combine (at n) k (combinedShipmentMap st)")
    case (Panic p)
    then show ?thesis using Cons.prems by (simp add: ProcessOrders_loop_Cons)
  next
    case (Return m)
    then have m: "shipments_ok m" using combine_ok Cons.prems(1) by blast
    show ?thesis
      using Cons.IH Cons.prems(2) m Return sent_ok_flush [OF assms(1) m Cons.prems(2), of f n]
      by (auto simp: ProcessOrders_loop_Cons split: prod.split option.split)
  qed
qed

text \<open>One message, with a transport that accepts every message.\<close>

definition batch_state :: "process_state \<Rightarrow> (string, CombinedShipment) fmap \<Rightarrow> process_state" where
  "batch_state st m =
     (if batchMarker st = orderBatchSize then \<lparr>batchMarker = 0, combinedShipmentMap = fmempty\<rparr>
      else \<lparr>batchMarker = batchMarker st + 1, combinedShipmentMap = m\<rparr>)"

definition batch_sent :: "process_state \<Rightarrow> CombinedShipment list \<Rightarrow> CombinedShipment list \<Rightarrow> CombinedShipment list"
where
  "batch_sent st new sent = (if batchMarker st = orderBatchSize then sent @ new else sent)"

lemma ProcessOrders_loop_step:
  assumes "combine (at n) k (combinedShipmentMap st) = Return m"
  shows "ProcessOrders_loop at it (\<lambda>_. None) n st (In_Stream (k # ks) e) sent =
    ProcessOrders_loop at it (\<lambda>_. None) (Suc n) (batch_state st m) (In_Stream ks e)
      (batch_sent st (range_values (it n m) m) sent)"
  using assms by (simp add: ProcessOrders_loop_Cons batch_state_def batch_sent_def)

lemma batch_content:
  assumes "range_order it" and "combine os k (combinedShipmentMap st) = Return m"
  shows "shipped (batch_sent st (range_values (it n m) m) sent) + content (combinedShipmentMap (batch_state st m))
    = add_mset (orders_get os k) (shipped sent + content (combinedShipmentMap st))"
  by (simp add: batch_sent_def batch_state_def shipped_range [OF assms(1)] combine_content [OF assms(2)])

text \<open>With a transport that accepts every message, the loop is determined by the orders looked up.\<close>

lemma ProcessOrders_loop_EOF:
  assumes "range_order it" and "\<forall>x \<in> set (looked_up at n ids). first_destination x \<noteq> None"
  shows "\<exists>sent'. ProcessOrders_loop at it (\<lambda>_. None) n st (In_Stream ids EOF) sent = (Return None, sent')
    \<and> shipped sent' = shipped sent + content (combinedShipmentMap st) + mset (looked_up at n ids)"
  using assms(2)
proof (induction ids arbitrary: n st sent)
  case Nil
  then show ?case by (simp add: ProcessOrders_loop_Nil shipped_range [OF assms(1)])
next
  case (Cons k ks)
  from Cons.prems have "returns (combine (at n) k (combinedShipmentMap st))"
    by (simp add: combine_returns)
  then obtain m where m: "combine (at n) k (combinedShipmentMap st) = Return m"
    by (auto simp: returns_iff)
  let ?sent = "batch_sent st (range_values (it n m) m) sent"
  have "\<forall>x \<in> set (looked_up at (Suc n) ks). first_destination x \<noteq> None"
    using Cons.prems by simp
  then obtain sent' where run: "ProcessOrders_loop at it (\<lambda>_. None) (Suc n) (batch_state st m) (In_Stream ks EOF) ?sent
      = (Return None, sent')"
    and "shipped sent' = shipped ?sent + content (combinedShipmentMap (batch_state st m)) + mset (looked_up at (Suc n) ks)"
    using Cons.IH by blast
  then have "shipped sent' = shipped sent + content (combinedShipmentMap st) + mset (looked_up at n (k # ks))"
    by (simp add: batch_content [OF assms(1) m])
  with run show ?case by (simp add: ProcessOrders_loop_step [of at n, OF m])
qed

text \<open>
  The counter after n messages is \<open>(n + 1) mod 4\<close>: it starts at 1 but is reset to 0, so that the
  first batch has three orders and every later one four.
\<close>

lemma marker_step:
  assumes "batchMarker st = (int n + 1) mod 4"
  shows "(if batchMarker st = orderBatchSize then 0 else batchMarker st + 1) = (int (Suc n) + 1) mod 4"
proof (cases "(int n + 1) mod 4 = 3")
  case True
  then have "(int n + 2) mod 4 = 0" by presburger
  with True assms show ?thesis by (simp add: orderBatchSize_def add.commute)
next
  case False
  then have "(int n + 2) mod 4 = (int n + 1) mod 4 + 1" by presburger
  with False assms show ?thesis by (simp add: orderBatchSize_def add.commute)
qed

definition full_batches :: "nat \<Rightarrow> nat" where
  "full_batches n = 4 * ((n + 1) div 4) - 1"

lemma full_batches_flush: "(int n + 1) mod 4 = 3 \<Longrightarrow> full_batches (Suc n) = Suc n"
  unfolding full_batches_def by presburger

lemma full_batches_keep: "(int n + 1) mod 4 \<noteq> 3 \<Longrightarrow> full_batches (Suc n) = full_batches n"
proof -
  assume "(int n + 1) mod 4 \<noteq> 3"
  then have "(Suc n + 1) div 4 = (n + 1) div 4" by presburger
  then show ?thesis by (simp add: full_batches_def)
qed

lemma ProcessOrders_loop_Broken:
  assumes "range_order it" and "\<forall>x \<in> set (looked_up at n ids). first_destination x \<noteq> None"
    and "batchMarker st = (int n + 1) mod 4"
    and "size (shipped sent) = full_batches n"
    and "size (shipped sent) + size (content (combinedShipmentMap st)) = n"
  shows "size (shipped (snd (ProcessOrders_loop at it (\<lambda>_. None) n st (In_Stream ids (Broken e)) sent)))
    = full_batches (n + length ids)"
  using assms(2-)
proof (induction ids arbitrary: n st sent)
  case Nil
  then show ?case by (simp add: ProcessOrders_loop_Nil)
next
  case (Cons k ks)
  from Cons.prems(1) have "returns (combine (at n) k (combinedShipmentMap st))"
    by (simp add: combine_returns)
  then obtain m where m: "combine (at n) k (combinedShipmentMap st) = Return m"
    by (auto simp: returns_iff)
  have flush: "batchMarker st = orderBatchSize \<longleftrightarrow> (int n + 1) mod 4 = 3"
    using Cons.prems(2) by (simp add: orderBatchSize_def)
  let ?sent = "batch_sent st (range_values (it n m) m) sent"
  have total: "size (shipped ?sent) + size (content (combinedShipmentMap (batch_state st m))) = Suc n"
    using arg_cong [OF batch_content [OF assms(1) m, of n sent], of size] Cons.prems(4) by simp
  have "size (shipped (snd (ProcessOrders_loop at it (\<lambda>_. None) (Suc n) (batch_state st m) (In_Stream ks (Broken e)) ?sent)))
      = full_batches (Suc n + length ks)"
  proof (rule Cons.IH)
    show "\<forall>x \<in> set (looked_up at (Suc n) ks). first_destination x \<noteq> None"
      using Cons.prems(1) by simp
    show "batchMarker (batch_state st m) = (int (Suc n) + 1) mod 4"
      using marker_step [OF Cons.prems(2)] by (simp add: batch_state_def split: if_splits)
    show "size (shipped ?sent) = full_batches (Suc n)"
    proof (cases "batchMarker st = orderBatchSize")
      case True
      then show ?thesis using total flush full_batches_flush by (simp add: batch_state_def)
    next
      case False
      then show ?thesis using Cons.prems(3) flush full_batches_keep by (simp add: batch_sent_def)
    qed
    show "size (shipped ?sent) + size (content (combinedShipmentMap (batch_state st m))) = Suc n"
      by (rule total)
  qed
  then show ?case by (simp add: ProcessOrders_loop_step [of at n, OF m])
qed

text \<open>No shipment is larger than a batch, and no more orders are sent than messages came in.\<close>

definition batch_bounded :: "nat \<Rightarrow> CombinedShipment list \<Rightarrow> bool" where
  "batch_bounded n sent \<longleftrightarrow>
     (\<forall>s \<in> set sent. int (length (Shipment_OrderList s)) \<le> orderBatchSize + 1) \<and> size (shipped sent) \<le> n"

lemma shipped_member: "s \<in> set ss \<Longrightarrow> length (Shipment_OrderList s) \<le> size (shipped ss)"
  by (induction ss) auto

lemma shipped_take: "size (shipped (take k ss)) \<le> size (shipped ss)"
  using append_take_drop_id [of k ss] by (metis le_add1 shipped_simps(3) size_union)

lemma batch_bounded_flush:
  assumes "range_order it" and "batch_bounded n sent" and "int (size (content m)) \<le> orderBatchSize + 1"
  shows "batch_bounded (n + size (content m)) (snd (send_each f (range_values (it i m) m) sent))"
proof -
  let ?new = "range_values (it i m) m"
  obtain k where k: "snd (send_each f ?new sent) = sent @ take k ?new"
    using send_each_prefix [of ?new f sent] by blast
  have "int (length (Shipment_OrderList s)) \<le> orderBatchSize + 1" if "s \<in> set ?new" for s
    using shipped_member [OF that] assms(3) by (simp add: shipped_range [OF assms(1)])
  moreover have "size (shipped (take k ?new)) \<le> size (content m)"
    using shipped_take [of k ?new] by (simp add: shipped_range [OF assms(1)])
  ultimately show ?thesis
    using assms(2) by (auto simp: k batch_bounded_def dest: in_set_takeD)
qed

lemma batch_bounded_mono: "batch_bounded n sent \<Longrightarrow> n \<le> n' \<Longrightarrow> batch_bounded n' sent"
  by (auto simp: batch_bounded_def)

lemma ProcessOrders_loop_bounded:
  assumes "range_order it"
    and "batch_bounded (n - size (content (combinedShipmentMap st))) sent" and "size (content (combinedShipmentMap st)) \<le> n"
    and "int (size (content (combinedShipmentMap st))) \<le> batchMarker st" and "batchMarker st \<le> orderBatchSize"
  shows "batch_bounded (n + length ids) (snd (ProcessOrders_loop at it f n st (In_Stream ids e) sent))"
  using assms(2-)
proof (induction ids arbitrary: n st sent)
  case Nil
  then have flush: "batch_bounded n (snd (send_each f (range_values (it n (combinedShipmentMap st)) (combinedShipmentMap st)) sent))"
    using batch_bounded_flush [OF assms(1), of _ sent "combinedShipmentMap st" f n] by fastforce
  have "batch_bounded n sent" using Nil batch_bounded_mono by fastforce
  with flush show ?case by (cases e) (auto simp: ProcessOrders_loop_Nil split: prod.split)
next
  case (Cons k ks)
  have keep: "batch_bounded (n + length (k # ks)) sent"
    using Cons.prems(1) by (rule batch_bounded_mono) simp
  show ?case
  proof (cases "combine (at n) k (combinedShipmentMap st)")
    case (Panic p)
    then show ?thesis using keep by (simp add: ProcessOrders_loop_Cons)
  next
    case (Return m)
    note size = arg_cong [OF combine_content [OF Return], of size, simplified]
    obtain r sent' where send: "send_each f (range_values (it n m) m) sent = (r, sent')" by fastforce
    have flush: "batch_bounded (Suc n) sent'"
      using batch_bounded_flush [OF assms(1) Cons.prems(1), of m f n] Cons.prems(2-4) send by (simp add: size)
    show ?thesis
    proof (cases "batchMarker st = orderBatchSize")
      case True
      have "batch_bounded (Suc n + length ks) (snd (ProcessOrders_loop at it f (Suc n)
          \<lparr>batchMarker = 0, combinedShipmentMap = fmempty\<rparr> (In_Stream ks e) sent'))"
        by (rule Cons.IH) (use flush in \<open>simp_all add: orderBatchSize_def\<close>)
      moreover have "batch_bounded (Suc n + length ks) sent'" using flush by (rule batch_bounded_mono) simp
      ultimately show ?thesis
        using True Return send by (auto simp: ProcessOrders_loop_Cons split: option.split)
    next
      case False
      have "batch_bounded (Suc n + length ks) (snd (ProcessOrders_loop at it f (Suc n)
          \<lparr>batchMarker = batchMarker st + 1, combinedShipmentMap = m\<rparr> (In_Stream ks e) sent))"
        by (rule Cons.IH) (use Cons.prems False in \<open>simp_all add: size\<close>)
      with False Return show ?thesis by (simp add: ProcessOrders_loop_Cons)
    qed
  qed
qed

lemma sent_ok_count: "sent_ok ss \<Longrightarrow> length ss \<le> size (shipped ss)"
proof (induction ss)
  case (Cons s ss)
  then have "Shipment_OrderList s \<noteq> []" by (auto simp: sent_ok_def shipment_for_def)
  then have "1 \<le> length (Shipment_OrderList s)" by (simp add: Suc_le_eq)
  with Cons show ?case by (simp add: sent_ok_def)
qed simp

text \<open>The outcome of a run whose sends all succeed is a panic exactly when an order has no address.\<close>

lemma ProcessOrders_loop_outcome:
  "(case fst (ProcessOrders_loop at it (\<lambda>_. None) n st (In_Stream ids e) sent) of
      Return r \<Rightarrow> (\<forall>x \<in> set (looked_up at n ids). first_destination x \<noteq> None)
        \<and> r = (case e of EOF \<Rightarrow> None | Broken err \<Rightarrow> Some err)
    | Panic _ \<Rightarrow> \<exists>x \<in> set (looked_up at n ids). first_destination x = None)"
proof (induction ids arbitrary: n st sent)
  case Nil
  then show ?case by (cases e) (simp_all add: ProcessOrders_loop_Nil)
next
  case (Cons k ks)
  show ?case
  proof (cases "combine (at n) k (combinedShipmentMap st)")
    case (Panic p)
    then have "first_destination (orders_get (at n) k) = None"
      using combine_returns [of "at n" k "combinedShipmentMap st"] by simp
    with Panic show ?thesis by (simp add: ProcessOrders_loop_Cons)
  next
    case (Return m)
    then have "first_destination (orders_get (at n) k) \<noteq> None"
      using combine_returns [of "at n" k "combinedShipmentMap st"] by simp
    then show ?thesis
      using Cons.IH [of "Suc n" "batch_state st m" "batch_sent st (range_values (it n m) m) sent"]
      by (simp add: ProcessOrders_loop_step [of at n, OF Return] split: outcome.splits)
  qed
qed

section \<open>Properties\<close>

text \<open>Two orders for the witnesses: the ones that the repository's client program uploads.\<close>

definition sample_order_101 :: Order where
  "sample_order_101 = \<lparr>Order_Id = ''101'', Order_Items = [''Oppo'', ''samung''],
     Order_Description = ''A with B'', Order_Price = 0x45160000,
     Order_Addresses = [Some \<lparr>Address_Address = ''Mike, Shanghai'', Address_Type = Order_HOME\<rparr>],
     Order_LastUpdated = None\<rparr>"

definition sample_order_102 :: Order where
  "sample_order_102 = \<lparr>Order_Id = ''102'', Order_Items = [''iPhone XS'', ''Mac Book Pro''],
     Order_Description = ''C with D'', Order_Price = 0x451C4000,
     Order_Addresses = [Some \<lparr>Address_Address = ''Sam, Beijing'', Address_Type = Order_WORK\<rparr>],
     Order_LastUpdated = None\<rparr>"

definition sample_orders :: orders where
  "sample_orders = fmupd ''102'' sample_order_102 (fmupd ''101'' sample_order_101 fmempty)"

definition sorted_range :: "nat \<Rightarrow> (string, 'v) fmap \<Rightarrow> string list" where
  "sorted_range n m = sorted_list_of_fset (fmdom m)"

lemma sorted_range_order: "range_order sorted_range"
  by (simp add: range_order_def sorted_range_def sorted_list_of_fset.rep_eq)

lemma sample_destinations:
  "\<forall>x \<in> set (looked_up (\<lambda>_. sample_orders) 0 [''101'', ''102'', ''101'']). first_destination x \<noteq> None"
  by (simp add: sample_orders_def orders_get_def first_destination_def sample_order_101_def
      sample_order_102_def)

text \<open>C2: A \<open>ProcessOrders\<close> stream whose ids all name orders with an address, and whose client
  closes it, ships every order looked up exactly once, and nothing else: the shipments sent over
  the whole stream hold, as a multiset, the orders read for its messages. The call returns nil.\<close>

theorem ProcessOrders_conserves:
  assumes "range_order it" and "\<forall>x \<in> set (looked_up at 0 ids). first_destination x \<noteq> None"
  shows "\<exists>sent. ProcessOrders at it (\<lambda>_. None) (In_Stream ids EOF) = (Return None, sent)
    \<and> shipped sent = mset (looked_up at 0 ids)"
  using ProcessOrders_loop_EOF [OF assms, of process_init "[]"]
  by (simp add: ProcessOrders_def process_init_def)

theorem ProcessOrders_conserves_witness:
  "\<exists>sent. ProcessOrders (\<lambda>_. sample_orders) sorted_range (\<lambda>_. None)
      (In_Stream [''101'', ''102'', ''101''] EOF) = (Return None, sent)
    \<and> shipped sent = mset (looked_up (\<lambda>_. sample_orders) 0 [''101'', ''102'', ''101''])"
  by (rule ProcessOrders_conserves [OF sorted_range_order sample_destinations])

text \<open>C29: Every shipment that \<open>ProcessOrders\<close> sends, on any stream and whatever the transport does,
  is well formed: it is not empty, its status is \<open>Processed!\<close>, and there is one address that its
  id names and that is the first address of every order in it.\<close>

theorem ProcessOrders_groups_by_address:
  assumes "range_order it"
  shows "list_all (\<lambda>s. \<exists>d. shipment_for d s) (snd (ProcessOrders at it f (In_Stream ids e)))"
  using ProcessOrders_loop_sound [OF assms, of process_init "[]"]
  by (simp add: ProcessOrders_def process_init_def sent_ok_def list_all_iff)

theorem ProcessOrders_groups_by_address_witness:
  "list_all (\<lambda>s. \<exists>d. shipment_for d s) (snd (ProcessOrders (\<lambda>_. sample_orders) sorted_range (\<lambda>_. None)
      (In_Stream [''101'', ''102'', ''101''] EOF)))"
  by (rule ProcessOrders_groups_by_address [OF sorted_range_order])

text \<open>C30: The batches of \<open>ProcessOrders\<close>. The marker starts at 1 but is reset to 0, so the first
  batch is flushed after \<open>orderBatchSize = 3\<close> orders and each later one after four: when a stream
  of L orders breaks off, \<open>4 * ((L + 1) div 4) - 1\<close> orders (none for L below 3) have been shipped
  and the rest are lost.\<close>

theorem ProcessOrders_batches:
  assumes "range_order it" and "\<forall>x \<in> set (looked_up at 0 ids). first_destination x \<noteq> None"
  shows "size (shipped (snd (ProcessOrders at it (\<lambda>_. None) (In_Stream ids (Broken e)))))
    = 4 * ((length ids + 1) div 4) - 1"
  using ProcessOrders_loop_Broken [OF assms, of process_init "[]" e]
  by (simp add: ProcessOrders_def process_init_def full_batches_def)

theorem ProcessOrders_batches_witness:
  "size (shipped (snd (ProcessOrders (\<lambda>_. sample_orders) sorted_range (\<lambda>_. None)
      (In_Stream [''101'', ''102'', ''101''] (Broken (Transport ''reset'')))))) = 3"
  using ProcessOrders_batches [OF sorted_range_order sample_destinations] by simp

text \<open>C31: The bounds of \<open>ProcessOrders\<close>, on any stream and whatever the transport does: no shipment holds more
  than four orders, one more than \<open>orderBatchSize\<close>, and over the whole call no more orders are shipped
  than ids came in, in no more shipments than that.\<close>

theorem ProcessOrders_bounds:
  assumes "range_order it"
  shows "case ProcessOrders at it f (In_Stream ids e) of
     (_, sent) \<Rightarrow> list_all (\<lambda>s. length (Shipment_OrderList s) \<le> 4) sent \<and> size (shipped sent) \<le> length ids \<and> length sent \<le> length ids"
proof -
  obtain r sent where run: "ProcessOrders at it f (In_Stream ids e) = (r, sent)" by fastforce
  have "batch_bounded (length ids) sent"
    using ProcessOrders_loop_bounded [OF assms, of 0 process_init "[]" ids "at" f e] run
    by (simp add: ProcessOrders_def process_init_def batch_bounded_def orderBatchSize_def)
  moreover have "length sent \<le> size (shipped sent)"
    using ProcessOrders_loop_sound [OF assms, of process_init "[]" "at" f 0 ids e] run
    by (intro sent_ok_count) (simp add: ProcessOrders_def process_init_def sent_ok_def)
  ultimately show ?thesis
    by (auto simp: run batch_bounded_def orderBatchSize_def list_all_iff)
qed

theorem ProcessOrders_bounds_witness:
  "case ProcessOrders (\<lambda>_. sample_orders) sorted_range (\<lambda>_. None) (In_Stream [''101'', ''102'', ''101''] EOF) of
     (_, sent) \<Rightarrow> list_all (\<lambda>s. length (Shipment_OrderList s) \<le> 4) sent \<and> size (shipped sent) \<le> 3 \<and> length sent \<le> 3"
  using ProcessOrders_bounds [OF sorted_range_order, where at = "\<lambda>_. sample_orders" and f = "\<lambda>_. None"
      and ids = "[''101'', ''102'', ''101'']" and e = EOF]
  by (simp add: numeral_3_eq_3)

text \<open>How a \<open>ProcessOrders\<close> call ends, when its sends succeed: it panics exactly when some id
  names an order without a first address (an unknown id reads the zero order, which has none), and
  otherwise returns nil at the end of the stream or the error with which the stream broke.\<close>

theorem ProcessOrders_outcome:
  "(case fst (ProcessOrders at it (\<lambda>_. None) (In_Stream ids e)) of
      Return r \<Rightarrow> list_all (\<lambda>x. first_destination x \<noteq> None) (looked_up at 0 ids)
        \<and> r = (case e of EOF \<Rightarrow> None | Broken err \<Rightarrow> Some err)
    | Panic _ \<Rightarrow> list_ex (\<lambda>x. first_destination x = None) (looked_up at 0 ids))"
  using ProcessOrders_loop_outcome [where at = at and it = it and n = 0 and st = process_init and ids = ids and e = e and sent = "[]"]
  by (auto simp: ProcessOrders_def list_all_iff list_ex_iff split: outcome.split)

text \<open>After \<open>AddOrder\<close> the order is returned by \<open>GetOrder\<close> under its id, with a nil error,
  every other id is answered as before, and the reply names the id.\<close>

theorem AddOrder_GetOrder:
  "fst (AddOrder orders x) = (Some (''Order Added: '' @ Order_Id x), None)
   \<and> GetOrder pbtext (snd (AddOrder orders x)) k
       = (if k = Order_Id x then (Some x, None) else GetOrder pbtext orders k)"
  by (simp add: AddOrder_def GetOrder_def)

text \<open>\<open>UpdateOrders\<close> on a stream that the client closes leaves the map that \<open>AddOrder\<close> of each
  message in turn would leave, so that \<open>GetOrder\<close> finds the last order sent under an id; the one
  reply lists the ids in the order of arrival, and the call returns the outcome of sending it.\<close>

theorem UpdateOrders_is_AddOrder:
  "fst (UpdateOrders f orders (In_Stream xs EOF)) =
     (Return (f 0), case f 0 of
        None \<Rightarrow> [''Orders processed Updated Order IDs : '' @ concat (map (\<lambda>x. Order_Id x @ '', '') xs)]
      | Some _ \<Rightarrow> [])
   \<and> snd (UpdateOrders f orders (In_Stream xs EOF)) = foldl (\<lambda>s x. snd (AddOrder s x)) orders xs
   \<and> fst (GetOrder pbtext (snd (UpdateOrders f orders (In_Stream xs EOF))) k) =
       (case find (\<lambda>x. Order_Id x = k) (rev xs) of Some x \<Rightarrow> Some x
        | None \<Rightarrow> fst (GetOrder pbtext orders k))"
  using simple.get_put_all [of pbtext orders xs k]
  by (simp add: UpdateOrders_def UpdateOrders_loop_run split: option.split)

text \<open>When the stream of an \<open>UpdateOrders\<close> call breaks with any error but \<open>io.EOF\<close>, the handler
  panics on the nil order that \<open>Recv\<close> returned with the error; the orders received before have
  been stored and no reply is sent.\<close>

theorem UpdateOrders_broken_panics:
  "UpdateOrders f orders (In_Stream xs (Broken e)) =
     ((Panic ''nil pointer dereference'', []), foldl (\<lambda>s x. snd (AddOrder s x)) orders xs)"
  by (simp add: UpdateOrders_def UpdateOrders_loop_broken)

text \<open>\<open>SearchOrders\<close> sends every stored order once for each of its items that contains the
  query (so an order with two matching items is sent twice), and nothing else, whatever the order
  in which the map is ranged over.\<close>

theorem SearchOrders_sends:
  assumes "range_order it"
  shows "\<exists>sent. SearchOrders (\<lambda>_. None) it orders q = (None, sent)
    \<and> mset sent = (\<Sum>k\<in>fset (fmdom orders).
         replicate_mset (length (filter (\<lambda>s. strings_Contains s q) (Order_Items (orders_get orders k))))
           (orders_get orders k))"
proof -
  let ?g = "\<lambda>x. replicate_mset (matching_items q x) x"
  have eq: "the (fmlookup orders k) = orders_get orders k" if "k \<in> fset (fmdom orders)" for k
    using that by (auto simp: orders_get_def fmlookup_in_fmdom split: option.split)
  have "mset (range_values (it 0 orders) orders) = image_mset (\<lambda>k. the (fmlookup orders k)) (mset_set (fset (fmdom orders)))"
    by (rule mset_range_values [OF range_orderD [OF assms]])
  also have "\<dots> = image_mset (orders_get orders) (mset_set (fset (fmdom orders)))"
    by (rule image_mset_cong) (simp add: eq)
  finally have "(\<Sum>x\<in>#mset (range_values (it 0 orders) orders). ?g x)
      = (\<Sum>k\<in>fset (fmdom orders). ?g (orders_get orders k))"
    by (simp add: image_mset.compositionality comp_def sum_unfold_sum_mset)
  then show ?thesis
    by (simp add: SearchOrders_def search_range_eq mset_search flip: matching_items_def)
qed

theorem SearchOrders_sends_witness:
  "\<exists>sent. SearchOrders (\<lambda>_. None) sorted_range sample_orders ''Pro'' = (None, sent)
    \<and> mset sent = (\<Sum>k\<in>fset (fmdom sample_orders).
         replicate_mset (length (filter (\<lambda>s. strings_Contains s ''Pro'') (Order_Items (orders_get sample_orders k))))
           (orders_get sample_orders k))"
  by (rule SearchOrders_sends [OF sorted_range_order])

text \<open>A \<open>Send\<close> that fails ends \<open>SearchOrders\<close> there: exactly the matches before it have been
  sent, and the call returns that error wrapped; with no failure it returns nil.\<close>

theorem SearchOrders_stops_at_failure:
  "case fst (SearchOrders f it orders q) of
     None \<Rightarrow> snd (SearchOrders f it orders q) = search_matches it orders q
   | Some err \<Rightarrow> \<exists>n e. n < length (search_matches it orders q) \<and> f n = Some e
       \<and> err = Errorf ''error send: '' e
       \<and> snd (SearchOrders f it orders q) = take n (search_matches it orders q)"
  using send_each_prefix [of "search_matches it orders q" f "[]"]
  by (auto simp: SearchOrders_def search_range_eq search_matches_def split: prod.splits option.splits)

end
