(* ===== verification/Proto_Wire.thy ===== *)
theory Proto_Wire
  imports Go_Stdlib
begin

text \<open>
  The protobuf wire format, as its specification documents it: base-128 varints, the four kinds of
  value that proto3 uses, and a message as a sequence of numbered values. It serves two ends: a
  concrete codec for the messages of the order service, and the reading of the descriptor that the
  generated code embeds.
\<close>

section \<open>Varints\<close>

fun varint :: "nat \<Rightarrow> string" where
  "varint n = (if n < 128 then [char_of n] else char_of (128 + n mod 128) # varint (n div 128))"

declare varint.simps [simp del]

text \<open>At most ten bytes are read, and the tenth may only be 0 or 1: the value has 64 bits.\<close>

fun parse_varint :: "nat \<Rightarrow> string \<Rightarrow> (nat \<times> string) option" where
  "parse_varint k [] = None"
| "parse_varint 0 (c # cs) = (if of_char c < (2 :: nat) then Some (of_char c, cs) else None)"
| "parse_varint (Suc k) (c # cs) =
     (if of_char c < (128 :: nat) then Some (of_char c, cs)
      else case parse_varint k cs of
             None \<Rightarrow> None
           | Some (n, rest) \<Rightarrow> Some (of_char c - 128 + 128 * n, rest))"

lemma of_char_of_less: "n < 256 \<Longrightarrow> (of_char (char_of n) :: nat) = n"
  by simp

lemma parse_varint_varint:
  "n < 2 * 128 ^ k \<Longrightarrow> parse_varint k (varint n @ rest) = Some (n, rest)"
proof (induction k arbitrary: n)
  case 0
  then show ?case by (subst varint.simps) (simp add: of_char_of_less)
next
  case (Suc k)
  show ?case
  proof (cases "n < 128")
    case True
    then show ?thesis by (subst varint.simps) (simp add: of_char_of_less)
  next
    case False
    have "n div 128 < 2 * 128 ^ k" using Suc.prems by (simp add: less_mult_imp_div_less)
    then have "parse_varint k (varint (n div 128) @ rest) = Some (n div 128, rest)" by (rule Suc.IH)
    moreover have "(of_char (char_of (128 + n mod 128)) :: nat) = 128 + n mod 128"
      by (rule of_char_of_less) simp
    ultimately show ?thesis using False by (subst varint.simps) (simp del: of_char_of)
  qed
qed

lemma length_varint: "n < 2 * 128 ^ k \<Longrightarrow> length (varint n) \<le> Suc k"
proof (induction k arbitrary: n)
  case (Suc k)
  then have "n div 128 < 2 * 128 ^ k" by (simp add: less_mult_imp_div_less)
  then show ?case using Suc.IH by (subst varint.simps) simp
qed (simp add: varint.simps)

lemma parse_varint_shorter: "parse_varint k s = Some (n, rest) \<Longrightarrow> length rest < length s"
  by (induction k s arbitrary: n rest rule: parse_varint.induct)
    (auto split: if_splits option.splits intro: less_SucI)

lemma parse_varint_bound: "parse_varint k s = Some (n, rest) \<Longrightarrow> n < 2 * 128 ^ k"
proof (induction k s arbitrary: n rest rule: parse_varint.induct)
  case (3 k c cs)
  show ?case
  proof (cases "of_char c < (128 :: nat)")
    case True
    with "3.prems" have "n < 128" by simp
    also have "(128 :: nat) * 1 \<le> 128 * 128 ^ k" by (intro mult_le_mono2) simp
    finally show ?thesis by simp
  next
    case False
    with "3.prems" obtain m where m: "parse_varint k cs = Some (m, rest)" and n: "n = of_char c - 128 + 128 * m"
      by (auto split: option.splits)
    have "Suc m \<le> 2 * 128 ^ k" using "3.IH" [OF False m] by simp
    then have "128 * Suc m \<le> 128 * (2 * 128 ^ k)" by (rule mult_le_mono2)
    moreover have "of_char c - 128 < (128 :: nat)" using of_char_less [of c] by linarith
    ultimately show ?thesis using n by simp
  qed
qed (auto split: if_splits)

section \<open>Values and fields\<close>

datatype wire_value = Varint uint64 | Fixed64 uint64 | Fixed32 uint32 | Bytes string

type_synonym field = "nat \<times> wire_value"

fun wire_type :: "wire_value \<Rightarrow> nat" where
  "wire_type (Varint _) = 0"
| "wire_type (Fixed64 _) = 1"
| "wire_type (Bytes _) = 2"
| "wire_type (Fixed32 _) = 5"

fun payload :: "wire_value \<Rightarrow> string" where
  "payload (Varint v) = varint (unat v)"
| "payload (Fixed64 v) = le_encode 8 (unat v)"
| "payload (Bytes s) = varint (length s) @ s"
| "payload (Fixed32 v) = le_encode 4 (unat v)"

definition encode_field :: "field \<Rightarrow> string" where
  "encode_field f = varint (fst f * 8 + wire_type (snd f)) @ payload (snd f)"

definition encode_fields :: "field list \<Rightarrow> string" where
  "encode_fields fs = concat (map encode_field fs)"

text \<open>The deprecated groups are not read; field numbers run from 1 to \<open>2 ^ 29 - 1\<close>.\<close>

definition field_number_ok :: "nat \<Rightarrow> bool" where
  "field_number_ok n \<longleftrightarrow> 0 < n \<and> n < 2 ^ 29"

definition split_at :: "nat \<Rightarrow> string \<Rightarrow> (string \<times> string) option" where
  "split_at n s = (if n \<le> length s then Some (take n s, drop n s) else None)"

definition parse_payload :: "nat \<Rightarrow> string \<Rightarrow> (wire_value \<times> string) option" where
  "parse_payload t s =
     (if t = 0 then map_option (\<lambda>(n, r). (Varint (word_of_nat n), r)) (parse_varint 9 s)
      else if t = 1 then map_option (\<lambda>(b, r). (Fixed64 (word_of_nat (le_decode b)), r)) (split_at 8 s)
      else if t = 2 then
        (case parse_varint 9 s of
           None \<Rightarrow> None
         | Some (n, r) \<Rightarrow> map_option (\<lambda>(b, r). (Bytes b, r)) (split_at n r))
      else if t = 5 then map_option (\<lambda>(b, r). (Fixed32 (word_of_nat (le_decode b)), r)) (split_at 4 s)
      else None)"

definition parse_field :: "string \<Rightarrow> (field \<times> string) option" where
  "parse_field s =
     (case parse_varint 9 s of
        None \<Rightarrow> None
      | Some (key, r) \<Rightarrow>
          if field_number_ok (key div 8)
          then map_option (\<lambda>(v, r). ((key div 8, v), r)) (parse_payload (key mod 8) r)
          else None)"

lemma split_at_shorter: "split_at n s = Some (b, r) \<Longrightarrow> length r \<le> length s"
  by (auto simp: split_at_def split: if_splits)

lemma split_at_append [simp]: "split_at (length b) (b @ r) = Some (b, r)"
  by (simp add: split_at_def)

lemma parse_payload_shorter: "parse_payload t s = Some (v, r) \<Longrightarrow> length r \<le> length s"
  by (auto simp: parse_payload_def dest!: parse_varint_shorter split_at_shorter split: if_splits option.splits)

lemma parse_field_shorter: "parse_field s = Some (f, r) \<Longrightarrow> length r < length s"
  by (auto simp: parse_field_def dest!: parse_varint_shorter parse_payload_shorter split: if_splits option.splits)

function parse_fields :: "string \<Rightarrow> field list option" where
  "parse_fields s =
     (if s = [] then Some []
      else case parse_field s of
             None \<Rightarrow> None
           | Some (f, r) \<Rightarrow> map_option (\<lambda>fs. f # fs) (parse_fields r))"
  by pat_completeness auto
termination
  by (relation "measure length") (auto dest: parse_field_shorter)

declare parse_fields.simps [simp del]

section \<open>The round trip\<close>

definition field_ok :: "field \<Rightarrow> bool" where
  "field_ok f \<longleftrightarrow> field_number_ok (fst f) \<and> (case snd f of Bytes s \<Rightarrow> length s < 2 ^ 64 | _ \<Rightarrow> True)"

lemma parse_payload_payload:
  assumes "case v of Bytes s \<Rightarrow> length s < 2 ^ 64 | _ \<Rightarrow> True"
  shows "parse_payload (wire_type v) (payload v @ r) = Some (v, r)"
proof (cases v)
  case (Varint w)
  have "parse_varint 9 (varint (unat w) @ r) = Some (unat w, r)"
    by (rule parse_varint_varint) (use unsigned_less [of w] in simp)
  with Varint show ?thesis by (simp add: parse_payload_def)
next
  case (Fixed64 w)
  have "split_at 8 (le_encode 8 (unat w) @ r) = Some (le_encode 8 (unat w), r)"
    using split_at_append [of "le_encode 8 (unat w)" r] by simp
  with Fixed64 show ?thesis using unat_less_2_64 [of w] by (simp add: parse_payload_def le_decode_encode)
next
  case (Fixed32 w)
  have "split_at 4 (le_encode 4 (unat w) @ r) = Some (le_encode 4 (unat w), r)"
    using split_at_append [of "le_encode 4 (unat w)" r] by simp
  moreover have "unat w < 256 ^ 4" using unsigned_less [of w] by simp
  ultimately show ?thesis using Fixed32 by (simp add: parse_payload_def le_decode_encode)
next
  case (Bytes s)
  then have "parse_varint 9 (varint (length s) @ s @ r) = Some (length s, s @ r)"
    by (intro parse_varint_varint) (use assms in simp)
  with Bytes show ?thesis by (simp add: parse_payload_def)
qed

lemma wire_type_less: "wire_type v < 8"
  by (cases v) auto

lemma parse_field_encode:
  assumes "field_ok f"
  shows "parse_field (encode_field f @ r) = Some (f, r)"
proof -
  obtain n v where f: "f = (n, v)" by fastforce
  have n: "field_number_ok n" and "n < 2 ^ 29" using assms f by (auto simp: field_ok_def field_number_ok_def)
  then have "n * 8 + wire_type v < 2 * 128 ^ 9" using wire_type_less [of v] by simp
  then have "parse_varint 9 (varint (n * 8 + wire_type v) @ payload v @ r) = Some (n * 8 + wire_type v, payload v @ r)"
    by (rule parse_varint_varint)
  then show ?thesis
    using n assms parse_payload_payload [of v r] wire_type_less [of v]
    by (simp add: parse_field_def encode_field_def f field_ok_def)
qed

lemma encode_fields_simps [simp]:
  "encode_fields [] = []"
  "encode_fields (f # fs) = encode_field f @ encode_fields fs"
  "encode_fields (fs @ gs) = encode_fields fs @ encode_fields gs"
  by (simp_all add: encode_fields_def)

lemma varint_nonempty [simp]: "varint n \<noteq> []"
  by (subst varint.simps) simp

lemma parse_fields_encode: "list_all field_ok fs \<Longrightarrow> parse_fields (encode_fields fs) = Some fs"
proof (induction fs)
  case (Cons f fs)
  have "encode_field f \<noteq> []" by (simp add: encode_field_def)
  with Cons show ?case
    by (subst parse_fields.simps) (simp add: parse_field_encode)
qed (simp add: parse_fields.simps)

lemma length_encode_field_Bytes: "length s \<le> length (encode_field (n, Bytes s))"
  by (simp add: encode_field_def)

definition numbers_ok :: "field list \<Rightarrow> bool" where
  "numbers_ok fs \<longleftrightarrow> list_all (\<lambda>f. field_number_ok (fst f)) fs"

lemma numbers_ok_simps [simp]:
  "numbers_ok []" "numbers_ok (f # fs) \<longleftrightarrow> field_number_ok (fst f) \<and> numbers_ok fs"
  "numbers_ok (fs @ gs) \<longleftrightarrow> numbers_ok fs \<and> numbers_ok gs"
  by (simp_all add: numbers_ok_def)

lemma field_number_ok_small [simp]:
  "field_number_ok 1" "field_number_ok 2" "field_number_ok 3" "field_number_ok 4" "field_number_ok 5" "field_number_ok 6"
  "field_number_ok (Suc 0)"
  by (simp_all add: field_number_ok_def)

lemma nested_length: "(n, Bytes s) \<in> set fs \<Longrightarrow> length s \<le> length (encode_fields fs)"
proof (induction fs)
  case (Cons f fs)
  then show ?case using length_encode_field_Bytes [of s n] by auto
qed simp

lemma fields_ok:
  assumes "numbers_ok fs" and "length (encode_fields fs) < 2 ^ 64"
  shows "list_all field_ok fs"
  unfolding list_all_iff
proof
  fix f assume f: "f \<in> set fs"
  obtain n v where nv: "f = (n, v)" by fastforce
  have "field_number_ok n" using assms(1) f nv by (auto simp: numbers_ok_def list_all_iff)
  moreover have "length s < 2 ^ 64" if "v = Bytes s" for s
    using nested_length [of n s fs] f nv that assms(2) by simp
  ultimately show "field_ok f" by (simp add: field_ok_def nv split: wire_value.split)
qed

lemma parse_small:
  "numbers_ok fs \<Longrightarrow> length (encode_fields fs) < 2 ^ 64 \<Longrightarrow> parse_fields (encode_fields fs) = Some fs"
  by (simp add: parse_fields_encode fields_ok)

end
