(* ===== verification/Order_Wire.thy ===== *)
theory Order_Wire
  imports Order_Types Proto_Wire
begin

text \<open>
  The messages of \<open>Order_Types\<close> as bytes. What a message looks like on the wire is fixed by the struct
  tags of \<^verbatim>\<open>dev/grpc/basic/order/order.pb.go\<close>: each gives the encoding, the number and the label of its
  field. The protobuf runtime that reads the tags is not part of the repository, so its codec is a
  parameter with the contract \<open>protobuf\<close>, and every property of the service is about any codec that
  fulfils it. The codec built here, with the numbers of the tags in protobuf's published wire format, is
  one instance of the contract, so that it can be met and the examples can be run; it is not a
  translation of the runtime.
\<close>

section \<open>Struct tags\<close>

definition Order_tags :: "(string \<times> string) list" where
  "Order_tags =
     [(''Id'', ''bytes,1,opt,name=id,proto3''),
      (''Items'', ''bytes,2,rep,name=items,proto3''),
      (''Description'', ''bytes,3,opt,name=description,proto3''),
      (''Price'', ''fixed32,4,opt,name=price,proto3''),
      (''Addresses'', ''bytes,5,rep,name=addresses,proto3''),
      (''LastUpdated'', ''bytes,6,opt,name=last_updated,json=lastUpdated,proto3'')]"

definition CombinedShipment_tags :: "(string \<times> string) list" where
  "CombinedShipment_tags =
     [(''Id'', ''bytes,1,opt,name=id,proto3''),
      (''Status'', ''bytes,2,opt,name=status,proto3''),
      (''OrderList'', ''bytes,3,rep,name=orderList,proto3'')]"

definition Order_Address_tags :: "(string \<times> string) list" where
  "Order_Address_tags =
     [(''Address'', ''bytes,1,opt,name=address,proto3''),
      (''Type'', ''varint,2,opt,name=type,proto3,enum=order.Order_AddressType'')]"

text \<open>How the runtime reads a tag: the parts between the commas.\<close>

fun split_at_char :: "char \<Rightarrow> string \<Rightarrow> string list" where
  "split_at_char d [] = [[]]"
| "split_at_char d (c # cs) =
     (if c = d then [] # split_at_char d cs
      else case split_at_char d cs of [] \<Rightarrow> [[c]] | w # ws \<Rightarrow> (c # w) # ws)"

definition dec_value :: "string \<Rightarrow> nat" where
  "dec_value s = foldl (\<lambda>n c. 10 * n + (of_char c - 48)) 0 s"

record field_tag =
  tag_encoding :: string
  tag_number :: nat
  tag_repeated :: bool
  tag_name :: string

definition read_tag :: "string \<Rightarrow> field_tag option" where
  "read_tag s =
     (case split_at_char (CHR '','') s of
        enc # num # lab # opts \<Rightarrow>
          Some \<lparr>tag_encoding = enc, tag_number = dec_value num, tag_repeated = (lab = ''rep''),
            tag_name = (case find (prefix ''name='') opts of Some w \<Rightarrow> drop 5 w | None \<Rightarrow> '''')\<rparr>
      | _ \<Rightarrow> None)"

definition number_of :: "(string \<times> string) list \<Rightarrow> string \<Rightarrow> nat" where
  "number_of tags fname =
     (case Option.bind (map_of tags fname) read_tag of Some t \<Rightarrow> tag_number t | None \<Rightarrow> 0)"

lemma field_numbers [simp]:
  "number_of Order_tags ''Id'' = 1" "number_of Order_tags ''Items'' = 2"
  "number_of Order_tags ''Description'' = 3" "number_of Order_tags ''Price'' = 4"
  "number_of Order_tags ''Addresses'' = 5" "number_of Order_tags ''LastUpdated'' = 6"
  "number_of CombinedShipment_tags ''Id'' = 1" "number_of CombinedShipment_tags ''Status'' = 2"
  "number_of CombinedShipment_tags ''OrderList'' = 3"
  "number_of Order_Address_tags ''Address'' = 1" "number_of Order_Address_tags ''Type'' = 2"
  by (simp_all add: number_of_def Order_tags_def CombinedShipment_tags_def Order_Address_tags_def read_tag_def dec_value_def)

section \<open>Messages as fields\<close>

text \<open>
  proto3 leaves out a singular field with the zero value; a nil pointer in a repeated field is
  written as the empty message. The two fields of a timestamp and the field of a string wrapper
  have the numbers of protobuf's own files.
\<close>

definition string_field :: "nat \<Rightarrow> string \<Rightarrow> field list" where
  "string_field n s = (if s = '''' then [] else [(n, Bytes s)])"

definition varint_field :: "nat \<Rightarrow> uint64 \<Rightarrow> field list" where
  "varint_field n v = (if v = 0 then [] else [(n, Varint v)])"

definition Address_fields :: "Order_Address option \<Rightarrow> field list" where
  "Address_fields a =
     string_field (number_of Order_Address_tags ''Address'') (Order_Address_GetAddress a)
     @ varint_field (number_of Order_Address_tags ''Type'') (scast (Order_Address_GetType a))"

definition Timestamp_fields :: "Timestamp \<Rightarrow> field list" where
  "Timestamp_fields t = varint_field 1 (fst t) @ varint_field 2 (scast (snd t))"

definition Order_fields :: "Order \<Rightarrow> field list" where
  "Order_fields m =
     string_field (number_of Order_tags ''Id'') (Order_Id m)
     @ map (\<lambda>i. (number_of Order_tags ''Items'', Bytes i)) (Order_Items m)
     @ string_field (number_of Order_tags ''Description'') (Order_Description m)
     @ (if Order_Price m = 0 then [] else [(number_of Order_tags ''Price'', Fixed32 (Order_Price m))])
     @ map (\<lambda>a. (number_of Order_tags ''Addresses'', Bytes (encode_fields (Address_fields a)))) (Order_Addresses m)
     @ (case Order_LastUpdated m of
          None \<Rightarrow> []
        | Some t \<Rightarrow> [(number_of Order_tags ''LastUpdated'', Bytes (encode_fields (Timestamp_fields t)))])"

definition Shipment_fields :: "CombinedShipment \<Rightarrow> field list" where
  "Shipment_fields c =
     string_field (number_of CombinedShipment_tags ''Id'') (Shipment_Id c)
     @ string_field (number_of CombinedShipment_tags ''Status'') (Shipment_Status c)
     @ map (\<lambda>m. (number_of CombinedShipment_tags ''OrderList'', Bytes (encode_fields (Order_fields m))))
         (Shipment_OrderList c)"

text \<open>The strings of a message must be UTF-8, and its encoding shorter than 2 GiB.\<close>

definition Order_strings :: "Order \<Rightarrow> string list" where
  "Order_strings m =
     Order_Id m # Order_Description m # Order_Items m @ map Order_Address_GetAddress (Order_Addresses m)"

definition proto_marshal :: "string list \<Rightarrow> field list \<Rightarrow> string option" where
  "proto_marshal strings fs =
     (if list_all utf8_ValidString strings \<and> length (encode_fields fs) < 2 ^ 31
      then Some (encode_fields fs) else None)"

definition proto_marshal_Order :: "Order \<Rightarrow> string option" where
  "proto_marshal_Order m = proto_marshal (Order_strings m) (Order_fields m)"

definition proto_marshal_StringValue :: "string \<Rightarrow> string option" where
  "proto_marshal_StringValue s = proto_marshal [s] (string_field 1 s)"

definition proto_marshal_Shipment :: "CombinedShipment \<Rightarrow> string option" where
  "proto_marshal_Shipment c =
     proto_marshal (Shipment_Id c # Shipment_Status c # concat (map Order_strings (Shipment_OrderList c))) (Shipment_fields c)"

section \<open>Fields as messages\<close>

text \<open>
  A message is read field by field into the zero message: the last value of a singular field wins,
  a repeated field grows, a nested singular message is merged, and a field that is unknown or has
  another wire type is passed over.
\<close>

fun absorb_all :: "('m \<Rightarrow> field \<Rightarrow> 'm option) \<Rightarrow> 'm \<Rightarrow> field list \<Rightarrow> 'm option" where
  "absorb_all absorb m [] = Some m"
| "absorb_all absorb m (f # fs) = Option.bind (absorb m f) (\<lambda>m. absorb_all absorb m fs)"

definition proto_merge :: "('m \<Rightarrow> field \<Rightarrow> 'm option) \<Rightarrow> 'm \<Rightarrow> string \<Rightarrow> 'm option" where
  "proto_merge absorb m s = Option.bind (parse_fields s) (absorb_all absorb m)"

definition checked :: "string \<Rightarrow> 'm \<Rightarrow> 'm option" where
  "checked s m = (if utf8_ValidString s then Some m else None)"

definition absorb_Address :: "Order_Address \<Rightarrow> field \<Rightarrow> Order_Address option" where
  "absorb_Address m f =
     (case f of
        (n, Bytes s) \<Rightarrow>
          if n = number_of Order_Address_tags ''Address'' then checked s (m\<lparr>Address_Address := s\<rparr>) else Some m
      | (n, Varint v) \<Rightarrow>
          Some (if n = number_of Order_Address_tags ''Type'' then m\<lparr>Address_Type := ucast v\<rparr> else m)
      | _ \<Rightarrow> Some m)"

definition absorb_Timestamp :: "Timestamp \<Rightarrow> field \<Rightarrow> Timestamp option" where
  "absorb_Timestamp t f =
     (case f of
        (n, Varint v) \<Rightarrow> Some (if n = 1 then (v, snd t) else if n = 2 then (fst t, ucast v) else t)
      | _ \<Rightarrow> Some t)"

definition absorb_Order :: "Order \<Rightarrow> field \<Rightarrow> Order option" where
  "absorb_Order m f =
     (case f of
        (n, Bytes s) \<Rightarrow>
          if n = number_of Order_tags ''Id'' then checked s (m\<lparr>Order_Id := s\<rparr>)
          else if n = number_of Order_tags ''Items'' then checked s (m\<lparr>Order_Items := Order_Items m @ [s]\<rparr>)
          else if n = number_of Order_tags ''Description'' then checked s (m\<lparr>Order_Description := s\<rparr>)
          else if n = number_of Order_tags ''Addresses'' then
            map_option (\<lambda>a. m\<lparr>Order_Addresses := Order_Addresses m @ [Some a]\<rparr>) (proto_merge absorb_Address Order_Address_Reset s)
          else if n = number_of Order_tags ''LastUpdated'' then
            map_option (\<lambda>t. m\<lparr>Order_LastUpdated := Some t\<rparr>)
              (proto_merge absorb_Timestamp (case Order_LastUpdated m of Some t \<Rightarrow> t | None \<Rightarrow> (0, 0)) s)
          else Some m
      | (n, Fixed32 v) \<Rightarrow> Some (if n = number_of Order_tags ''Price'' then m\<lparr>Order_Price := v\<rparr> else m)
      | _ \<Rightarrow> Some m)"

definition absorb_Shipment :: "CombinedShipment \<Rightarrow> field \<Rightarrow> CombinedShipment option" where
  "absorb_Shipment c f =
     (case f of
        (n, Bytes s) \<Rightarrow>
          if n = number_of CombinedShipment_tags ''Id'' then checked s (c\<lparr>Shipment_Id := s\<rparr>)
          else if n = number_of CombinedShipment_tags ''Status'' then checked s (c\<lparr>Shipment_Status := s\<rparr>)
          else if n = number_of CombinedShipment_tags ''OrderList'' then
            map_option (\<lambda>m. c\<lparr>Shipment_OrderList := Shipment_OrderList c @ [m]\<rparr>) (proto_merge absorb_Order Order_Reset s)
          else Some c
      | _ \<Rightarrow> Some c)"

definition absorb_String :: "string \<Rightarrow> field \<Rightarrow> string option" where
  "absorb_String v f = (case f of (n, Bytes s) \<Rightarrow> if n = 1 then checked s s else Some v | _ \<Rightarrow> Some v)"

definition proto_unmarshal_Order :: "string \<Rightarrow> Order option" where
  "proto_unmarshal_Order = proto_merge absorb_Order Order_Reset"

definition proto_unmarshal_StringValue :: "string \<Rightarrow> string option" where
  "proto_unmarshal_StringValue = proto_merge absorb_String ''''"

definition proto_unmarshal_Shipment :: "string \<Rightarrow> CombinedShipment option" where
  "proto_unmarshal_Shipment = proto_merge absorb_Shipment CombinedShipment_Reset"

section \<open>The round trip\<close>

lemma absorb_all_append [simp]:
  "absorb_all absorb m (fs @ gs) = Option.bind (absorb_all absorb m fs) (\<lambda>m. absorb_all absorb m gs)"
  by (induction fs arbitrary: m) (auto split: bind_splits)

lemma absorb_map:
  "(\<And>x m. x \<in> set xs \<Longrightarrow> absorb m (f x) = Some (add x m)) \<Longrightarrow> absorb_all absorb m (map f xs) = Some (fold add xs m)"
  by (induction xs arbitrary: m) auto

lemma absorb_string_field:
  "(s \<noteq> '''' \<Longrightarrow> absorb m (n, Bytes s) = Some m') \<Longrightarrow> (s = '''' \<Longrightarrow> m' = m) \<Longrightarrow>
     absorb_all absorb m (string_field n s) = Some m'"
  by (simp add: string_field_def)

lemma absorb_varint_field:
  "(v \<noteq> 0 \<Longrightarrow> absorb m (n, Varint v) = Some m') \<Longrightarrow> (v = 0 \<Longrightarrow> m' = m) \<Longrightarrow>
     absorb_all absorb m (varint_field n v) = Some m'"
  by (simp add: varint_field_def)

lemma numbers_ok_fields [simp]:
  "field_number_ok n \<Longrightarrow> numbers_ok (string_field n s)" "field_number_ok n \<Longrightarrow> numbers_ok (varint_field n v)"
  "field_number_ok n \<Longrightarrow> numbers_ok (map (\<lambda>x. (n, g x)) xs)"
  by (simp_all add: string_field_def varint_field_def numbers_ok_def list_all_iff)

lemma proto_merge_encode:
  "numbers_ok fs \<Longrightarrow> length (encode_fields fs) < 2 ^ 64 \<Longrightarrow> proto_merge absorb m (encode_fields fs) = absorb_all absorb m fs"
  by (simp add: proto_merge_def parse_fields_encode fields_ok)

text \<open>An \<open>int32\<close> is sign-extended to a varint and cut back.\<close>

lemma ucast_scast_id: "(ucast (scast (w :: int32) :: uint64) :: int32) = w"
proof (rule bit_word_eqI)
  fix n assume "n < LENGTH(32)"
  then show "bit (ucast (scast w :: uint64) :: int32) n = bit w n"
    by (cases "n = 31") (auto simp: bit_ucast_iff bit_signed_iff min_def)
qed

lemma scast_0: "(scast (w :: int32) :: uint64) = 0 \<longleftrightarrow> w = 0"
  by (metis ucast_scast_id ucast_0 signed_0)

text \<open>A nil address comes back as the empty one.\<close>

definition filled :: "Order_Address option \<Rightarrow> Order_Address" where
  "filled a = (case a of Some a \<Rightarrow> a | None \<Rightarrow> Order_Address_Reset)"

lemma Address_getters_filled:
  "Order_Address_GetAddress a = Address_Address (filled a)" "Order_Address_GetType a = Address_Type (filled a)"
  by (simp_all add: Order_Address_getters filled_def Order_Address_Reset_def split: option.split)

lemma Address_roundtrip:
  assumes "utf8_ValidString (Order_Address_GetAddress a)" and "length (encode_fields (Address_fields a)) < 2 ^ 64"
  shows "proto_merge absorb_Address Order_Address_Reset (encode_fields (Address_fields a)) = Some (filled a)"
proof -
  have "absorb_all absorb_Address Order_Address_Reset (Address_fields a) = Some (filled a)"
    using assms(1)
    by (cases "filled a")
      (auto simp: Address_fields_def Address_getters_filled string_field_def varint_field_def absorb_Address_def
        checked_def Order_Address_Reset_def Order_HOME_def scast_0 ucast_scast_id)
  moreover have "numbers_ok (Address_fields a)" by (simp add: Address_fields_def)
  ultimately show ?thesis using assms(2) by (simp add: proto_merge_encode)
qed

lemma Timestamp_roundtrip: "proto_merge absorb_Timestamp (0, 0) (encode_fields (Timestamp_fields t)) = Some t"
proof -
  have small: "length (encode_fields (varint_field n v)) \<le> length (varint (n * 8)) + length (varint (unat v))" for n v
    by (simp add: varint_field_def encode_field_def)
  have ten: "length (varint n) \<le> 10" if "n < 2 ^ 64" for n
    using length_varint [of n 9] that by simp
  have "length (encode_fields (Timestamp_fields t)) < 2 ^ 64"
    using small [of 1 "fst t"] small [of 2 "scast (snd t)"] ten [of "unat (fst t)"] ten [of "unat (scast (snd t) :: uint64)"]
      ten [of 8] ten [of 16] unat_less_2_64 [of "fst t"] unat_less_2_64 [of "scast (snd t)"]
    by (simp add: Timestamp_fields_def)
  moreover have "numbers_ok (Timestamp_fields t)" by (simp add: Timestamp_fields_def)
  moreover have "absorb_all absorb_Timestamp (0, 0) (Timestamp_fields t) = Some t"
    by (cases t) (auto simp: Timestamp_fields_def varint_field_def absorb_Timestamp_def scast_0 ucast_scast_id)
  ultimately show ?thesis by (simp add: proto_merge_encode)
qed

lemma fold_append: "fold (\<lambda>x m. f (g m @ [h x]) m) xs m = (if xs = [] then m else f (g m @ map h xs) m)"
  if "\<And>m v. g (f v m) = v" and "\<And>m v v'. f v' (f v m) = f v' m"
  using that by (induction xs arbitrary: m) auto

lemma numbers_Order_fields [simp]: "numbers_ok (Order_fields m)"
  by (simp add: Order_fields_def split: option.split)

text \<open>What the decoder makes of an order's fields: the order, its nil addresses filled.\<close>

lemma absorb_Order_fields:
  assumes "list_all utf8_ValidString (Order_strings m)" and "length (encode_fields (Order_fields m)) < 2 ^ 64"
  shows "absorb_all absorb_Order Order_Reset (Order_fields m)
    = Some (m\<lparr>Order_Addresses := map (Some \<circ> filled) (Order_Addresses m)\<rparr>)"
proof -
  have addr: "proto_merge absorb_Address Order_Address_Reset (encode_fields (Address_fields a)) = Some (filled a)"
    if "a \<in> set (Order_Addresses m)" for a
  proof (rule Address_roundtrip)
    show "utf8_ValidString (Order_Address_GetAddress a)"
      using assms(1) that by (simp add: Order_strings_def list_all_iff)
    have "(5, Bytes (encode_fields (Address_fields a))) \<in> set (Order_fields m)"
      using that by (simp add: Order_fields_def)
    then show "length (encode_fields (Address_fields a)) < 2 ^ 64"
      using nested_length assms(2) by (meson le_less_trans)
  qed
  define m1 where "m1 = Order_Reset\<lparr>Order_Id := Order_Id m\<rparr>"
  define m2 where "m2 = m1\<lparr>Order_Items := Order_Items m\<rparr>"
  define m3 where "m3 = m2\<lparr>Order_Description := Order_Description m\<rparr>"
  define m4 where "m4 = m3\<lparr>Order_Price := Order_Price m\<rparr>"
  define m5 where "m5 = m4\<lparr>Order_Addresses := map (Some \<circ> filled) (Order_Addresses m)\<rparr>"
  note ms = m1_def m2_def m3_def m4_def m5_def Order_Reset_def
  have valid: "utf8_ValidString (Order_Id m)" "utf8_ValidString (Order_Description m)" "list_all utf8_ValidString (Order_Items m)"
    using assms(1) by (simp_all add: Order_strings_def)
  have "absorb_all absorb_Order Order_Reset (string_field 1 (Order_Id m)) = Some m1"
    by (rule absorb_string_field) (simp_all add: absorb_Order_def checked_def valid ms)
  moreover have "absorb_all absorb_Order m1 (map (\<lambda>i. (2, Bytes i)) (Order_Items m)) = Some m2"
  proof -
    have "absorb_all absorb_Order m1 (map (\<lambda>i. (2, Bytes i)) (Order_Items m))
        = Some (fold (\<lambda>i m. m\<lparr>Order_Items := Order_Items m @ [i]\<rparr>) (Order_Items m) m1)"
      using valid(3) by (intro absorb_map) (simp add: absorb_Order_def checked_def list_all_iff)
    moreover have "fold (\<lambda>i m. m\<lparr>Order_Items := Order_Items m @ [i]\<rparr>) (Order_Items m) m1 = m2"
      using fold_append [of Order_Items "\<lambda>v m. m\<lparr>Order_Items := v\<rparr>" id "Order_Items m" m1] by (simp add: ms)
    ultimately show ?thesis by simp
  qed
  moreover have "absorb_all absorb_Order m2 (string_field 3 (Order_Description m)) = Some m3"
    by (rule absorb_string_field) (simp_all add: absorb_Order_def checked_def valid ms)
  moreover have "absorb_all absorb_Order m3 (if Order_Price m = 0 then [] else [(4, Fixed32 (Order_Price m))]) = Some m4"
    by (simp add: absorb_Order_def ms)
  moreover have "absorb_all absorb_Order m4 (map (\<lambda>a. (5, Bytes (encode_fields (Address_fields a)))) (Order_Addresses m)) = Some m5"
  proof -
    have "absorb_all absorb_Order m4 (map (\<lambda>a. (5, Bytes (encode_fields (Address_fields a)))) (Order_Addresses m))
        = Some (fold (\<lambda>a m. m\<lparr>Order_Addresses := Order_Addresses m @ [Some (filled a)]\<rparr>) (Order_Addresses m) m4)"
      using addr by (intro absorb_map) (simp add: absorb_Order_def)
    moreover have "fold (\<lambda>a m. m\<lparr>Order_Addresses := Order_Addresses m @ [Some (filled a)]\<rparr>) (Order_Addresses m) m4 = m5"
      using fold_append [of Order_Addresses "\<lambda>v m. m\<lparr>Order_Addresses := v\<rparr>" "Some \<circ> filled" "Order_Addresses m" m4]
      by (simp add: ms comp_def)
    ultimately show ?thesis by simp
  qed
  moreover have "absorb_all absorb_Order m5 (case Order_LastUpdated m of None \<Rightarrow> []
      | Some t \<Rightarrow> [(6, Bytes (encode_fields (Timestamp_fields t)))])
    = Some (m\<lparr>Order_Addresses := map (Some \<circ> filled) (Order_Addresses m)\<rparr>)"
    by (cases m) (auto simp: absorb_Order_def ms Timestamp_roundtrip split: option.split)
  ultimately show ?thesis by (simp only: Order_fields_def field_numbers absorb_all_append Option.bind.simps)
qed

lemma Order_merge:
  assumes "list_all utf8_ValidString (Order_strings m)" and "length (encode_fields (Order_fields m)) < 2 ^ 64"
    and "None \<notin> set (Order_Addresses m)"
  shows "proto_merge absorb_Order Order_Reset (encode_fields (Order_fields m)) = Some m"
proof -
  have "map (Some \<circ> filled) (Order_Addresses m) = Order_Addresses m"
    using assms(3) by (intro map_idI) (metis comp_apply filled_def option.case_eq_if option.collapse)
  then show ?thesis using assms absorb_Order_fields [OF assms(1,2)] by (simp add: proto_merge_encode)
qed

lemma proto_marshal_Some:
  "proto_marshal strings fs = Some b \<longleftrightarrow>
     b = encode_fields fs \<and> list_all utf8_ValidString strings \<and> length (encode_fields fs) < 2 ^ 31"
  by (auto simp: proto_marshal_def)

lemma less_2_31: "n < 2 ^ 31 \<Longrightarrow> n < (2 ^ 64 :: nat)"
  by simp

lemma proto_Order_roundtrip:
  "proto_marshal_Order m = Some b \<Longrightarrow> None \<notin> set (Order_Addresses m) \<Longrightarrow> proto_unmarshal_Order b = Some m"
  by (auto simp: proto_marshal_Order_def proto_unmarshal_Order_def proto_marshal_Some intro!: Order_merge less_2_31)

lemma proto_StringValue_roundtrip:
  "proto_marshal_StringValue s = Some b \<Longrightarrow> proto_unmarshal_StringValue b = Some s"
  by (auto simp: proto_marshal_StringValue_def proto_unmarshal_StringValue_def proto_marshal_Some
      proto_merge_encode less_2_31 absorb_String_def checked_def intro!: absorb_string_field)

lemma proto_Shipment_roundtrip:
  assumes "proto_marshal_Shipment c = Some b" and "list_all (\<lambda>m. None \<notin> set (Order_Addresses m)) (Shipment_OrderList c)"
  shows "proto_unmarshal_Shipment b = Some c"
proof -
  have b: "b = encode_fields (Shipment_fields c)" and size: "length b < 2 ^ 64"
    and valid: "utf8_ValidString (Shipment_Id c)" "utf8_ValidString (Shipment_Status c)"
      "m \<in> set (Shipment_OrderList c) \<Longrightarrow> list_all utf8_ValidString (Order_strings m)" for m
    using assms(1) by (auto simp: proto_marshal_Shipment_def proto_marshal_Some list_all_iff)
  have orders: "proto_merge absorb_Order Order_Reset (encode_fields (Order_fields m)) = Some m"
    if "m \<in> set (Shipment_OrderList c)" for m
  proof (rule Order_merge [OF valid(3) [OF that]])
    have "(3, Bytes (encode_fields (Order_fields m))) \<in> set (Shipment_fields c)"
      using that by (simp add: Shipment_fields_def)
    then show "length (encode_fields (Order_fields m)) < 2 ^ 64"
      using nested_length size b by (meson le_less_trans)
    show "None \<notin> set (Order_Addresses m)" using assms(2) that by (simp add: list_all_iff)
  qed
  define c1 where "c1 = CombinedShipment_Reset\<lparr>Shipment_Id := Shipment_Id c\<rparr>"
  define c2 where "c2 = c1\<lparr>Shipment_Status := Shipment_Status c\<rparr>"
  note cs = c1_def c2_def CombinedShipment_Reset_def
  have "absorb_all absorb_Shipment CombinedShipment_Reset (string_field 1 (Shipment_Id c)) = Some c1"
    by (rule absorb_string_field) (simp_all add: absorb_Shipment_def checked_def valid cs)
  moreover have "absorb_all absorb_Shipment c1 (string_field 2 (Shipment_Status c)) = Some c2"
    by (rule absorb_string_field) (simp_all add: absorb_Shipment_def checked_def valid cs)
  moreover have "absorb_all absorb_Shipment c2 (map (\<lambda>m. (3, Bytes (encode_fields (Order_fields m)))) (Shipment_OrderList c)) = Some c"
  proof -
    have "absorb_all absorb_Shipment c2 (map (\<lambda>m. (3, Bytes (encode_fields (Order_fields m)))) (Shipment_OrderList c))
        = Some (fold (\<lambda>m c. c\<lparr>Shipment_OrderList := Shipment_OrderList c @ [m]\<rparr>) (Shipment_OrderList c) c2)"
      using orders by (intro absorb_map) (simp add: absorb_Shipment_def)
    moreover have "fold (\<lambda>m c. c\<lparr>Shipment_OrderList := Shipment_OrderList c @ [m]\<rparr>) (Shipment_OrderList c) c2 = c"
      using fold_append [of Shipment_OrderList "\<lambda>v c. c\<lparr>Shipment_OrderList := v\<rparr>" id "Shipment_OrderList c" c2]
      by (simp add: cs)
    ultimately show ?thesis by simp
  qed
  ultimately have "absorb_all absorb_Shipment CombinedShipment_Reset (Shipment_fields c) = Some c"
    by (simp only: Shipment_fields_def field_numbers absorb_all_append Option.bind.simps)
  moreover have "numbers_ok (Shipment_fields c)" by (simp add: Shipment_fields_def)
  ultimately show ?thesis using size by (simp add: proto_unmarshal_Shipment_def b proto_merge_encode)
qed

text \<open>A message that was read has no nil address.\<close>

lemma absorb_all_invariant:
  assumes "absorb_all absorb m fs = Some m'" and "P m"
    and "\<And>m f m'. P m \<Longrightarrow> absorb m f = Some m' \<Longrightarrow> P m'"
  shows "P m'"
  using assms(1,2) by (induction fs arbitrary: m) (auto simp: bind_eq_Some_conv intro: assms(3))

lemma absorb_Order_no_nil:
  "None \<notin> set (Order_Addresses m) \<Longrightarrow> absorb_Order m f = Some m' \<Longrightarrow> None \<notin> set (Order_Addresses m')"
  by (auto simp: absorb_Order_def checked_def split: prod.splits wire_value.splits if_splits)

lemma proto_unmarshal_Order_no_nil: "proto_unmarshal_Order b = Some m \<Longrightarrow> None \<notin> set (Order_Addresses m)"
proof -
  assume "proto_unmarshal_Order b = Some m"
  then obtain fs where run: "absorb_all absorb_Order Order_Reset fs = Some m"
    by (auto simp: proto_unmarshal_Order_def proto_merge_def bind_eq_Some_conv)
  show ?thesis
    by (rule absorb_all_invariant [OF run, where P = "\<lambda>m. None \<notin> set (Order_Addresses m)"])
      (simp add: Order_Reset_def, erule (1) absorb_Order_no_nil)
qed

section \<open>The contract of a codec\<close>

text \<open>
  Marshalling may fail. A pointer of a repeated field is nil on neither side of a wire, so only
  messages without nil addresses come back as they were.
\<close>

record 'b codec =
  marshal_Order :: "Order \<Rightarrow> 'b option"
  unmarshal_Order :: "'b \<Rightarrow> Order option"
  marshal_StringValue :: "string \<Rightarrow> 'b option"
  unmarshal_StringValue :: "'b \<Rightarrow> string option"
  marshal_CombinedShipment :: "CombinedShipment \<Rightarrow> 'b option"
  unmarshal_CombinedShipment :: "'b \<Rightarrow> CombinedShipment option"

definition plain_Order :: "Order \<Rightarrow> bool" where
  "plain_Order m \<longleftrightarrow> None \<notin> set (Order_Addresses m)"

definition plain_Shipment :: "CombinedShipment \<Rightarrow> bool" where
  "plain_Shipment c \<longleftrightarrow> list_all plain_Order (Shipment_OrderList c)"

locale protobuf =
  fixes K :: "'b codec"
  assumes order_roundtrip: "marshal_Order K m = Some b \<Longrightarrow> plain_Order m \<Longrightarrow> unmarshal_Order K b = Some m"
    and string_roundtrip: "marshal_StringValue K s = Some b \<Longrightarrow> unmarshal_StringValue K b = Some s"
    and shipment_roundtrip: "marshal_CombinedShipment K c = Some b \<Longrightarrow> plain_Shipment c \<Longrightarrow> unmarshal_CombinedShipment K b = Some c"
    and order_plain: "unmarshal_Order K b = Some m \<Longrightarrow> plain_Order m"

definition proto_codec :: "string codec" where
  "proto_codec = \<lparr>
     marshal_Order = proto_marshal_Order, unmarshal_Order = proto_unmarshal_Order,
     marshal_StringValue = proto_marshal_StringValue, unmarshal_StringValue = proto_unmarshal_StringValue,
     marshal_CombinedShipment = proto_marshal_Shipment, unmarshal_CombinedShipment = proto_unmarshal_Shipment\<rparr>"

lemma proto_codec_simps [simp]:
  "marshal_Order proto_codec = proto_marshal_Order" "unmarshal_Order proto_codec = proto_unmarshal_Order"
  "marshal_StringValue proto_codec = proto_marshal_StringValue" "unmarshal_StringValue proto_codec = proto_unmarshal_StringValue"
  "marshal_CombinedShipment proto_codec = proto_marshal_Shipment" "unmarshal_CombinedShipment proto_codec = proto_unmarshal_Shipment"
  by (simp_all add: proto_codec_def)

lemma proto_Shipment_plain:
  "proto_marshal_Shipment c = Some b \<Longrightarrow> list_all plain_Order (Shipment_OrderList c) \<Longrightarrow> proto_unmarshal_Shipment b = Some c"
  by (rule proto_Shipment_roundtrip) (simp_all add: plain_Order_def list_all_iff)

interpretation proto: protobuf proto_codec
  by unfold_locales
    (auto simp: plain_Order_def plain_Shipment_def proto_Order_roundtrip proto_StringValue_roundtrip
      proto_Shipment_plain dest: proto_unmarshal_Order_no_nil)

end
