(* ===== verification/Order_Grpc.thy ===== *)
theory Order_Grpc
  imports Order_Server Order_Wire
begin

text \<open>
  The generated stubs of \<^verbatim>\<open>dev/grpc/basic/order/order_grpc.pb.go\<close>: the client's methods, the
  handlers that the runtime calls, and the service descriptor that ties them together by name.
  The gRPC runtime and the protobuf encoding are parameters: a connection over a world \<open>'w\<close> and a
  codec into wire messages \<open>'b\<close>.
\<close>

section \<open>The runtime\<close>

text \<open>A connection: one call with its answer, and streams by number.\<close>

record ('b, 'w) conn =
  RawInvoke :: "string \<Rightarrow> 'b \<Rightarrow> 'w \<Rightarrow> (rpc_error + 'b) \<times> 'w"
  NewStream :: "nat \<Rightarrow> string \<Rightarrow> 'w \<Rightarrow> (rpc_error + nat) \<times> 'w"
  RawSend :: "nat \<Rightarrow> 'b \<Rightarrow> 'w \<Rightarrow> rpc_error option \<times> 'w"
  CloseSend :: "nat \<Rightarrow> 'w \<Rightarrow> rpc_error option \<times> 'w"
  RawRecv :: "nat \<Rightarrow> 'w \<Rightarrow> (stream_end + 'b) \<times> 'w"

text \<open>
  \<open>Invoke\<close> and \<open>SendMsg\<close> encode the message they are given, \<open>Invoke\<close> and \<open>RecvMsg\<close> decode into one; a
  message that cannot be encoded, or does not decode, is an error.
\<close>

definition marshal_error :: rpc_error where
  "marshal_error = Transport ''grpc: error while marshaling''"

definition unmarshal_error :: rpc_error where
  "unmarshal_error = Transport ''grpc: failed to unmarshal the received message''"

definition Invoke :: "('b, 'w) conn \<Rightarrow> ('i \<Rightarrow> 'b option) \<Rightarrow> ('b \<Rightarrow> 'm option) \<Rightarrow> string \<Rightarrow> 'i \<Rightarrow> 'w
    \<Rightarrow> (rpc_error + 'm) \<times> 'w" where
  "Invoke C encode decode method inp w =
     (case encode inp of
        None \<Rightarrow> (Inl marshal_error, w)
      | Some b \<Rightarrow>
          (case RawInvoke C method b w of
             (Inl e, w) \<Rightarrow> (Inl e, w)
           | (Inr b, w) \<Rightarrow> (case decode b of None \<Rightarrow> (Inl unmarshal_error, w) | Some out \<Rightarrow> (Inr out, w))))"

definition SendMsg :: "('b, 'w) conn \<Rightarrow> ('i \<Rightarrow> 'b option) \<Rightarrow> nat \<Rightarrow> 'i \<Rightarrow> 'w \<Rightarrow> rpc_error option \<times> 'w" where
  "SendMsg C encode x m w =
     (case encode m of None \<Rightarrow> (Some marshal_error, w) | Some b \<Rightarrow> RawSend C x b w)"

definition RecvMsg :: "('b, 'w) conn \<Rightarrow> ('b \<Rightarrow> 'm option) \<Rightarrow> nat \<Rightarrow> 'w \<Rightarrow> (stream_end + 'm) \<times> 'w" where
  "RecvMsg C decode s w =
     (case RawRecv C s w of
        (Inl e, w) \<Rightarrow> (Inl e, w)
      | (Inr b, w) \<Rightarrow> (case decode b of None \<Rightarrow> (Inl (Broken unmarshal_error), w) | Some m \<Rightarrow> (Inr m, w)))"

section \<open>The client\<close>

definition client_AddOrder :: "('b, 'w) conn \<Rightarrow> 'b codec \<Rightarrow> Order \<Rightarrow> 'w \<Rightarrow> (string option \<times> rpc_error option) \<times> 'w" where
  "client_AddOrder C K inp w =
     (case Invoke C (marshal_Order K) (unmarshal_StringValue K) ''/order.OrderManagement/addOrder'' inp w of
        (Inl e, w) \<Rightarrow> ((None, Some e), w)
      | (Inr out, w) \<Rightarrow> ((Some out, None), w))"

definition client_GetOrder :: "('b, 'w) conn \<Rightarrow> 'b codec \<Rightarrow> string \<Rightarrow> 'w \<Rightarrow> (Order option \<times> rpc_error option) \<times> 'w" where
  "client_GetOrder C K inp w =
     (case Invoke C (marshal_StringValue K) (unmarshal_Order K) ''/order.OrderManagement/getOrder'' inp w of
        (Inl e, w) \<Rightarrow> ((None, Some e), w)
      | (Inr out, w) \<Rightarrow> ((Some out, None), w))"

definition client_SearchOrders :: "('b, 'w) conn \<Rightarrow> 'b codec \<Rightarrow> string \<Rightarrow> 'w \<Rightarrow> (nat option \<times> rpc_error option) \<times> 'w" where
  "client_SearchOrders C K inp w =
     (case NewStream C 0 ''/order.OrderManagement/searchOrders'' w of
        (Inl e, w) \<Rightarrow> ((None, Some e), w)
      | (Inr x, w) \<Rightarrow>
          (case SendMsg C (marshal_StringValue K) x inp w of
             (Some e, w) \<Rightarrow> ((None, Some e), w)
           | (None, w) \<Rightarrow>
               (case CloseSend C x w of
                  (Some e, w) \<Rightarrow> ((None, Some e), w)
                | (None, w) \<Rightarrow> ((Some x, None), w))))"

definition SearchOrdersClient_Recv :: "('b, 'w) conn \<Rightarrow> 'b codec \<Rightarrow> nat \<Rightarrow> 'w \<Rightarrow> (Order option \<times> stream_end option) \<times> 'w" where
  "SearchOrdersClient_Recv C K x w =
     (case RecvMsg C (unmarshal_Order K) x w of
        (Inl e, w) \<Rightarrow> ((None, Some e), w)
      | (Inr m, w) \<Rightarrow> ((Some m, None), w))"

definition client_UpdateOrders :: "('b, 'w) conn \<Rightarrow> 'w \<Rightarrow> (nat option \<times> rpc_error option) \<times> 'w" where
  "client_UpdateOrders C w =
     (case NewStream C 1 ''/order.OrderManagement/updateOrders'' w of
        (Inl e, w) \<Rightarrow> ((None, Some e), w)
      | (Inr x, w) \<Rightarrow> ((Some x, None), w))"

definition UpdateOrdersClient_Send :: "('b, 'w) conn \<Rightarrow> 'b codec \<Rightarrow> nat \<Rightarrow> Order \<Rightarrow> 'w \<Rightarrow> rpc_error option \<times> 'w" where
  "UpdateOrdersClient_Send C K x m w = SendMsg C (marshal_Order K) x m w"

definition UpdateOrdersClient_CloseAndRecv :: "('b, 'w) conn \<Rightarrow> 'b codec \<Rightarrow> nat \<Rightarrow> 'w
    \<Rightarrow> (string option \<times> stream_end option) \<times> 'w" where
  "UpdateOrdersClient_CloseAndRecv C K x w =
     (case CloseSend C x w of
        (Some e, w) \<Rightarrow> ((None, Some (Broken e)), w)
      | (None, w) \<Rightarrow>
          (case RecvMsg C (unmarshal_StringValue K) x w of
             (Inl e, w) \<Rightarrow> ((None, Some e), w)
           | (Inr m, w) \<Rightarrow> ((Some m, None), w)))"

definition client_ProcessOrders :: "('b, 'w) conn \<Rightarrow> 'w \<Rightarrow> (nat option \<times> rpc_error option) \<times> 'w" where
  "client_ProcessOrders C w =
     (case NewStream C 2 ''/order.OrderManagement/processOrders'' w of
        (Inl e, w) \<Rightarrow> ((None, Some e), w)
      | (Inr x, w) \<Rightarrow> ((Some x, None), w))"

definition ProcessOrdersClient_Send :: "('b, 'w) conn \<Rightarrow> 'b codec \<Rightarrow> nat \<Rightarrow> string \<Rightarrow> 'w \<Rightarrow> rpc_error option \<times> 'w" where
  "ProcessOrdersClient_Send C K x m w = SendMsg C (marshal_StringValue K) x m w"

definition ProcessOrdersClient_Recv :: "('b, 'w) conn \<Rightarrow> 'b codec \<Rightarrow> nat \<Rightarrow> 'w
    \<Rightarrow> (CombinedShipment option \<times> stream_end option) \<times> 'w" where
  "ProcessOrdersClient_Recv C K x w =
     (case RecvMsg C (unmarshal_CombinedShipment K) x w of
        (Inl e, w) \<Rightarrow> ((None, Some e), w)
      | (Inr m, w) \<Rightarrow> ((Some m, None), w))"

section \<open>The server\<close>

text \<open>
  An implementation of \<open>OrderManagementServer\<close> over a state \<open>'s\<close>. A streaming method gets the
  messages it will receive and yields those it has sent. A message that cannot be encoded does not
  reach the wire.
\<close>

record 's server =
  srv_AddOrder :: "Order \<Rightarrow> 's \<Rightarrow> (string option \<times> rpc_error option) \<times> 's"
  srv_GetOrder :: "string \<Rightarrow> 's \<Rightarrow> (Order option \<times> rpc_error option) \<times> 's"
  srv_SearchOrders :: "string \<Rightarrow> 's \<Rightarrow> (rpc_error option outcome \<times> Order list) \<times> 's"
  srv_UpdateOrders :: "Order in_stream \<Rightarrow> 's \<Rightarrow> (rpc_error option outcome \<times> string list) \<times> 's"
  srv_ProcessOrders :: "string in_stream \<Rightarrow> 's \<Rightarrow> (rpc_error option outcome \<times> CombinedShipment list) \<times> 's"

definition unimplemented :: "string \<Rightarrow> rpc_error" where
  "unimplemented name = Status Unimplemented (''method '' @ name @ '' not implemented'')"

definition UnimplementedOrderManagementServer :: "'s server" where
  "UnimplementedOrderManagementServer = \<lparr>
     srv_AddOrder = (\<lambda>_ s. ((None, Some (unimplemented ''AddOrder'')), s)),
     srv_GetOrder = (\<lambda>_ s. ((None, Some (unimplemented ''GetOrder'')), s)),
     srv_SearchOrders = (\<lambda>_ s. ((Return (Some (unimplemented ''SearchOrders'')), []), s)),
     srv_UpdateOrders = (\<lambda>_ s. ((Return (Some (unimplemented ''UpdateOrders'')), []), s)),
     srv_ProcessOrders = (\<lambda>_ s. ((Return (Some (unimplemented ''ProcessOrders'')), []), s))\<rparr>"

text \<open>Values of type \<open>interface{}\<close>: the messages of the two unary methods.\<close>

datatype any_message = Any_Order Order | Any_String string

type_synonym 's unary_result = "(any_message option \<times> rpc_error option) outcome \<times> 's"

type_synonym 's interceptor =
  "any_message \<Rightarrow> string \<Rightarrow> (any_message \<Rightarrow> 's \<Rightarrow> 's unary_result) \<Rightarrow> 's \<Rightarrow> 's unary_result"

definition boxed :: "('m \<Rightarrow> any_message) \<Rightarrow> ('m option \<times> rpc_error option) \<times> 's \<Rightarrow> 's unary_result" where
  "boxed box r = (case r of ((v, e), s) \<Rightarrow> (Return (map_option box v, e), s))"

definition OrderManagement_AddOrder_Handler :: "'b codec \<Rightarrow> 's server \<Rightarrow> 's interceptor option \<Rightarrow> 'b \<Rightarrow> 's
    \<Rightarrow> 's unary_result" where
  "OrderManagement_AddOrder_Handler K srv interceptor raw s =
     (case unmarshal_Order K raw of
        None \<Rightarrow> (Return (None, Some unmarshal_error), s)
      | Some inp \<Rightarrow>
          (case interceptor of
             None \<Rightarrow> boxed Any_String (srv_AddOrder srv inp s)
           | Some intercept \<Rightarrow>
               intercept (Any_Order inp) ''/order.OrderManagement/addOrder''
                 (\<lambda>req s. case req of
                    Any_Order ord \<Rightarrow> boxed Any_String (srv_AddOrder srv ord s)
                  | Any_String _ \<Rightarrow> (Panic ''interface conversion'', s)) s))"

definition OrderManagement_GetOrder_Handler :: "'b codec \<Rightarrow> 's server \<Rightarrow> 's interceptor option \<Rightarrow> 'b \<Rightarrow> 's
    \<Rightarrow> 's unary_result" where
  "OrderManagement_GetOrder_Handler K srv interceptor raw s =
     (case unmarshal_StringValue K raw of
        None \<Rightarrow> (Return (None, Some unmarshal_error), s)
      | Some inp \<Rightarrow>
          (case interceptor of
             None \<Rightarrow> boxed Any_Order (srv_GetOrder srv inp s)
           | Some intercept \<Rightarrow>
               intercept (Any_String inp) ''/order.OrderManagement/getOrder''
                 (\<lambda>req s. case req of
                    Any_String i \<Rightarrow> boxed Any_Order (srv_GetOrder srv i s)
                  | Any_Order _ \<Rightarrow> (Panic ''interface conversion'', s)) s))"

text \<open>
  The streams of the server: \<open>Recv\<close> decodes the next wire message, and a whole wire stream is
  seen as the stream of what \<open>Recv\<close> returns.
\<close>

definition server_Recv :: "('b \<Rightarrow> 'm option) \<Rightarrow> 'b in_stream \<Rightarrow> ('m option \<times> stream_end option) \<times> 'b in_stream" where
  "server_Recv decode st =
     (case stream_Recv st of
        ((Some b, _), st) \<Rightarrow> (case decode b of Some m \<Rightarrow> ((Some m, None), st)
                              | None \<Rightarrow> ((None, Some (Broken unmarshal_error)), st))
      | ((None, e), st) \<Rightarrow> ((None, e), st))"

fun decoded :: "('b \<Rightarrow> 'm option) \<Rightarrow> stream_end \<Rightarrow> 'b list \<Rightarrow> 'm in_stream" where
  "decoded decode e [] = In_Stream [] e"
| "decoded decode e (b # bs) =
     (case decode b of
        None \<Rightarrow> In_Stream [] (Broken unmarshal_error)
      | Some m \<Rightarrow> (case decoded decode e bs of In_Stream ms e' \<Rightarrow> In_Stream (m # ms) e'))"

lemma server_Recv_decoded:
  "fst (server_Recv decode (In_Stream bs e)) = fst (stream_Recv (decoded decode e bs))"
  by (cases bs) (auto simp: server_Recv_def split: option.split in_stream.split)

lemma decoded_list:
  "list_all2 (\<lambda>b m. decode b = Some m) bs ms \<Longrightarrow> decoded decode e bs = In_Stream ms e"
  by (induction bs ms rule: list_all2_induct) auto

definition OrderManagement_SearchOrders_Handler :: "'b codec \<Rightarrow> 's server \<Rightarrow> 'b in_stream \<Rightarrow> 's
    \<Rightarrow> (rpc_error option outcome \<times> 'b list) \<times> 's" where
  "OrderManagement_SearchOrders_Handler K srv stream s =
     (case server_Recv (unmarshal_StringValue K) stream of
        ((Some m, _), _) \<Rightarrow>
          (let ((r, sent), s) = srv_SearchOrders srv m s in ((r, List.map_filter (marshal_Order K) sent), s))
      | ((None, e), _) \<Rightarrow>
          ((Return (Some (case e of Some (Broken e) \<Rightarrow> e | _ \<Rightarrow> Transport ''EOF'')), []), s))"

definition OrderManagement_UpdateOrders_Handler :: "'b codec \<Rightarrow> 's server \<Rightarrow> 'b in_stream \<Rightarrow> 's
    \<Rightarrow> (rpc_error option outcome \<times> 'b list) \<times> 's" where
  "OrderManagement_UpdateOrders_Handler K srv stream s =
     (let ((r, sent), s) = srv_UpdateOrders srv (decoded (unmarshal_Order K) (closing stream) (pending stream)) s
      in ((r, List.map_filter (marshal_StringValue K) sent), s))"

definition OrderManagement_ProcessOrders_Handler :: "'b codec \<Rightarrow> 's server \<Rightarrow> 'b in_stream \<Rightarrow> 's
    \<Rightarrow> (rpc_error option outcome \<times> 'b list) \<times> 's" where
  "OrderManagement_ProcessOrders_Handler K srv stream s =
     (let ((r, sent), s) = srv_ProcessOrders srv (decoded (unmarshal_StringValue K) (closing stream) (pending stream)) s
      in ((r, List.map_filter (marshal_CombinedShipment K) sent), s))"

section \<open>The service descriptor\<close>

record ('b, 's) MethodDesc =
  MethodName :: string
  Handler :: "'b codec \<Rightarrow> 's server \<Rightarrow> 's interceptor option \<Rightarrow> 'b \<Rightarrow> 's \<Rightarrow> 's unary_result"

record ('b, 's) StreamDesc =
  StreamName :: string
  StreamHandler :: "'b codec \<Rightarrow> 's server \<Rightarrow> 'b in_stream \<Rightarrow> 's \<Rightarrow> (rpc_error option outcome \<times> 'b list) \<times> 's"
  ServerStreams :: bool
  ClientStreams :: bool

record ('b, 's) ServiceDesc =
  ServiceName :: string
  Methods :: "('b, 's) MethodDesc list"
  Streams :: "('b, 's) StreamDesc list"
  Metadata :: string

definition OrderManagement_ServiceDesc :: "('b, 's) ServiceDesc" where
  "OrderManagement_ServiceDesc = \<lparr>
     ServiceName = ''order.OrderManagement'',
     Methods = [\<lparr>MethodName = ''addOrder'', Handler = OrderManagement_AddOrder_Handler\<rparr>,
                \<lparr>MethodName = ''getOrder'', Handler = OrderManagement_GetOrder_Handler\<rparr>],
     Streams = [\<lparr>StreamName = ''searchOrders'', StreamHandler = OrderManagement_SearchOrders_Handler,
                  ServerStreams = True, ClientStreams = False\<rparr>,
                \<lparr>StreamName = ''updateOrders'', StreamHandler = OrderManagement_UpdateOrders_Handler,
                  ServerStreams = False, ClientStreams = True\<rparr>,
                \<lparr>StreamName = ''processOrders'', StreamHandler = OrderManagement_ProcessOrders_Handler,
                  ServerStreams = True, ClientStreams = True\<rparr>],
     Metadata = ''order.proto''\<rparr>"

definition full_method :: "string \<Rightarrow> string \<Rightarrow> string" where
  "full_method service name = ''/'' @ service @ ''/'' @ name"

definition registered :: "string \<Rightarrow> ('b, 's) MethodDesc option" where
  "registered method =
     (let D = (OrderManagement_ServiceDesc :: ('b, 's) ServiceDesc)
      in find (\<lambda>d. full_method (ServiceName D) (MethodName d) = method) (Methods D))"

definition registered_stream :: "nat \<Rightarrow> string \<Rightarrow> ('b, 's) StreamDesc option" where
  "registered_stream i method =
     (let D = (OrderManagement_ServiceDesc :: ('b, 's) ServiceDesc)
      in if i < length (Streams D) \<and> full_method (ServiceName D) (StreamName (Streams D ! i)) = method
         then Some (Streams D ! i) else None)"

lemma registered_methods:
  "registered ''/order.OrderManagement/addOrder'' = Some \<lparr>MethodName = ''addOrder'', Handler = OrderManagement_AddOrder_Handler\<rparr>"
  "registered ''/order.OrderManagement/getOrder'' = Some \<lparr>MethodName = ''getOrder'', Handler = OrderManagement_GetOrder_Handler\<rparr>"
  by (simp_all add: registered_def OrderManagement_ServiceDesc_def full_method_def)

lemma registered_streams:
  "registered_stream 0 ''/order.OrderManagement/searchOrders'' =
     Some \<lparr>StreamName = ''searchOrders'', StreamHandler = OrderManagement_SearchOrders_Handler, ServerStreams = True, ClientStreams = False\<rparr>"
  "registered_stream (Suc 0) ''/order.OrderManagement/updateOrders'' =
     Some \<lparr>StreamName = ''updateOrders'', StreamHandler = OrderManagement_UpdateOrders_Handler, ServerStreams = False, ClientStreams = True\<rparr>"
  "registered_stream 2 ''/order.OrderManagement/processOrders'' =
     Some \<lparr>StreamName = ''processOrders'', StreamHandler = OrderManagement_ProcessOrders_Handler, ServerStreams = True, ClientStreams = True\<rparr>"
  by (simp_all add: registered_stream_def OrderManagement_ServiceDesc_def full_method_def)

text \<open>The server of the repository as an implementation of the interface.\<close>

definition order_server :: "(string \<Rightarrow> string) \<Rightarrow> (nat \<Rightarrow> rpc_error option) \<Rightarrow> (nat \<Rightarrow> orders \<Rightarrow> string list)
    \<Rightarrow> (nat \<Rightarrow> (string, CombinedShipment) fmap \<Rightarrow> string list) \<Rightarrow> orders server" where
  "order_server pbtext f it its = \<lparr>
     srv_AddOrder = (\<lambda>m s. AddOrder s m),
     srv_GetOrder = (\<lambda>i s. (GetOrder pbtext s i, s)),
     srv_SearchOrders = (\<lambda>q s. case SearchOrders f it s q of (e, sent) \<Rightarrow> ((Return e, sent), s)),
     srv_UpdateOrders = (\<lambda>st s. UpdateOrders f s st),
     srv_ProcessOrders = (\<lambda>st s. (ProcessOrders (\<lambda>_. s) its f st, s))\<rparr>"

end
