(* ===== verification/Order_Transport.thy ===== *)
theory Order_Transport
  imports Order_Grpc
begin

text \<open>
  What carries the calls of \<open>Order_Grpc\<close>: the contracts \<open>grpc_unary\<close> and \<open>grpc_stream\<close> of a connection to
  one server, in the terms in which gRPC documents its runtime, and a loopback connection, over real
  bytes, that fulfils both. The client's calls are taken one at a time; \<open>fits\<close> are the wire messages
  within the runtime's size limits.
\<close>

section \<open>Messages that a wire carries\<close>

definition carried :: "('m \<Rightarrow> 'b option) \<Rightarrow> ('b \<Rightarrow> bool) \<Rightarrow> 'm \<Rightarrow> bool" where
  "carried encode fits m = (case encode m of None \<Rightarrow> False | Some b \<Rightarrow> fits b)"

lemma carriedE:
  assumes "carried encode fits m"
  obtains b where "encode m = Some b" "fits b"
  using assms by (auto simp: carried_def split: option.splits)

text \<open>The orders that a codec carries and gives back.\<close>

definition Order_carried :: "'b codec \<Rightarrow> ('b \<Rightarrow> bool) \<Rightarrow> Order \<Rightarrow> bool" where
  "Order_carried K fits m \<longleftrightarrow> plain_Order m \<and> carried (marshal_Order K) fits m"

abbreviation String_carried :: "'b codec \<Rightarrow> ('b \<Rightarrow> bool) \<Rightarrow> string \<Rightarrow> bool" where
  "String_carried K \<equiv> carried (marshal_StringValue K)"

definition Shipment_carried :: "'b codec \<Rightarrow> ('b \<Rightarrow> bool) \<Rightarrow> CombinedShipment \<Rightarrow> bool" where
  "Shipment_carried K fits c \<longleftrightarrow> plain_Shipment c \<and> carried (marshal_CombinedShipment K) fits c"

lemma carried_encoded:
  assumes "list_all (carried encode fits) ms"
  shows "\<exists>bs. List.map_filter encode ms = bs \<and> list_all2 (\<lambda>m b. encode m = Some b) ms bs \<and> list_all fits bs"
  using assms by (induction ms) (auto elim!: carriedE)

section \<open>Unary calls\<close>

text \<open>
  The handler registered under the method's full name runs on the server's state, and the caller
  gets its message or its error.
\<close>

definition marshal_any :: "'b codec \<Rightarrow> any_message \<Rightarrow> 'b option" where
  "marshal_any K v = (case v of Any_Order m \<Rightarrow> marshal_Order K m | Any_String x \<Rightarrow> marshal_StringValue K x)"

locale grpc_unary = protobuf K for K :: "'b codec" +
  fixes C :: "('b, 'w) conn"
    and srv :: "'s server"
    and fits :: "'b \<Rightarrow> bool"
    and state :: "'w \<Rightarrow> 's"
  assumes unary_ok:
      "registered method = Some d \<Longrightarrow> fits b \<Longrightarrow>
       Handler d K srv None b (state w) = (Return (Some v, None), s') \<Longrightarrow>
       marshal_any K v = Some b' \<Longrightarrow> fits b' \<Longrightarrow>
       \<exists>w'. RawInvoke C method b w = (Inr b', w') \<and> state w' = s'"
    and unary_error:
      "registered method = Some d \<Longrightarrow> fits b \<Longrightarrow>
       Handler d K srv None b (state w) = (Return (u, Some e), s') \<Longrightarrow>
       \<exists>w'. RawInvoke C method b w = (Inl e, w') \<and> state w' = s'"
begin

lemma call_AddOrder:
  assumes "srv_AddOrder srv m (state w) = ((Some v, None), s')"
    and "Order_carried K fits m" and "String_carried K fits v"
  shows "\<exists>w'. client_AddOrder C K m w = ((Some v, None), w') \<and> state w' = s'"
proof -
  obtain b where b: "marshal_Order K m = Some b" "fits b" "unmarshal_Order K b = Some m"
    using assms(2) order_roundtrip by (auto simp: Order_carried_def elim: carriedE)
  obtain b' where b': "marshal_StringValue K v = Some b'" "fits b'"
    using assms(3) by (auto elim: carriedE)
  have "OrderManagement_AddOrder_Handler K srv None b (state w) = (Return (Some (Any_String v), None), s')"
    by (simp add: OrderManagement_AddOrder_Handler_def b boxed_def assms(1))
  with unary_ok [OF registered_methods(1) b(2), of w "Any_String v" s' b'] b'
  show ?thesis by (auto simp: client_AddOrder_def Invoke_def b marshal_any_def string_roundtrip [OF b'(1)])
qed

lemma call_GetOrder:
  assumes "srv_GetOrder srv i (state w) = ((Some m, None), s')"
    and "String_carried K fits i" and "Order_carried K fits m"
  shows "\<exists>w'. client_GetOrder C K i w = ((Some m, None), w') \<and> state w' = s'"
proof -
  obtain b where b: "marshal_StringValue K i = Some b" "fits b" "unmarshal_StringValue K b = Some i"
    using assms(2) string_roundtrip by (auto elim: carriedE)
  obtain b' where b': "marshal_Order K m = Some b'" "fits b'" "unmarshal_Order K b' = Some m"
    using assms(3) order_roundtrip by (auto simp: Order_carried_def elim: carriedE)
  have "OrderManagement_GetOrder_Handler K srv None b (state w) = (Return (Some (Any_Order m), None), s')"
    by (simp add: OrderManagement_GetOrder_Handler_def b boxed_def assms(1))
  with unary_ok [OF registered_methods(2) b(2), of w "Any_Order m" s' b'] b'
  show ?thesis by (auto simp: client_GetOrder_def Invoke_def b marshal_any_def)
qed

lemma call_GetOrder_error:
  assumes "srv_GetOrder srv i (state w) = ((v, Some e), s')" and "String_carried K fits i"
  shows "\<exists>w'. client_GetOrder C K i w = ((None, Some e), w') \<and> state w' = s'"
proof -
  obtain b where b: "marshal_StringValue K i = Some b" "fits b" "unmarshal_StringValue K b = Some i"
    using assms(2) string_roundtrip by (auto elim: carriedE)
  have "OrderManagement_GetOrder_Handler K srv None b (state w) = (Return (map_option Any_Order v, Some e), s')"
    by (simp add: OrderManagement_GetOrder_Handler_def b boxed_def assms(1))
  with unary_error [OF registered_methods(2) b(2), of w _ e s']
  show ?thesis by (auto simp: client_GetOrder_def Invoke_def b)
qed

end

section \<open>Streams\<close>

text \<open>
  A call as the two sides see it: its descriptor, the server's state when it was opened, what the
  client has sent, whether it has closed its side, and what it has received. \<open>handled\<close> is the run of
  the handler on what was sent up to a given end. A handler that comes to different ends on different
  ends of its stream has read it all and waits for more.
\<close>

record ('b, 's) call =
  call_desc :: "('b, 's) StreamDesc"
  call_start :: 's
  call_sent :: "'b list"
  call_closed :: bool
  call_got :: "'b list"

definition new_call :: "('b, 's) StreamDesc \<Rightarrow> 's \<Rightarrow> ('b, 's) call" where
  "new_call d s = \<lparr>call_desc = d, call_start = s, call_sent = [], call_closed = False, call_got = []\<rparr>"

definition handled :: "'b codec \<Rightarrow> 's server \<Rightarrow> ('b, 's) call \<Rightarrow> stream_end \<Rightarrow> (rpc_error option outcome \<times> 'b list) \<times> 's" where
  "handled K srv c e = StreamHandler (call_desc c) K srv (In_Stream (call_sent c) e) (call_start c)"

definition waiting :: "'b codec \<Rightarrow> 's server \<Rightarrow> ('b, 's) call \<Rightarrow> bool" where
  "waiting K srv c \<longleftrightarrow> handled K srv c EOF \<noteq> handled K srv c (Broken (Transport ''reset''))"

definition stream_ending :: "rpc_error option \<Rightarrow> stream_end" where
  "stream_ending r = (case r of None \<Rightarrow> EOF | Some e \<Rightarrow> Broken e)"

lemma handled_cong [simp]:
  "handled K srv (c\<lparr>call_got := g\<rparr>) e = handled K srv c e"
  "handled K srv (c\<lparr>call_closed := b\<rparr>) e = handled K srv c e"
  by (simp_all add: handled_def)

text \<open>
  The laws. A stream opens; while the handler waits, sending and closing succeed. Once the client
  has closed its side, the messages of the handler arrive in order, then its end, and by then its
  effect on the server has happened; a call with a single response delivers it with the end. At any
  time: what is sent or received is recorded, and \<open>io.EOF\<close> arrives only from a handler that has returned no
  error, having sent just what was received, on a part of what the client sent, which is the whole
  if the handler saw the end of the stream.
\<close>

locale grpc_stream = protobuf K for K :: "'b codec" +
  fixes C :: "('b, 'w) conn"
    and srv :: "'s server"
    and fits :: "'b \<Rightarrow> bool"
    and state :: "'w \<Rightarrow> 's"
    and call :: "nat \<Rightarrow> 'w \<Rightarrow> ('b, 's) call"
  assumes stream_open:
      "registered_stream i method = Some d \<Longrightarrow> \<exists>x w'. NewStream C i method w = (Inr x, w') \<and> call x w' = new_call d (state w)"
    and stream_send:
      "\<not> call_closed (call x w) \<Longrightarrow> waiting K srv (call x w) \<Longrightarrow> fits b \<Longrightarrow>
       \<exists>w'. RawSend C x b w = (None, w') \<and> call x w' = (call x w)\<lparr>call_sent := call_sent (call x w) @ [b]\<rparr>"
    and stream_close:
      "\<not> call_closed (call x w) \<Longrightarrow> \<exists>w'. CloseSend C x w = (None, w') \<and> call x w' = (call x w)\<lparr>call_closed := True\<rparr>"
    and recv_next:
      "call_closed (call x w) \<Longrightarrow> ServerStreams (call_desc (call x w)) \<Longrightarrow>
       handled K srv (call x w) EOF = ((Return r, call_got (call x w) @ b # bs), s') \<Longrightarrow> fits b \<Longrightarrow>
       \<exists>w'. RawRecv C x w = (Inr b, w') \<and> call x w' = (call x w)\<lparr>call_got := call_got (call x w) @ [b]\<rparr>"
    and recv_last:
      "call_closed (call x w) \<Longrightarrow> ServerStreams (call_desc (call x w)) \<Longrightarrow>
       handled K srv (call x w) EOF = ((Return r, call_got (call x w)), s') \<Longrightarrow>
       \<exists>w'. RawRecv C x w = (Inl (stream_ending r), w') \<and> call x w' = call x w \<and> state w' = s'"
    and recv_single:
      "call_closed (call x w) \<Longrightarrow> \<not> ServerStreams (call_desc (call x w)) \<Longrightarrow>
       handled K srv (call x w) EOF = ((Return None, [b]), s') \<Longrightarrow> fits b \<Longrightarrow> call_got (call x w) = [] \<Longrightarrow>
       \<exists>w'. RawRecv C x w = (Inr b, w') \<and> state w' = s'"
    and send_recorded:
      "RawSend C x b w = (None, w') \<Longrightarrow> call x w' = (call x w)\<lparr>call_sent := call_sent (call x w) @ [b]\<rparr>"
    and recv_recorded:
      "RawRecv C x w = (Inr b, w') \<Longrightarrow> call x w' = (call x w)\<lparr>call_got := call_got (call x w) @ [b]\<rparr>"
    and recv_EOF:
      "RawRecv C x w = (Inl EOF, w') \<Longrightarrow> ServerStreams (call_desc (call x w)) \<Longrightarrow>
       \<exists>n e s'. handled K srv ((call x w)\<lparr>call_sent := take n (call_sent (call x w))\<rparr>) e
           = ((Return None, call_got (call x w)), s')
         \<and> (e = EOF \<longrightarrow> call_closed (call x w) \<and> length (call_sent (call x w)) \<le> n)"

section \<open>A loopback connection\<close>

text \<open>
  Bytes are sent as they are. A unary call runs the registered handler on the spot, a streaming call
  when the client has closed its side: until then there is nothing to receive.
\<close>

record 's loopback_world =
  server_state :: 's
  calls :: "nat \<Rightarrow> (string, 's) call"
  opened :: nat

definition loopback_recv :: "'s server \<Rightarrow> nat \<Rightarrow> 's loopback_world \<Rightarrow> (stream_end + string) \<times> 's loopback_world" where
  "loopback_recv srv x w =
     (let c = calls w x; n = length (call_got c);
          take_next = (\<lambda>b w. w\<lparr>calls := (calls w)(x := c\<lparr>call_got := call_got c @ [b]\<rparr>)\<rparr>)
      in case handled proto_codec srv c EOF of
           ((Return r, out), s') \<Rightarrow>
             if \<not> call_closed c \<or> take n out \<noteq> call_got c then (Inl (Broken (Transport ''nothing to receive'')), w)
             else if ServerStreams (call_desc c) then
               (case drop n out of
                  b # _ \<Rightarrow> (Inr b, take_next b w)
                | [] \<Rightarrow> (Inl (stream_ending r), w\<lparr>server_state := s'\<rparr>))
             else (case (r, out) of
                     (None, [b]) \<Rightarrow> (Inr b, take_next b (w\<lparr>server_state := s'\<rparr>))
                   | _ \<Rightarrow> (Inl (Broken (Transport ''no single response'')), w))
         | _ \<Rightarrow> (Inl (Broken (Transport ''connection lost'')), w))"

definition loopback :: "'s server \<Rightarrow> (string, 's loopback_world) conn" where
  "loopback srv = \<lparr>
     RawInvoke = (\<lambda>method b w.
       case registered method of
         None \<Rightarrow> (Inl (Status Unimplemented ''unknown method''), w)
       | Some d \<Rightarrow>
           (case Handler d proto_codec srv None b (server_state w) of
              (Return (_, Some e), s) \<Rightarrow> (Inl e, w\<lparr>server_state := s\<rparr>)
            | (Return (Some v, None), s) \<Rightarrow>
                (case marshal_any proto_codec v of
                   Some b \<Rightarrow> (Inr b, w\<lparr>server_state := s\<rparr>)
                 | None \<Rightarrow> (Inl marshal_error, w\<lparr>server_state := s\<rparr>))
            | (_, s) \<Rightarrow> (Inl (Transport ''connection lost''), w\<lparr>server_state := s\<rparr>))),
     NewStream = (\<lambda>i method w.
       case registered_stream i method of
         None \<Rightarrow> (Inl (Status Unimplemented ''unknown method''), w)
       | Some d \<Rightarrow> (Inr (opened w), w\<lparr>opened := Suc (opened w), calls := (calls w)(opened w := new_call d (server_state w))\<rparr>)),
     RawSend = (\<lambda>x b w. (None, w\<lparr>calls := (calls w)(x := (calls w x)\<lparr>call_sent := call_sent (calls w x) @ [b]\<rparr>)\<rparr>)),
     CloseSend = (\<lambda>x w. (None, w\<lparr>calls := (calls w)(x := (calls w x)\<lparr>call_closed := True\<rparr>)\<rparr>)),
     RawRecv = loopback_recv srv\<rparr>"

definition fresh_loopback :: "'s \<Rightarrow> 's loopback_world" where
  "fresh_loopback s = \<lparr>server_state = s, calls = (\<lambda>_. new_call undefined s), opened = 0\<rparr>"

interpretation loopback_unary: grpc_unary proto_codec "loopback srv" srv fits server_state for srv fits
  by unfold_locales (auto simp: loopback_def split: option.split)

lemma loopback_recv_Inr:
  assumes "loopback_recv srv x w = (Inr b, w')"
  shows "calls w' x = (calls w x)\<lparr>call_got := call_got (calls w x) @ [b]\<rparr>"
  using assms by (auto simp: loopback_recv_def Let_def split: prod.splits outcome.splits if_splits list.splits option.splits)

lemma loopback_recv_EOF:
  assumes "loopback_recv srv x w = (Inl EOF, w')" and "ServerStreams (call_desc (calls w x))"
  shows "call_closed (calls w x) \<and> (\<exists>s'. handled proto_codec srv (calls w x) EOF = ((Return None, call_got (calls w x)), s'))"
  using assms
  by (auto simp: loopback_recv_def Let_def stream_ending_def split: prod.splits outcome.splits if_splits list.splits option.splits)

interpretation loopback_stream: grpc_stream proto_codec "loopback srv" srv fits server_state "\<lambda>x w. calls w x" for srv fits
proof (unfold_locales, goal_cases)
  case (9 x w w')
  then have "loopback_recv srv x w = (Inl EOF, w')" by (simp add: loopback_def)
  from loopback_recv_EOF [OF this 9(2)] show ?case
    by (intro exI [of _ "length (call_sent (calls w x))"] exI [of _ EOF]) simp
qed (auto simp: loopback_def loopback_recv_def Let_def intro: loopback_recv_Inr)

section \<open>Properties\<close>

text \<open>Through the stubs, the codec, the wire and the service descriptor, a unary call has the effect and
  the answer of the server's handler called on the spot: the full names the client's stubs use are those
  the descriptor registers for the very handlers. \<open>AddOrder\<close> answers and stores, \<open>GetOrder\<close> answers
  with the stored order or with the handler's error, and changes nothing.\<close>

theorem rpc_is_local_call:
  assumes "grpc_unary K C (order_server pbtext f it its) fits state"
    and "Order_carried K fits m" and "String_carried K fits (''Order Added: '' @ Order_Id m)"
    and "String_carried K fits i" and "fmpred (\<lambda>_. Order_carried K fits) (state w)"
  shows "(\<exists>w'. client_AddOrder C K m w = (fst (AddOrder (state w) m), w') \<and> state w' = snd (AddOrder (state w) m))
    \<and> (\<exists>w'. client_GetOrder C K i w = (GetOrder pbtext (state w) i, w') \<and> state w' = state w)"
proof
  show "\<exists>w'. client_AddOrder C K m w = (fst (AddOrder (state w) m), w') \<and> state w' = snd (AddOrder (state w) m)"
    using grpc_unary.call_AddOrder [OF assms(1) _ assms(2,3), of w "fmupd (Order_Id m) m (state w)"]
    by (simp add: order_server_def AddOrder_def)
  show "\<exists>w'. client_GetOrder C K i w = (GetOrder pbtext (state w) i, w') \<and> state w' = state w"
  proof (cases "fmlookup (state w) i")
    case None
    then show ?thesis
      using grpc_unary.call_GetOrder_error [OF assms(1) _ assms(4), of w None _ "state w"]
      by (simp add: order_server_def GetOrder_def)
  next
    case (Some ord)
    then have "Order_carried K fits ord" using assms(5) by (rule fmpredD [rotated])
    with Some show ?thesis
      using grpc_unary.call_GetOrder [OF assms(1) _ assms(4), of w ord "state w"]
      by (simp add: order_server_def GetOrder_def)
  qed
qed

text \<open>Short ASCII strings are carried.\<close>

lemma carried_ascii:
  assumes "list_all (\<lambda>c. (of_char c :: nat) < 128) s" and "length s < 100"
  shows "carried proto_marshal_StringValue (\<lambda>_. True) s"
proof -
  have "length (encode_fields (string_field 1 s)) < 2 ^ 31"
    using assms(2) by (simp add: string_field_def encode_field_def varint.simps [of "length s"] varint.simps [of 10])
  then show ?thesis
    using utf8_ascii [OF assms(1)] by (simp add: carried_def proto_marshal_StringValue_def proto_marshal_def)
qed

lemma Order_carried_short:
  assumes "None \<notin> set (Order_Addresses m)" and "list_all (list_all (\<lambda>c. (of_char c :: nat) < 128)) (Order_strings m)"
    and "length (encode_fields (Order_fields m)) < 2 ^ 31"
  shows "Order_carried proto_codec (\<lambda>_. True) m"
proof -
  have "list_all utf8_ValidString (Order_strings m)"
    using assms(2) by (auto simp: list_all_iff intro: utf8_ascii)
  then show ?thesis
    using assms(1,3) by (simp add: Order_carried_def plain_Order_def carried_def proto_marshal_Order_def proto_marshal_def)
qed

theorem rpc_is_local_call_witness:
  "let srv = order_server (\<lambda>s. s) (\<lambda>_. None) (\<lambda>_ m. sorted_list_of_fset (fmdom m)) (\<lambda>_ m. sorted_list_of_fset (fmdom m));
       w = fresh_loopback fmempty;
       m = Order_Reset\<lparr>Order_Id := ''7''\<rparr> in
   (\<exists>w'. client_AddOrder (loopback srv) proto_codec m w = (fst (AddOrder (server_state w) m), w')
      \<and> server_state w' = snd (AddOrder (server_state w) m))
   \<and> (\<exists>w'. client_GetOrder (loopback srv) proto_codec ''8'' w = (GetOrder (\<lambda>s. s) (server_state w) ''8'', w')
      \<and> server_state w' = server_state w)"
  unfolding Let_def
proof (rule rpc_is_local_call [OF loopback_unary.grpc_unary_axioms [where fits = "\<lambda>_. True"]], goal_cases)
  case 1
  show ?case
    by (rule Order_carried_short)
      (simp_all add: Order_Reset_def Order_strings_def Order_fields_def string_field_def encode_field_def varint.simps)
qed (simp_all add: carried_ascii Order_Reset_def fresh_loopback_def)

end
