(* ===== verification/Order_Client.thy ===== *)
theory Order_Client
  imports Order_Transport
begin

text \<open>
  The client demo \<^verbatim>\<open>dev/grpc/basic/client/main.go\<close>: one function per kind of call, over the stubs of
  \<open>Order_Grpc\<close>. What is logged is returned as a list of lines; \<open>text\<close> is the protobuf runtime's text
  of a message and of an error. The context is never cancelled before the end and is left out.
\<close>

record texts =
  order_text :: "Order option \<Rightarrow> string"
  value_text :: "string option \<Rightarrow> string"
  list_text :: "Order list \<Rightarrow> string"
  error_text :: "rpc_error \<Rightarrow> string"

type_synonym 'w run = "unit outcome \<times> string list \<times> 'w"

fun end_error :: "stream_end \<Rightarrow> rpc_error" where
  "end_error EOF = Transport ''EOF''"
| "end_error (Broken e) = e"

section \<open>UnaryRPC\<close>

text \<open>The price 2300.00 as the bits of a float32.\<close>

definition unary_order :: Order where
  "unary_order = Order_Reset\<lparr>Order_Id := ''101'', Order_Items := [''iPhone XS'', ''Mac Book Pro''],
     Order_Addresses := [Some \<lparr>Address_Address = ''Tom, Shanghai'', Address_Type = Order_HOME\<rparr>],
     Order_Price := 0x450FC000\<rparr>"

definition UnaryRPC :: "texts \<Rightarrow> ('b, 'w) conn \<Rightarrow> 'b codec \<Rightarrow> 'w \<Rightarrow> 'w run" where
  "UnaryRPC T C K w =
     (case client_AddOrder C K unary_order w of
        ((_, Some err), w) \<Rightarrow> (Panic (error_text T err), [], w)
      | ((None, None), w) \<Rightarrow> (Panic ''nil pointer dereference'', [], w)
      | ((Some res, None), w) \<Rightarrow>
          (let l1 = ''AddOrder Response -> '' @ res
           in case client_GetOrder C K ''101'' w of
                ((_, Some err), w) \<Rightarrow> (Panic (error_text T err), [l1], w)
              | ((retrievedOrder, None), w) \<Rightarrow>
                  (Return (), [l1, ''GetOrder Response -> : '' @ order_text T retrievedOrder], w)))"

section \<open>clientStream\<close>

definition stream_order_1 :: Order where
  "stream_order_1 = Order_Reset\<lparr>Order_Id := ''101'', Order_Items := [''Oppo'', ''samung''],
     Order_Description := ''A with B'', Order_Price := 0x45160000,
     Order_Addresses := [Some \<lparr>Address_Address = ''Mike, Shanghai'', Address_Type = Order_HOME\<rparr>]\<rparr>"

definition stream_order_2 :: Order where
  "stream_order_2 = Order_Reset\<lparr>Order_Id := ''102'', Order_Items := [''iPhone XS'', ''Mac Book Pro''],
     Order_Description := ''C with D'', Order_Price := 0x451C4000,
     Order_Addresses := [Some \<lparr>Address_Address = ''Sam, Beijing'', Address_Type = Order_WORK\<rparr>]\<rparr>"

definition clientStream :: "texts \<Rightarrow> ('b, 'w) conn \<Rightarrow> 'b codec \<Rightarrow> 'w \<Rightarrow> 'w run" where
  "clientStream T C K w =
     (case client_UpdateOrders C w of
        ((_, Some err), w) \<Rightarrow> (Panic (error_text T err), [], w)
      | ((None, None), w) \<Rightarrow> (Panic ''nil pointer dereference'', [], w)
      | ((Some stream, None), w) \<Rightarrow>
          (case UpdateOrdersClient_Send C K stream stream_order_1 w of
             (Some err, w) \<Rightarrow> (Panic (error_text T err), [], w)
           | (None, w) \<Rightarrow>
               (case UpdateOrdersClient_Send C K stream stream_order_2 w of
                  (Some err, w) \<Rightarrow> (Panic (error_text T err), [], w)
                | (None, w) \<Rightarrow>
                    (case UpdateOrdersClient_CloseAndRecv C K stream w of
                       ((_, Some err), w) \<Rightarrow> (Panic (error_text T (end_error err)), [], w)
                     | ((res, None), w) \<Rightarrow>
                         (Return (), [''Update Orders Res : '' @ value_text T res], w)))))"

section \<open>serverStream\<close>

text \<open>
  The loop ends at \<open>io.EOF\<close> only: after any other error it goes on logging nil orders. Not returning
  is \<open>None\<close>.
\<close>

partial_function (option) serverStream_loop :: "texts \<Rightarrow> ('b, 'w) conn \<Rightarrow> 'b codec \<Rightarrow> nat \<Rightarrow> string list \<Rightarrow> 'w
    \<Rightarrow> 'w run option" where
  "serverStream_loop T C K stream ls w =
     (case SearchOrdersClient_Recv C K stream w of
        ((order, err), w) \<Rightarrow>
          if err = Some EOF then Some (Return (), ls, w)
          else serverStream_loop T C K stream (ls @ [''Search Result:  '' @ order_text T order]) w)"

definition serverStream :: "texts \<Rightarrow> ('b, 'w) conn \<Rightarrow> 'b codec \<Rightarrow> 'w \<Rightarrow> 'w run option" where
  "serverStream T C K w =
     (case client_SearchOrders C K ''iPhone'' w of
        ((_, Some err), w) \<Rightarrow> Some (Panic (error_text T err), [], w)
      | ((None, None), w) \<Rightarrow> Some (Panic ''nil pointer dereference'', [], w)
      | ((Some stream, None), w) \<Rightarrow> serverStream_loop T C K stream [] w)"

section \<open>bidirectionalStream\<close>

text \<open>
  The goroutine sends two ids and closes its side while the main function receives. The goroutine's
  step \<open>k\<close>, and the schedule: \<open>True\<close> when the goroutine moves. Any panic ends the program, as does
  the return of the main function.
\<close>

definition sender_step :: "texts \<Rightarrow> ('b, 'w) conn \<Rightarrow> 'b codec \<Rightarrow> nat \<Rightarrow> nat \<Rightarrow> 'w \<Rightarrow> unit outcome \<times> 'w" where
  "sender_step T C K stream k w =
     (case (if k = 0 then ProcessOrdersClient_Send C K stream ''101'' w
            else if k = 1 then ProcessOrdersClient_Send C K stream ''102'' w
            else if k = 2 then CloseSend C stream w
            else (None, w)) of
        (Some err, w) \<Rightarrow> (Panic (error_text T err), w)
      | (None, w) \<Rightarrow> (Return (), w))"

text \<open>One round of the receiving loop: \<open>None\<close> while it goes on.\<close>

definition receiver_step :: "texts \<Rightarrow> ('b, 'w) conn \<Rightarrow> 'b codec \<Rightarrow> nat \<Rightarrow> 'w \<Rightarrow> (unit outcome option \<times> string list) \<times> 'w" where
  "receiver_step T C K stream w =
     (case ProcessOrdersClient_Recv C K stream w of
        ((combinedShipment, err), w) \<Rightarrow>
          if err = Some EOF then ((Some (Return ()), []), w)
          else (case combinedShipment of
                  None \<Rightarrow> ((Some (Panic ''nil pointer dereference''), []), w)
                | Some c \<Rightarrow> ((None, [''Combined shipment :  '' @ list_text T (Shipment_OrderList c)]), w)))"

fun bidi_run :: "texts \<Rightarrow> ('b, 'w) conn \<Rightarrow> 'b codec \<Rightarrow> nat \<Rightarrow> bool list \<Rightarrow> nat \<Rightarrow> 'w \<Rightarrow> unit outcome option \<times> string list \<times> 'w" where
  "bidi_run T C K stream [] k w = (None, [], w)"
| "bidi_run T C K stream (True # sched) k w =
     (case sender_step T C K stream k w of
        (Panic m, w) \<Rightarrow> (Some (Panic m), [], w)
      | (Return _, w) \<Rightarrow> bidi_run T C K stream sched (Suc k) w)"
| "bidi_run T C K stream (False # sched) k w =
     (case receiver_step T C K stream w of
        ((Some r, ls), w) \<Rightarrow> (Some r, ls, w)
      | ((None, ls), w) \<Rightarrow> (case bidi_run T C K stream sched k w of (r, ls', w) \<Rightarrow> (r, ls @ ls', w)))"

definition bidirectionalStream :: "texts \<Rightarrow> ('b, 'w) conn \<Rightarrow> 'b codec \<Rightarrow> bool list \<Rightarrow> 'w
    \<Rightarrow> unit outcome option \<times> string list \<times> 'w" where
  "bidirectionalStream T C K sched w =
     (case client_ProcessOrders C w of
        ((_, Some err), w) \<Rightarrow> (Some (Panic (error_text T err)), [], w)
      | ((None, None), w) \<Rightarrow> (Some (Panic ''nil pointer dereference''), [], w)
      | ((Some stream, None), w) \<Rightarrow> bidi_run T C K stream sched 0 w)"

section \<open>Streams that are read to the end\<close>

text \<open>
  What gRPC documents of a client stream's \<open>RecvMsg\<close>: the messages in order, then for good the end or
  the error. \<open>inbox\<close> is what stream \<open>x\<close> has yet to deliver, if that is settled, and \<open>final\<close> the server's
  state when it has delivered all.
\<close>

locale client_stream = protobuf K for K :: "'b codec" +
  fixes C :: "('b, 'w) conn"
    and inbox :: "nat \<Rightarrow> 'w \<Rightarrow> 'b in_stream option"
    and final :: "nat \<Rightarrow> 'w \<Rightarrow> 's"
    and state :: "'w \<Rightarrow> 's"
  assumes recv_message: "inbox x w = Some (In_Stream (b # bs) e) \<Longrightarrow>
      \<exists>w'. RawRecv C x w = (Inr b, w') \<and> inbox x w' = Some (In_Stream bs e) \<and> final x w' = final x w"
    and recv_end: "inbox x w = Some (In_Stream [] e) \<Longrightarrow>
      \<exists>w'. RawRecv C x w = (Inl e, w') \<and> inbox x w' = Some (In_Stream [] e) \<and> state w' = final x w"
begin

lemma search_recv_message:
  assumes "inbox x w = Some (In_Stream (b # bs) e)" and "unmarshal_Order K b = Some m"
  shows "\<exists>w'. SearchOrdersClient_Recv C K x w = ((Some m, None), w') \<and> inbox x w' = Some (In_Stream bs e)
    \<and> final x w' = final x w"
  using recv_message [OF assms(1)] assms(2) by (auto simp: SearchOrdersClient_Recv_def RecvMsg_def)

lemma search_recv_end:
  assumes "inbox x w = Some (In_Stream [] e)"
  shows "\<exists>w'. SearchOrdersClient_Recv C K x w = ((None, Some e), w') \<and> inbox x w' = Some (In_Stream [] e)
    \<and> state w' = final x w"
  using recv_end [OF assms] by (auto simp: SearchOrdersClient_Recv_def RecvMsg_def)

lemma search_to_eof:
  "list_all2 (\<lambda>b m. unmarshal_Order K b = Some m) bs ms \<Longrightarrow> inbox x w = Some (In_Stream bs EOF) \<Longrightarrow>
     \<exists>w'. serverStream_loop T C K x ls w
       = Some (Return (), ls @ map (\<lambda>m. ''Search Result:  '' @ order_text T (Some m)) ms, w')
       \<and> state w' = final x w"
proof (induction bs ms arbitrary: ls w rule: list_all2_induct)
  case Nil
  then obtain w' where "SearchOrdersClient_Recv C K x w = ((None, Some EOF), w')" "state w' = final x w"
    using search_recv_end by blast
  then show ?case by (subst serverStream_loop.simps) simp
next
  case (Cons b bs m ms)
  then obtain w1 where "SearchOrdersClient_Recv C K x w = ((Some m, None), w1)"
    and "inbox x w1 = Some (In_Stream bs EOF)" and "final x w1 = final x w"
    using search_recv_message by blast
  with Cons.IH [of w1 "ls @ [''Search Result:  '' @ order_text T (Some m)]"] show ?case
    by (subst serverStream_loop.simps) simp
qed

lemma broken_never_returns:
  assumes "serverStream_loop T C K x ls w = Some r"
  shows "inbox x w \<noteq> Some (In_Stream [] (Broken e))"
proof -
  have "C = C \<longrightarrow> K = K \<longrightarrow> inbox x w \<noteq> Some (In_Stream [] (Broken e))"
  proof (rule serverStream_loop.raw_induct [OF _ assms,
        where P = "\<lambda>T C' K' x ls w r. C' = C \<longrightarrow> K' = K \<longrightarrow> inbox x w \<noteq> Some (In_Stream [] (Broken e))"], intro impI notI)
    fix loop T C' K' x ls w r
    assume IH: "\<And>T C' K' x ls w r. loop T C' K' x ls w = Some r \<Longrightarrow>
        C' = C \<longrightarrow> K' = K \<longrightarrow> inbox x w \<noteq> Some (In_Stream [] (Broken e))"
      and body: "(case SearchOrdersClient_Recv C' K' x w of
          ((order, err), w) \<Rightarrow>
            if err = Some EOF then Some (Return (), ls, w)
            else loop T C' K' x (ls @ [''Search Result:  '' @ order_text T order]) w) = Some r"
      and same: "C' = C" "K' = K" and stuck: "inbox x w = Some (In_Stream [] (Broken e))"
    obtain w' where "SearchOrdersClient_Recv C K x w = ((None, Some (Broken e)), w')"
      and stuck': "inbox x w' = Some (In_Stream [] (Broken e))"
      using search_recv_end [OF stuck] by blast
    with body same have "loop T C K x (ls @ [''Search Result:  '' @ order_text T None]) w' = Some r" by simp
    from IH [OF this] stuck' show False by simp
  qed
  then show ?thesis by simp
qed

lemma broken_diverges:
  "list_all2 (\<lambda>b m. unmarshal_Order K b = Some m) bs ms \<Longrightarrow> inbox x w = Some (In_Stream bs (Broken e)) \<Longrightarrow>
     serverStream_loop T C K x ls w = None"
proof (induction bs ms arbitrary: ls w rule: list_all2_induct)
  case Nil
  then have "serverStream_loop T C K x ls w \<noteq> Some r" for r
    using broken_never_returns [of T x ls w r e] by auto
  then show ?case by (cases "serverStream_loop T C K x ls w") blast+
next
  case (Cons b bs m ms)
  then obtain w' where "SearchOrdersClient_Recv C K x w = ((Some m, None), w')"
    "inbox x w' = Some (In_Stream bs (Broken e))"
    using search_recv_message by blast
  then show ?case
    using Cons.IH by (subst serverStream_loop.simps) simp
qed

end

text \<open>A stream whose client has closed its side is such a stream.\<close>

context grpc_stream
begin

definition inbox :: "nat \<Rightarrow> 'w \<Rightarrow> 'b in_stream option" where
  "inbox x w =
     (let c = call x w in
      case handled K srv c EOF of
        ((Return r, out), _) \<Rightarrow>
          if call_closed c \<and> ServerStreams (call_desc c) \<and> list_all fits out \<and> take (length (call_got c)) out = call_got c
          then Some (In_Stream (drop (length (call_got c)) out) (stream_ending r)) else None
      | _ \<Rightarrow> None)"

definition final :: "nat \<Rightarrow> 'w \<Rightarrow> 's" where
  "final x w = snd (handled K srv (call x w) EOF)"

end

context grpc_stream
begin

lemma inbox_eq:
  assumes "call_closed (call x w)" and "ServerStreams (call_desc (call x w))"
    and "handled K srv (call x w) EOF = ((Return r, call_got (call x w) @ bs), s')"
    and "list_all fits (call_got (call x w) @ bs)"
  shows "inbox x w = Some (In_Stream bs (stream_ending r))" and "final x w = s'"
  using assms by (simp_all add: inbox_def final_def Let_def)

lemma inboxE:
  assumes "inbox x w = Some (In_Stream bs e)"
  obtains r where "e = stream_ending r" "call_closed (call x w)" "ServerStreams (call_desc (call x w))"
    "handled K srv (call x w) EOF = ((Return r, call_got (call x w) @ bs), final x w)"
    "list_all fits (call_got (call x w) @ bs)"
proof -
  obtain o1 out s' where h: "handled K srv (call x w) EOF = ((o1, out), s')" by (metis prod.exhaust_sel)
  with assms obtain r where r: "o1 = Return r" "call_closed (call x w)" "ServerStreams (call_desc (call x w))"
      "list_all fits out" "e = stream_ending r"
    and "take (length (call_got (call x w))) out = call_got (call x w)" "drop (length (call_got (call x w))) out = bs"
    by (auto simp: inbox_def Let_def split: outcome.splits if_splits)
  then have out: "out = call_got (call x w) @ bs" by (metis append_take_drop_id)
  show thesis
    by (rule that [OF r(5,2,3)]) (use r h out in \<open>simp_all add: final_def\<close>)
qed

end

sublocale grpc_stream \<subseteq> client_stream K C inbox final state
proof (unfold_locales, goal_cases)
  case (1 x w b bs e)
  then obtain r where r: "e = stream_ending r" and closed: "call_closed (call x w)" "ServerStreams (call_desc (call x w))"
    and h: "handled K srv (call x w) EOF = ((Return r, call_got (call x w) @ b # bs), final x w)"
    and fit: "list_all fits (call_got (call x w) @ b # bs)"
    by (rule inboxE)
  obtain w' where w': "RawRecv C x w = (Inr b, w')" "call x w' = (call x w)\<lparr>call_got := call_got (call x w) @ [b]\<rparr>"
    using recv_next [OF closed h] fit by auto
  with closed h fit have "inbox x w' = Some (In_Stream bs (stream_ending r))" "final x w' = final x w"
    by (auto intro!: inbox_eq)
  with w' r show ?case by blast
next
  case (2 x w e)
  then obtain r where r: "e = stream_ending r" and closed: "call_closed (call x w)" "ServerStreams (call_desc (call x w))"
    and "handled K srv (call x w) EOF = ((Return r, call_got (call x w) @ []), final x w)"
    by (rule inboxE)
  then have h: "handled K srv (call x w) EOF = ((Return r, call_got (call x w)), final x w)" by simp
  obtain w' where "RawRecv C x w = (Inl e, w')" "call x w' = call x w" "state w' = final x w"
    using recv_last [OF closed h] r by auto
  moreover from this have "inbox x w' = inbox x w" by (simp add: inbox_def)
  ultimately show ?case using 2 by auto
qed

section \<open>The streaming calls against a server\<close>

context grpc_stream
begin

lemma send_carried:
  assumes "\<not> call_closed (call x w)" and "waiting K srv (call x w)" and "encode m = Some b" and "fits b"
  shows "\<exists>w'. SendMsg C encode x m w = (None, w') \<and> call x w' = (call x w)\<lparr>call_sent := call_sent (call x w) @ [b]\<rparr>"
  using stream_send [OF assms(1,2,4)] assms(3) by (auto simp: SendMsg_def)

lemma call_SearchOrders:
  assumes "String_carried K fits q"
    and "srv_SearchOrders srv q (state w) = ((Return r, out), s')" and "list_all (Order_carried K fits) out"
  shows "\<exists>x w' bs. client_SearchOrders C K q w = ((Some x, None), w')
    \<and> inbox x w' = Some (In_Stream bs (stream_ending r)) \<and> list_all2 (\<lambda>b m. unmarshal_Order K b = Some m) bs out
    \<and> final x w' = s'"
proof -
  define d :: "('b, 's) StreamDesc" where "d = \<lparr>StreamName = ''searchOrders'', StreamHandler = OrderManagement_SearchOrders_Handler,
      ServerStreams = True, ClientStreams = False\<rparr>"
  obtain b where b: "marshal_StringValue K q = Some b" "fits b" using assms(1) by (rule carriedE)
  obtain x w1 where w1: "NewStream C 0 ''/order.OrderManagement/searchOrders'' w = (Inr x, w1)" "call x w1 = new_call d (state w)"
    using stream_open [OF registered_streams(1)] d_def by blast
  have "waiting K srv (new_call d (state w))"
    by (simp add: waiting_def handled_def new_call_def d_def OrderManagement_SearchOrders_Handler_def server_Recv_def)
  then obtain w2 where w2: "SendMsg C (marshal_StringValue K) x q w1 = (None, w2)"
      "call x w2 = (new_call d (state w))\<lparr>call_sent := [b]\<rparr>"
    using send_carried [of x w1 "marshal_StringValue K" q b] b w1(2) by (auto simp: new_call_def)
  then obtain w3 where w3: "CloseSend C x w2 = (None, w3)"
      "call x w3 = (new_call d (state w))\<lparr>call_sent := [b], call_closed := True\<rparr>"
    using stream_close [of x w2] by (auto simp: new_call_def)
  obtain bs where bs: "List.map_filter (marshal_Order K) out = bs"
      "list_all2 (\<lambda>m b. marshal_Order K m = Some b) out bs" "list_all fits bs"
    using carried_encoded [of "marshal_Order K" fits out] assms(3) by (auto simp: Order_carried_def list_all_iff)
  have "handled K srv (call x w3) EOF = ((Return r, bs), s')"
    by (simp add: handled_def w3 new_call_def d_def OrderManagement_SearchOrders_Handler_def server_Recv_def
        string_roundtrip [OF b(1)] assms(2) bs(1))
  then have "inbox x w3 = Some (In_Stream bs (stream_ending r))" "final x w3 = s'"
    using bs(3) by (auto intro!: inbox_eq simp: w3 new_call_def d_def)
  moreover have "list_all2 (\<lambda>b m. unmarshal_Order K b = Some m) bs out"
    using bs(2) assms(3) by (auto simp: list_all2_conv_all_nth list_all_length Order_carried_def order_roundtrip)
  ultimately show ?thesis
    using w1 w2 w3 by (auto simp: client_SearchOrders_def)
qed

end

section \<open>Properties\<close>

text \<open>C39: The loop of \<open>serverStream\<close> logs every order of the stream, in order, and returns when the
  stream ends; when the stream breaks instead, whatever it delivered before, it never returns.\<close>

theorem serverStream_outcome:
  assumes "client_stream K C inbox final state"
    and "list_all2 (\<lambda>b m. unmarshal_Order K b = Some m) bs ms" and "inbox x w = Some (In_Stream bs e)"
  shows "case e of
      EOF \<Rightarrow> (\<exists>w'. serverStream_loop T C K x [] w
               = Some (Return (), map (\<lambda>m. ''Search Result:  '' @ order_text T (Some m)) ms, w')
               \<and> state w' = final x w)
    | Broken _ \<Rightarrow> serverStream_loop T C K x [] w = None"
  using client_stream.search_to_eof [OF assms(1,2), of x w T "[]"]
    client_stream.broken_diverges [OF assms(1,2), of x w _ T "[]"] assms(3)
  by (simp split: stream_end.split)

text \<open>A server that does not implement the method breaks the stream at once.\<close>

definition unimplemented_world :: "unit loopback_world" where
  "unimplemented_world = (fresh_loopback ())\<lparr>calls := (\<lambda>_. (new_call
     \<lparr>StreamName = ''searchOrders'', StreamHandler = OrderManagement_SearchOrders_Handler,
      ServerStreams = True, ClientStreams = False\<rparr> ())\<lparr>call_sent := [[]], call_closed := True\<rparr>)\<rparr>"

theorem serverStream_outcome_witness:
  "serverStream_loop \<lparr>order_text = (\<lambda>_. ''''), value_text = (\<lambda>_. ''''), list_text = (\<lambda>_. ''''), error_text = (\<lambda>_. '''')\<rparr>
     (loopback UnimplementedOrderManagementServer) proto_codec 0 [] unimplemented_world = None"
proof -
  have "handled proto_codec UnimplementedOrderManagementServer (calls unimplemented_world 0) EOF
      = ((Return (Some (unimplemented ''SearchOrders'')), []), ())"
    by (simp add: handled_def unimplemented_world_def new_call_def OrderManagement_SearchOrders_Handler_def
        server_Recv_def proto_unmarshal_StringValue_def proto_merge_def parse_fields.simps
        UnimplementedOrderManagementServer_def)
  then have "grpc_stream.inbox proto_codec UnimplementedOrderManagementServer (\<lambda>_. True) (\<lambda>x w. calls w x) 0 unimplemented_world
      = Some (In_Stream [] (Broken (unimplemented ''SearchOrders'')))"
    by (simp add: loopback_stream.inbox_def unimplemented_world_def new_call_def stream_ending_def)
  from serverStream_outcome [OF loopback_stream.client_stream_axioms _ this, of "[]"] show ?thesis by simp
qed

end
