(* ===== verification/Order_Session.thy ===== *)
theory Order_Session
  imports Order_Client
begin

text \<open>
  The client's demonstrations end to end: stubs, codec, connection, service descriptor and handlers,
  down to the server's map and back. The contract \<open>order_connection\<close> is that of \<open>grpc_unary\<close> and
  \<open>grpc_stream\<close> together for the repository's server.
\<close>

section \<open>The demonstrations against the repository's server\<close>

locale order_connection =
  grpc_unary K C "order_server pbtext f it its" fits state + grpc_stream K C "order_server pbtext f it its" fits state call
  for K :: "'b codec" and C :: "('b, 'w) conn" and pbtext f it its fits state and call :: "nat \<Rightarrow> 'w \<Rightarrow> ('b, orders) call"

interpretation loopback_orders: order_connection proto_codec "loopback (order_server pbtext f it its)" pbtext f it its fits
    server_state "\<lambda>x w. calls w x" for pbtext f it its fits
  by unfold_locales

context order_connection
begin

abbreviation "served \<equiv> order_server pbtext f it its"

lemma search_demo:
  assumes "f = (\<lambda>_. None)" and "String_carried K fits ''iPhone''" and "fmpred (\<lambda>_. Order_carried K fits) (state w)"
    and "range_order it"
  shows "\<exists>w'. serverStream T C K w = Some (Return (),
      map (\<lambda>m. ''Search Result:  '' @ order_text T (Some m)) (search_matches it (state w) ''iPhone''), w')
    \<and> state w' = state w"
proof -
  have search: "srv_SearchOrders served ''iPhone'' (state w) = ((Return None, search_matches it (state w) ''iPhone''), state w)"
    by (simp add: order_server_def SearchOrders_def search_range_eq assms(1) search_matches_def)
  have "list_all (Order_carried K fits) (search_matches it (state w) ''iPhone'')"
    using assms(3) set_range_values [OF range_orderD(2) [OF assms(4)], of 0 "state w"]
    by (auto simp: list_all_iff search_matches_def dest: fmpredD)
  from call_SearchOrders [OF assms(2) search this]
  obtain x w1 bs where w1: "client_SearchOrders C K ''iPhone'' w = ((Some x, None), w1)"
    and inb: "inbox x w1 = Some (In_Stream bs (stream_ending None))"
    and dec: "list_all2 (\<lambda>b m. unmarshal_Order K b = Some m) bs (search_matches it (state w) ''iPhone'')"
    and fin: "final x w1 = state w"
    by blast
  show ?thesis
    using search_to_eof [OF dec, of x w1 T "[]"] inb fin by (auto simp: serverStream_def w1 stream_ending_def)
qed

definition update_call :: "orders \<Rightarrow> 'b list \<Rightarrow> ('b, orders) call" where
  "update_call s bs = (new_call \<lparr>StreamName = ''updateOrders'', StreamHandler = OrderManagement_UpdateOrders_Handler,
     ServerStreams = False, ClientStreams = True\<rparr> s)\<lparr>call_sent := bs\<rparr>"

lemma update_call_simps:
  "call_closed (update_call s bs) = False" "call_sent (update_call s bs) = bs" "call_got (update_call s bs) = []"
  "(update_call s bs)\<lparr>call_sent := bs'\<rparr> = update_call s bs'" "ServerStreams (call_desc (update_call s bs)) = False"
  by (simp_all add: update_call_def new_call_def)

lemma update_handled:
  assumes "list_all2 (\<lambda>b m. unmarshal_Order K b = Some m) bs ms"
  shows "handled K served (update_call s bs) e =
    (let ((r, sent), s') = UpdateOrders f s (In_Stream ms e) in ((r, List.map_filter (marshal_StringValue K) sent), s'))"
  by (simp add: handled_def update_call_def new_call_def OrderManagement_UpdateOrders_Handler_def order_server_def
      decoded_list [OF assms])

lemma update_waiting:
  assumes "list_all2 (\<lambda>b m. unmarshal_Order K b = Some m) bs ms"
  shows "waiting K served (update_call s bs)"
  by (simp add: waiting_def update_handled [OF assms] UpdateOrders_def UpdateOrders_loop_run UpdateOrders_loop_broken)

lemma update_send:
  assumes "call x w = update_call s bs" and "list_all2 (\<lambda>b m. unmarshal_Order K b = Some m) bs ms"
    and "Order_carried K fits m"
  shows "\<exists>w' bs'. UpdateOrdersClient_Send C K x m w = (None, w') \<and> call x w' = update_call s bs'
    \<and> list_all2 (\<lambda>b m. unmarshal_Order K b = Some m) bs' (ms @ [m])"
proof -
  obtain b where b: "marshal_Order K m = Some b" "fits b" "unmarshal_Order K b = Some m"
    using assms(3) order_roundtrip by (auto simp: Order_carried_def elim: carriedE)
  then show ?thesis
    using send_carried [of x w "marshal_Order K" m b] assms(1,2) update_waiting [OF assms(2), of s]
    by (auto simp: UpdateOrdersClient_Send_def update_call_simps intro!: exI [of _ "bs @ [b]"] list_all2_appendI)
qed

lemma update_close:
  assumes "call x w = update_call s bs" and "list_all2 (\<lambda>b m. unmarshal_Order K b = Some m) bs ms"
    and "f 0 = None" and "String_carried K fits (''Orders processed Updated Order IDs : '' @ concat (map (\<lambda>x. Order_Id x @ '', '') ms))"
  shows "\<exists>w'. UpdateOrdersClient_CloseAndRecv C K x w =
      ((Some (''Orders processed Updated Order IDs : '' @ concat (map (\<lambda>x. Order_Id x @ '', '') ms)), None), w')
    \<and> state w' = foldl (\<lambda>s x. snd (AddOrder s x)) s ms"
proof -
  let ?reply = "''Orders processed Updated Order IDs : '' @ concat (map (\<lambda>x. Order_Id x @ '', '') ms)"
  obtain b where b: "marshal_StringValue K ?reply = Some b" "fits b" using assms(4) by (rule carriedE)
  obtain w1 where w1: "CloseSend C x w = (None, w1)" "call x w1 = (update_call s bs)\<lparr>call_closed := True\<rparr>"
    using stream_close [of x w] assms(1) by (auto simp: update_call_simps)
  have "handled K served (call x w1) EOF = ((Return None, [b]), foldl (\<lambda>s x. snd (AddOrder s x)) s ms)"
    using b(1) by (simp add: w1(2) update_handled [OF assms(2)] UpdateOrders_def UpdateOrders_loop_run assms(3))
  from recv_single [OF _ _ this b(2)] obtain w2 where w2: "RawRecv C x w1 = (Inr b, w2)"
      "state w2 = foldl (\<lambda>s x. snd (AddOrder s x)) s ms"
    by (auto simp: w1(2) update_call_simps)
  show ?thesis
    using w1(1) w2 by (simp add: UpdateOrdersClient_CloseAndRecv_def RecvMsg_def string_roundtrip [OF b(1)])
qed

lemma update_demo:
  assumes "f 0 = None" and "Order_carried K fits stream_order_1" and "Order_carried K fits stream_order_2"
    and "String_carried K fits ''Orders processed Updated Order IDs : 101, 102, ''"
  shows "\<exists>w'. clientStream T C K w = (Return (),
      [''Update Orders Res : '' @ value_text T (Some ''Orders processed Updated Order IDs : 101, 102, '')], w')
    \<and> state w' = fmupd ''102'' stream_order_2 (fmupd ''101'' stream_order_1 (state w))"
proof -
  have ids: "Order_Id stream_order_1 = ''101''" "Order_Id stream_order_2 = ''102''"
    by (simp_all add: stream_order_1_def stream_order_2_def)
  obtain x w1 where w1: "NewStream C (Suc 0) ''/order.OrderManagement/updateOrders'' w = (Inr x, w1)" "call x w1 = update_call (state w) []"
    using stream_open [OF registered_streams(2), of w] by (auto simp: update_call_def new_call_def)
  obtain w2 bs2 where w2: "UpdateOrdersClient_Send C K x stream_order_1 w1 = (None, w2)" "call x w2 = update_call (state w) bs2"
      "list_all2 (\<lambda>b m. unmarshal_Order K b = Some m) bs2 [stream_order_1]"
    using update_send [OF w1(2), of "[]" stream_order_1] assms(2) by auto
  obtain w3 bs3 where w3: "UpdateOrdersClient_Send C K x stream_order_2 w2 = (None, w3)" "call x w3 = update_call (state w) bs3"
      "list_all2 (\<lambda>b m. unmarshal_Order K b = Some m) bs3 [stream_order_1, stream_order_2]"
    using update_send [OF w2(2,3) assms(3)] by auto
  show ?thesis
    using update_close [OF w3(2,3) assms(1)] assms(4) w1 w2 w3
    by (auto simp: clientStream_def client_UpdateOrders_def ids AddOrder_def)
qed

end

definition shipment_line :: "texts \<Rightarrow> CombinedShipment \<Rightarrow> string" where
  "shipment_line T c = ''Combined shipment :  '' @ list_text T (Shipment_OrderList c)"

text \<open>\<open>ProcessOrders\<close> returns no error on a stream that breaks.\<close>

lemma ProcessOrders_loop_broken_error:
  "fst (ProcessOrders_loop at it f n st (In_Stream ids (Broken e)) sent) \<noteq> Return None"
  by (induction ids arbitrary: n st sent)
    (auto simp: ProcessOrders_loop_Nil ProcessOrders_loop_Cons split: outcome.split prod.split option.split)

context order_connection
begin

text \<open>
  What holds between the steps of \<open>bidirectionalStream\<close>: the goroutine at its step \<open>k\<close> has sent the
  first \<open>k\<close> of its ids, and the lines logged are those of the messages received.
\<close>

definition bidi_between :: "texts \<Rightarrow> orders \<Rightarrow> nat \<Rightarrow> nat \<Rightarrow> string list \<Rightarrow> 'w \<Rightarrow> bool" where
  "bidi_between T s x k ls w \<longleftrightarrow>
     call_desc (call x w) = \<lparr>StreamName = ''processOrders'', StreamHandler = OrderManagement_ProcessOrders_Handler,
       ServerStreams = True, ClientStreams = True\<rparr>
     \<and> call_start (call x w) = s \<and> call_closed (call x w) = (2 < k)
     \<and> list_all2 (\<lambda>b i. unmarshal_StringValue K b = Some i) (call_sent (call x w)) (take k [''101'', ''102''])
     \<and> list_all2 (\<lambda>b l. \<exists>c. unmarshal_CombinedShipment K b = Some c \<and> l = shipment_line T c) (call_got (call x w)) ls"

lemma bidi_sender:
  assumes "bidi_between T s x k ls w" and "sender_step T C K x k w = (Return u, w')"
  shows "bidi_between T s x (Suc k) ls w'"
proof -
  have send: "\<exists>b. unmarshal_StringValue K b = Some i \<and> call x w' = (call x w)\<lparr>call_sent := call_sent (call x w) @ [b]\<rparr>"
    if "SendMsg C (marshal_StringValue K) x i w = (None, w')" for i
    using that send_recorded string_roundtrip by (force simp: SendMsg_def split: option.splits)
  consider "k = 0" | "k = 1" | "k = 2" | "2 < k" by linarith
  then show ?thesis
  proof cases
    case 1
    with assms(2) send [of "''101''"] show ?thesis
      using assms(1) by (auto simp: sender_step_def ProcessOrdersClient_Send_def bidi_between_def split: prod.splits option.splits)
  next
    case 2
    with assms(2) send [of "''102''"] show ?thesis
      using assms(1)
      by (auto simp: sender_step_def ProcessOrdersClient_Send_def bidi_between_def split: prod.splits option.splits
          intro!: list_all2_appendI [of _ _ "[''101'']" _ "[''102'']", simplified])
  next
    case 3
    then have "\<not> call_closed (call x w)" using assms(1) by (simp add: bidi_between_def)
    from stream_close [OF this] 3 assms show ?thesis
      by (auto simp: sender_step_def bidi_between_def)
  next
    case 4
    with assms show ?thesis by (auto simp: sender_step_def bidi_between_def)
  qed
qed

lemma bidi_receiver:
  assumes "bidi_between T s x k ls w" and "receiver_step T C K x w = ((None, new), w')"
  shows "bidi_between T s x k (ls @ new) w'"
proof -
  obtain b c where b: "RawRecv C x w = (Inr b, w')" "unmarshal_CombinedShipment K b = Some c" "new = [shipment_line T c]"
    using assms(2)
    by (auto simp: receiver_step_def ProcessOrdersClient_Recv_def RecvMsg_def shipment_line_def
        split: prod.splits sum.splits option.splits if_splits)
  show ?thesis
    using assms(1) recv_recorded [OF b(1)] b(2,3) by (auto simp: bidi_between_def intro: list_all2_appendI)
qed

lemma bidi_end:
  assumes "bidi_between T s x k ls w" and "receiver_step T C K x w = ((Some (Return u), new), w')"
    and "list_all (Shipment_carried K fits) (snd (ProcessOrders (\<lambda>_. s) its f (In_Stream [''101'', ''102''] EOF)))"
  shows "fst (ProcessOrders (\<lambda>_. s) its f (In_Stream [''101'', ''102''] EOF)) = Return None"
    and "ls @ new = map (shipment_line T) (snd (ProcessOrders (\<lambda>_. s) its f (In_Stream [''101'', ''102''] EOF)))"
proof -
  let ?c = "call x w" and ?P = "\<lambda>ids. ProcessOrders (\<lambda>_. s) its f (In_Stream ids EOF)"
  have recv: "RawRecv C x w = (Inl EOF, w')" and new: "new = []"
    using assms(2)
    by (auto simp: receiver_step_def ProcessOrdersClient_Recv_def RecvMsg_def
        split: prod.splits sum.splits option.splits if_splits)
  have stream: "ServerStreams (call_desc ?c)" using assms(1) by (simp add: bidi_between_def)
  obtain n e s' where h: "handled K served (?c\<lparr>call_sent := take n (call_sent ?c)\<rparr>) e = ((Return None, call_got ?c), s')"
    and whole: "e = EOF \<longrightarrow> call_closed ?c \<and> length (call_sent ?c) \<le> n"
    using recv_EOF [OF recv stream] by blast
  have run: "handled K served (?c\<lparr>call_sent := take n (call_sent ?c)\<rparr>) e
      = (let (r, sent) = ProcessOrders (\<lambda>_. s) its f (In_Stream (take n (take k [''101'', ''102''])) e)
         in ((r, List.map_filter (marshal_CombinedShipment K) sent), s))"
  proof -
    have "list_all2 (\<lambda>b i. unmarshal_StringValue K b = Some i) (take n (call_sent ?c)) (take n (take k [''101'', ''102'']))"
      using assms(1) by (intro list_all2_takeI) (simp add: bidi_between_def)
    from decoded_list [OF this] show ?thesis
      using assms(1)
      by (simp add: handled_def bidi_between_def OrderManagement_ProcessOrders_Handler_def order_server_def Let_def split_beta)
  qed
  have EOF: "e = EOF"
  proof (cases e)
    case (Broken e2)
    have "fst (ProcessOrders (\<lambda>_. s) its f (In_Stream (take n (take k [''101'', ''102''])) e)) \<noteq> Return None"
      unfolding Broken ProcessOrders_def by (rule ProcessOrders_loop_broken_error)
    then show ?thesis using h by (auto simp: run Let_def split_beta)
  qed
  with whole assms(1) have "take k [''101'', ''102''] = [''101'', ''102'']" and "length (call_sent ?c) \<le> n"
    by (auto simp: bidi_between_def)
  moreover have "length (call_sent ?c) = length (take k [''101'', ''102''])"
    using assms(1) by (auto simp: bidi_between_def dest: list_all2_lengthD)
  ultimately have ids: "take n (take k [''101'', ''102'']) = [''101'', ''102'']" by simp
  obtain r sent where P: "?P [''101'', ''102''] = (r, sent)" by fastforce
  have r: "r = Return None" and got: "List.map_filter (marshal_CombinedShipment K) sent = call_got ?c"
    using trans [OF run [symmetric] h] unfolding EOF ids P by simp_all
  from r P show "fst (?P [''101'', ''102'']) = Return None" by simp
  have "list_all2 (\<lambda>m b. marshal_CombinedShipment K m = Some b) sent (call_got ?c)"
    using carried_encoded [of "marshal_CombinedShipment K" fits sent] assms(3) got
    by (auto simp: P Shipment_carried_def list_all_iff)
  moreover have "list_all plain_Shipment sent" using assms(3) by (auto simp: P Shipment_carried_def list_all_iff)
  ultimately have "list_all2 (\<lambda>b m. unmarshal_CombinedShipment K b = Some m) (call_got ?c) sent"
    by (auto simp: list_all2_conv_all_nth list_all_length shipment_roundtrip)
  moreover have "list_all2 (\<lambda>b l. \<exists>c. unmarshal_CombinedShipment K b = Some c \<and> l = shipment_line T c) (call_got ?c) ls"
    using assms(1) by (simp add: bidi_between_def)
  ultimately have "ls = map (shipment_line T) sent"
    by (auto simp: list_all2_conv_all_nth intro!: nth_equalityI)
  then show "ls @ new = map (shipment_line T) (snd (?P [''101'', ''102'']))" by (simp add: new P)
qed

lemma bidi_run_lines:
  assumes "list_all (Shipment_carried K fits) (snd (ProcessOrders (\<lambda>_. s) its f (In_Stream [''101'', ''102''] EOF)))"
    and "bidi_between T s x k ls w" and "bidi_run T C K x sched k w = (Some (Return u), ls', w')"
  shows "fst (ProcessOrders (\<lambda>_. s) its f (In_Stream [''101'', ''102''] EOF)) = Return None
    \<and> ls @ ls' = map (shipment_line T) (snd (ProcessOrders (\<lambda>_. s) its f (In_Stream [''101'', ''102''] EOF)))"
  using assms(2,3)
proof (induction sched arbitrary: k ls ls' w)
  case (Cons b sched)
  show ?case
  proof (cases b)
    case True
    with Cons.prems(2) obtain v w1 where "sender_step T C K x k w = (Return v, w1)"
        and "bidi_run T C K x sched (Suc k) w1 = (Some (Return u), ls', w')"
      by (auto split: prod.splits outcome.splits)
    then show ?thesis using Cons.IH bidi_sender [OF Cons.prems(1)] by blast
  next
    case False
    obtain r new w1 where step: "receiver_step T C K x w = ((r, new), w1)" by (metis prod.exhaust)
    show ?thesis
    proof (cases r)
      case None
      with False step Cons.prems(2) obtain ls2 where "bidi_run T C K x sched k w1 = (Some (Return u), ls2, w')" "ls' = new @ ls2"
        by (auto split: prod.splits)
      then show ?thesis using Cons.IH [OF bidi_receiver [OF Cons.prems(1) step [unfolded None]]] by simp
    next
      case (Some q)
      with False step Cons.prems(2) have "q = Return u" "ls' = new" by auto
      with step Some have "receiver_step T C K x w = ((Some (Return u), new), w1)" by simp
      from bidi_end [OF Cons.prems(1) this assms(1)] show ?thesis using \<open>ls' = new\<close> by blast
    qed
  qed
qed simp

lemma bidi_demo:
  assumes "list_all (Shipment_carried K fits) (snd (ProcessOrders (\<lambda>_. state w) its f (In_Stream [''101'', ''102''] EOF)))"
    and "bidirectionalStream T C K sched w = (Some (Return u), ls, w')"
  shows "ProcessOrders (\<lambda>_. state w) its f (In_Stream [''101'', ''102''] EOF)
      = (Return None, snd (ProcessOrders (\<lambda>_. state w) its f (In_Stream [''101'', ''102''] EOF)))"
    and "ls = map (shipment_line T) (snd (ProcessOrders (\<lambda>_. state w) its f (In_Stream [''101'', ''102''] EOF)))"
proof -
  obtain x w1 where w1: "NewStream C 2 ''/order.OrderManagement/processOrders'' w = (Inr x, w1)"
    and start: "bidi_between T (state w) x 0 [] w1"
    using stream_open [OF registered_streams(3), of w] by (auto simp: bidi_between_def new_call_def)
  have "bidi_run T C K x sched 0 w1 = (Some (Return u), ls, w')"
    using assms(2) by (simp add: bidirectionalStream_def client_ProcessOrders_def w1)
  with start have "fst (ProcessOrders (\<lambda>_. state w) its f (In_Stream [''101'', ''102''] EOF)) = Return None
    \<and> [] @ ls = map (shipment_line T) (snd (ProcessOrders (\<lambda>_. state w) its f (In_Stream [''101'', ''102''] EOF)))"
    using bidi_run_lines [OF assms(1), of T x 0 "[]" w1] by blast
  then show "ProcessOrders (\<lambda>_. state w) its f (In_Stream [''101'', ''102''] EOF)
      = (Return None, snd (ProcessOrders (\<lambda>_. state w) its f (In_Stream [''101'', ''102''] EOF)))"
    and "ls = map (shipment_line T) (snd (ProcessOrders (\<lambda>_. state w) its f (In_Stream [''101'', ''102''] EOF)))"
    by (simp_all add: prod_eq_iff)
qed

end

section \<open>The unary demonstration\<close>

context order_connection
begin

lemma unary_demo:
  assumes "Order_carried K fits unary_order" and "String_carried K fits ''101''" and "String_carried K fits ''Order Added: 101''"
  shows "\<exists>w'. UnaryRPC T C K w =
      (Return (), [''AddOrder Response -> Order Added: 101'',
         ''GetOrder Response -> : '' @ order_text T (Some unary_order)], w')
    \<and> state w' = fmupd ''101'' unary_order (state w)"
proof -
  have id: "Order_Id unary_order = ''101''" by (simp add: unary_order_def)
  obtain w1 where add: "client_AddOrder C K unary_order w = ((Some ''Order Added: 101'', None), w1)"
    and w1: "state w1 = fmupd ''101'' unary_order (state w)"
    using call_AddOrder [of unary_order w "''Order Added: 101''" "fmupd ''101'' unary_order (state w)"] assms(1,3)
    by (auto simp: order_server_def AddOrder_def id)
  obtain w2 where "client_GetOrder C K ''101'' w1 = ((Some unary_order, None), w2)" and "state w2 = state w1"
    using call_GetOrder [of "''101''" w1 unary_order "state w1"] assms(1,2)
    by (auto simp: order_server_def GetOrder_def w1)
  then show ?thesis using add w1 by (simp add: UnaryRPC_def)
qed

end

text \<open>The one item of the two orders of \<open>clientStream\<close> that contains \<open>iPhone\<close> is in the second.\<close>

lemma session_search:
  assumes "range_order it"
  shows "search_matches it (fmupd ''102'' stream_order_2 (fmupd ''101'' stream_order_1 fmempty)) ''iPhone'' = [stream_order_2]"
proof -
  let ?m = "fmupd ''102'' stream_order_2 (fmupd ''101'' stream_order_1 fmempty)"
  have "mset (range_values (it 0 ?m) ?m) = {#stream_order_1, stream_order_2#}"
    using mset_range_values [OF range_orderD [OF assms], of 0 ?m] by simp
  moreover have "matching_items ''iPhone'' stream_order_1 = 0" "matching_items ''iPhone'' stream_order_2 = 1"
    by (simp_all add: matching_items_def stream_order_1_def stream_order_2_def)
  ultimately have "mset (search_matches it ?m ''iPhone'') = {#stream_order_2#}"
    by (simp add: search_matches_def mset_search)
  then show ?thesis by simp
qed

section \<open>Properties\<close>

text \<open>The unary demo against the repository's server, over any connection that carries its messages:
  it logs that the order 101 was added and gets back the order it added; the server has stored it
  and nothing else has changed.\<close>

theorem UnaryRPC_roundtrip:
  assumes "order_connection K C pbtext f it its fits state call"
    and "Order_carried K fits unary_order" and "String_carried K fits ''101''" and "String_carried K fits ''Order Added: 101''"
  shows "\<exists>w'. UnaryRPC T C K w =
      (Return (), [''AddOrder Response -> Order Added: 101'',
         ''GetOrder Response -> : '' @ order_text T (Some unary_order)], w')
    \<and> state w' = fmupd ''101'' unary_order (state w)"
  by (rule order_connection.unary_demo [OF assms])

definition no_texts :: texts where
  "no_texts = \<lparr>order_text = (\<lambda>_. ''order''), value_text = (\<lambda>s. case s of Some s \<Rightarrow> s | None \<Rightarrow> ''nil''),
     list_text = concat \<circ> map Order_Id, error_text = (\<lambda>_. ''error'')\<rparr>"

abbreviation demo_server :: "orders server" where
  "demo_server \<equiv> order_server (\<lambda>s. s) (\<lambda>_. None) (\<lambda>_ m. sorted_list_of_fset (fmdom m)) (\<lambda>_ m. sorted_list_of_fset (fmdom m))"

text \<open>The demo's messages under the codec of \<open>Order_Wire\<close>.\<close>

lemma demo_carried [simp]:
  "Order_carried proto_codec (\<lambda>_. True) unary_order" "Order_carried proto_codec (\<lambda>_. True) stream_order_1"
  "Order_carried proto_codec (\<lambda>_. True) stream_order_2"
  by (rule Order_carried_short;
      simp add: unary_order_def stream_order_1_def stream_order_2_def Order_Reset_def Order_strings_def Order_fields_def
        Order_Address_getters Address_fields_def Order_HOME_def Order_WORK_def string_field_def varint_field_def
        encode_field_def varint.simps)+

theorem UnaryRPC_roundtrip_witness:
  "\<exists>w'. UnaryRPC no_texts (loopback demo_server) proto_codec (fresh_loopback fmempty) =
      (Return (), [''AddOrder Response -> Order Added: 101'', ''GetOrder Response -> : order''], w')
    \<and> server_state w' = fmupd ''101'' unary_order fmempty"
  using UnaryRPC_roundtrip [OF loopback_orders.order_connection_axioms [where fits = "\<lambda>_. True"],
      where w = "fresh_loopback fmempty" and T = no_texts]
  by (simp add: carried_ascii no_texts_def fresh_loopback_def)

text \<open>C6: A session of three demonstrations with a server whose map is empty: the unary one adds order 101, the
  client stream replaces it and adds order 102, and the search of the server stream then finds order
  102, once, and ends. The server holds the two orders of the stream and no others.\<close>

theorem client_session:
  assumes "order_connection K C pbtext (\<lambda>_. None) it its fits state call" and "range_order it"
    and "list_all (Order_carried K fits) [unary_order, stream_order_1, stream_order_2]"
    and "list_all (String_carried K fits) [''101'', ''Order Added: 101'', ''iPhone'', ''Orders processed Updated Order IDs : 101, 102, '']"
    and "state w = fmempty"
  shows "\<exists>w1 w2 w3.
      UnaryRPC T C K w = (Return (), [''AddOrder Response -> Order Added: 101'',
         ''GetOrder Response -> : '' @ order_text T (Some unary_order)], w1)
    \<and> clientStream T C K w1 = (Return (),
        [''Update Orders Res : '' @ value_text T (Some ''Orders processed Updated Order IDs : 101, 102, '')], w2)
    \<and> serverStream T C K w2 = Some (Return (), [''Search Result:  '' @ order_text T (Some stream_order_2)], w3)
    \<and> state w3 = fmupd ''102'' stream_order_2 (fmupd ''101'' stream_order_1 fmempty)"
proof -
  obtain w1 where w1: "UnaryRPC T C K w = (Return (), [''AddOrder Response -> Order Added: 101'',
         ''GetOrder Response -> : '' @ order_text T (Some unary_order)], w1)" "state w1 = fmupd ''101'' unary_order fmempty"
    using order_connection.unary_demo [OF assms(1), of T w] assms(3-5) by auto
  obtain w2 where w2: "clientStream T C K w1 = (Return (),
        [''Update Orders Res : '' @ value_text T (Some ''Orders processed Updated Order IDs : 101, 102, '')], w2)"
      "state w2 = fmupd ''102'' stream_order_2 (fmupd ''101'' stream_order_1 fmempty)"
    using order_connection.update_demo [OF assms(1), of T w1] assms(3,4) w1(2) by (auto simp: fmupd_idem)
  have "fmpred (\<lambda>_. Order_carried K fits) (state w2)"
    using assms(3) by (auto simp: w2(2) intro!: fmpred_upd)
  then obtain w3 where "serverStream T C K w2 = Some (Return (), [''Search Result:  '' @ order_text T (Some stream_order_2)], w3)"
      "state w3 = state w2"
    using order_connection.search_demo [OF assms(1) refl, of w2 T] assms(2,4) session_search [OF assms(2)]
    by (auto simp: w2(2))
  with w1 w2 show ?thesis by (intro exI [of _ w1] exI [of _ w2] exI [of _ w3]) simp
qed

theorem client_session_witness:
  "\<exists>w1 w2 w3.
      UnaryRPC no_texts (loopback demo_server) proto_codec (fresh_loopback fmempty)
        = (Return (), [''AddOrder Response -> Order Added: 101'', ''GetOrder Response -> : order''], w1)
    \<and> clientStream no_texts (loopback demo_server) proto_codec w1
        = (Return (), [''Update Orders Res : Orders processed Updated Order IDs : 101, 102, ''], w2)
    \<and> serverStream no_texts (loopback demo_server) proto_codec w2 = Some (Return (), [''Search Result:  order''], w3)
    \<and> server_state w3 = fmupd ''102'' stream_order_2 (fmupd ''101'' stream_order_1 fmempty)"
  using client_session [OF loopback_orders.order_connection_axioms [where fits = "\<lambda>_. True"] range_order_sorted,
      where w = "fresh_loopback fmempty" and T = no_texts]
  by (simp add: carried_ascii no_texts_def fresh_loopback_def)

context order_connection
begin

text \<open>Once the client has closed its side, the loop ends after one step per message and one more, whatever the goroutine does.\<close>

lemma receive_all:
  assumes "list_all2 (\<lambda>b c. unmarshal_CombinedShipment K b = Some c) bs cs" and "inbox x w = Some (In_Stream bs EOF)"
    and "length cs < length (filter Not sched)" and "3 \<le> k"
  shows "\<exists>w'. bidi_run T C K x sched k w = (Some (Return ()), map (shipment_line T) cs, w')"
  using assms
proof (induction sched arbitrary: bs cs k w)
  case (Cons b sched)
  show ?case
  proof (cases b)
    case True
    with Cons.IH [OF Cons.prems(1,2), of "Suc k"] Cons.prems(3,4) show ?thesis by (simp add: sender_step_def)
  next
    case False
    show ?thesis
    proof (cases bs)
      case Nil
      with Cons.prems(1,2) have "cs = []" "inbox x w = Some (In_Stream [] EOF)" by simp_all
      moreover from this(2) obtain w' where "RawRecv C x w = (Inl EOF, w')" using recv_end by blast
      ultimately show ?thesis using False by (simp add: receiver_step_def ProcessOrdersClient_Recv_def RecvMsg_def)
    next
      case (Cons b1 bs1)
      with Cons.prems(1) obtain c cs1 where cs: "cs = c # cs1" "unmarshal_CombinedShipment K b1 = Some c"
          "list_all2 (\<lambda>b c. unmarshal_CombinedShipment K b = Some c) bs1 cs1"
        by (auto simp: list_all2_Cons1)
      obtain w1 where "RawRecv C x w = (Inr b1, w1)" and "inbox x w1 = Some (In_Stream bs1 EOF)"
        using recv_message Cons.prems(2) Cons by blast
      with Cons.IH [OF cs(3), of w1 k] Cons.prems(3,4) cs(1,2) False show ?thesis
        by (auto simp: receiver_step_def ProcessOrdersClient_Recv_def RecvMsg_def shipment_line_def)
    qed
  qed
qed simp

definition process_call :: "orders \<Rightarrow> 'b list \<Rightarrow> ('b, orders) call" where
  "process_call s bs = (new_call \<lparr>StreamName = ''processOrders'', StreamHandler = OrderManagement_ProcessOrders_Handler,
     ServerStreams = True, ClientStreams = True\<rparr> s)\<lparr>call_sent := bs\<rparr>"

lemma process_call_simps:
  "call_closed (process_call s bs) = False" "call_sent (process_call s bs) = bs" "call_got (process_call s bs) = []"
  "(process_call s bs)\<lparr>call_sent := bs'\<rparr> = process_call s bs'" "ServerStreams (call_desc (process_call s bs)) = True"
  by (simp_all add: process_call_def new_call_def)

lemma process_handled:
  assumes "list_all2 (\<lambda>b i. unmarshal_StringValue K b = Some i) bs ids"
  shows "handled K served (process_call s bs) e =
    (let (r, sent) = ProcessOrders (\<lambda>_. s) its f (In_Stream ids e)
     in ((r, List.map_filter (marshal_CombinedShipment K) sent), s))"
  by (simp add: handled_def process_call_def new_call_def OrderManagement_ProcessOrders_Handler_def order_server_def
      decoded_list [OF assms] Let_def split_beta)

lemma process_send:
  assumes "call x w = process_call s bs" and "list_all2 (\<lambda>b i. unmarshal_StringValue K b = Some i) bs ids"
    and "fst (ProcessOrders (\<lambda>_. s) its f (In_Stream ids EOF)) = Return None" and "String_carried K fits i"
  shows "\<exists>w' bs'. ProcessOrdersClient_Send C K x i w = (None, w') \<and> call x w' = process_call s bs'
    \<and> list_all2 (\<lambda>b i. unmarshal_StringValue K b = Some i) bs' (ids @ [i])"
proof -
  obtain b where b: "marshal_StringValue K i = Some b" "fits b" using assms(4) by (rule carriedE)
  have "fst (ProcessOrders (\<lambda>_. s) its f (In_Stream ids (Broken (Transport ''reset'')))) \<noteq> Return None"
    unfolding ProcessOrders_def by (rule ProcessOrders_loop_broken_error)
  then have "waiting K served (process_call s bs)"
    using assms(3) by (auto simp: waiting_def process_handled [OF assms(2)] Let_def split_beta)
  then show ?thesis
    using send_carried [of x w "marshal_StringValue K" i b] assms(1,2) b string_roundtrip [OF b(1)]
    by (auto simp: ProcessOrdersClient_Send_def process_call_simps intro!: exI [of _ "bs @ [b]"] list_all2_appendI)
qed

lemma bidi_returns:
  assumes "f = (\<lambda>_. None)" and "range_order its"
    and "\<forall>i \<in> {''101'', ''102''}. first_destination (orders_get (state w) i) \<noteq> None \<and> String_carried K fits i"
    and "ProcessOrders (\<lambda>_. state w) its f (In_Stream [''101'', ''102''] EOF) = (r, sent)"
    and "list_all (Shipment_carried K fits) sent" and "length sent < length (filter Not sched)"
  shows "\<exists>w'. bidirectionalStream T C K (replicate 3 True @ sched) w
    = (Some (Return ()), map (shipment_line T) sent, w')"
proof -
  let ?P = "\<lambda>ids. ProcessOrders (\<lambda>_. state w) its f (In_Stream ids EOF)"
  have ends: "fst (?P ids) = Return None" if "\<forall>x \<in> set (looked_up (\<lambda>_. state w) 0 ids). first_destination x \<noteq> None" for ids
    using ProcessOrders_loop_EOF [OF assms(2) that, of process_init "[]"] by (auto simp: ProcessOrders_def assms(1))
  obtain x w1 where w1: "NewStream C 2 ''/order.OrderManagement/processOrders'' w = (Inr x, w1)" "call x w1 = process_call (state w) []"
    using stream_open [OF registered_streams(3), of w] by (auto simp: process_call_def new_call_def)
  obtain w2 bs2 where w2: "ProcessOrdersClient_Send C K x ''101'' w1 = (None, w2)" "call x w2 = process_call (state w) bs2"
      "list_all2 (\<lambda>b i. unmarshal_StringValue K b = Some i) bs2 [''101'']"
    using process_send [OF w1(2), of "[]" "''101''"] ends [of "[]"] assms(3) by auto
  obtain w3 bs3 where w3: "ProcessOrdersClient_Send C K x ''102'' w2 = (None, w3)" "call x w3 = process_call (state w) bs3"
      "list_all2 (\<lambda>b i. unmarshal_StringValue K b = Some i) bs3 [''101'', ''102'']"
    using process_send [OF w2(2,3), of "''102''"] ends [of "[''101'']"] assms(3) by auto
  obtain w4 where w4: "CloseSend C x w3 = (None, w4)" "call x w4 = (process_call (state w) bs3)\<lparr>call_closed := True\<rparr>"
    using stream_close [of x w3] w3(2) by (auto simp: process_call_simps)
  have r: "r = Return None" using ends [of "[''101'', ''102'']"] assms(3,4) by simp
  obtain bs where bs: "List.map_filter (marshal_CombinedShipment K) sent = bs"
      "list_all2 (\<lambda>c b. marshal_CombinedShipment K c = Some b) sent bs" "list_all fits bs"
    using carried_encoded [of "marshal_CombinedShipment K" fits sent] assms(5) by (auto simp: Shipment_carried_def list_all_iff)
  have "handled K served (call x w4) EOF = ((Return None, bs), state w)"
    by (simp add: w4(2) process_handled [OF w3(3)] assms(4) r bs(1))
  then have "inbox x w4 = Some (In_Stream bs EOF)"
    using inbox_eq(1) [of x w4 None bs "state w"] bs(3) by (simp add: w4(2) process_call_def new_call_def stream_ending_def)
  moreover have "list_all2 (\<lambda>b c. unmarshal_CombinedShipment K b = Some c) bs sent"
    using bs(2) assms(5) by (auto simp: list_all2_conv_all_nth list_all_length Shipment_carried_def shipment_roundtrip)
  ultimately obtain w' where "bidi_run T C K x sched 3 w4
      = (Some (Return ()), map (shipment_line T) sent, w')"
    using receive_all [OF _ _ assms(6)] by fastforce
  then show ?thesis
    using w1(1) w2(1) w3(1) w4(1)
    by (simp add: bidirectionalStream_def client_ProcessOrders_def sender_step_def numeral_3_eq_3)
qed

end

text \<open>C20: When the server holds both orders, each with a first address, and no \<open>Send\<close> fails, the handler
  returns without an error and the two orders are in the shipments that it sends. \<open>bidirectionalStream\<close> then
  returns, once its goroutine has made its three steps and the loop has a step for each shipment and
  one more, and logs these shipments in the order in which they were sent; and in whatever
  other way the two interleave, when it returns it has logged the same.\<close>

theorem bidirectional_logs:
  assumes "order_connection K C pbtext (\<lambda>_. None) it its fits state call" and "range_order its"
    and "list_all (\<lambda>i. first_destination (orders_get (state w) i) \<noteq> None \<and> String_carried K fits i) [''101'', ''102'']"
    and "list_all (Shipment_carried K fits) (snd (ProcessOrders (\<lambda>_. state w) its (\<lambda>_. None) (In_Stream [''101'', ''102''] EOF)))"
  shows "\<exists>sent. ProcessOrders (\<lambda>_. state w) its (\<lambda>_. None) (In_Stream [''101'', ''102''] EOF) = (Return None, sent)
    \<and> shipped sent = {#orders_get (state w) ''101'', orders_get (state w) ''102''#}
    \<and> (\<forall>sched. length sent < length (filter Not sched) \<longrightarrow>
        (\<exists>w'. bidirectionalStream T C K (replicate 3 True @ sched) w = (Some (Return ()), map (shipment_line T) sent, w')))
    \<and> (\<forall>sched ls w'. bidirectionalStream T C K sched w = (Some (Return ()), ls, w') \<longrightarrow> ls = map (shipment_line T) sent)"
proof -
  have "\<forall>x \<in> set (looked_up (\<lambda>_. state w) 0 [''101'', ''102'']). first_destination x \<noteq> None"
    using assms(3) by simp
  from ProcessOrders_loop_EOF [OF assms(2) this, of process_init "[]"]
  obtain sent where sent: "ProcessOrders (\<lambda>_. state w) its (\<lambda>_. None) (In_Stream [''101'', ''102''] EOF) = (Return None, sent)"
    and shipped: "shipped sent = {#orders_get (state w) ''101'', orders_get (state w) ''102''#}"
    by (auto simp: ProcessOrders_def process_init_def)
  show ?thesis
    using order_connection.bidi_returns [OF assms(1) refl assms(2) _ sent, of _ T] assms(3,4) sent shipped
      order_connection.bidi_demo(2) [OF assms(1,4)]
    by (intro exI [of _ sent]) auto
qed

definition session_orders :: orders where
  "session_orders = fmupd ''102'' stream_order_2 (fmupd ''101'' stream_order_1 fmempty)"

lemma session_shipments:
  "ProcessOrders (\<lambda>_. session_orders) (\<lambda>_ m. sorted_list_of_fset (fmdom m)) (\<lambda>_. None) (In_Stream [''101'', ''102''] EOF)
    = (Return None, [\<lparr>Shipment_Id = ''cmb - Mike, Shanghai'', Shipment_Status = ''Processed!'', Shipment_OrderList = [stream_order_1]\<rparr>,
        \<lparr>Shipment_Id = ''cmb - Sam, Beijing'', Shipment_Status = ''Processed!'', Shipment_OrderList = [stream_order_2]\<rparr>])"
proof -
  have addr: "Order_Addresses stream_order_1 = [Some \<lparr>Address_Address = ''Mike, Shanghai'', Address_Type = Order_HOME\<rparr>]"
    "Order_Addresses stream_order_2 = [Some \<lparr>Address_Address = ''Sam, Beijing'', Address_Type = Order_WORK\<rparr>]"
    by (simp_all add: stream_order_1_def stream_order_2_def)
  show ?thesis
    by (simp add: Let_def ProcessOrders_def ProcessOrders_loop_Cons ProcessOrders_loop_Nil process_init_def orderBatchSize_def
        combine_def orders_get_def session_orders_def addr range_values_def sorted_list_of_fset.rep_eq)
qed

lemma session_carried:
  "list_all (Shipment_carried proto_codec (\<lambda>_. True))
     [\<lparr>Shipment_Id = ''cmb - Mike, Shanghai'', Shipment_Status = ''Processed!'', Shipment_OrderList = [stream_order_1]\<rparr>,
      \<lparr>Shipment_Id = ''cmb - Sam, Beijing'', Shipment_Status = ''Processed!'', Shipment_OrderList = [stream_order_2]\<rparr>]"
proof -
  have "list_all utf8_ValidString (Order_strings stream_order_1)" "list_all utf8_ValidString (Order_strings stream_order_2)"
    by (simp_all add: Order_strings_def stream_order_1_def stream_order_2_def Order_Reset_def Order_Address_getters utf8_ascii)
  moreover have "plain_Order stream_order_1" "plain_Order stream_order_2"
    by (simp_all add: plain_Order_def stream_order_1_def stream_order_2_def)
  ultimately show ?thesis
    by (simp add: Shipment_carried_def plain_Shipment_def carried_def proto_marshal_Shipment_def proto_marshal_def
        Shipment_fields_def string_field_def encode_field_def varint.simps utf8_ascii Order_fields_def
        stream_order_1_def stream_order_2_def Order_Reset_def Address_fields_def Order_Address_getters
        Order_HOME_def Order_WORK_def varint_field_def)
qed

theorem bidirectional_logs_witness:
  "\<exists>w1 w2. bidirectionalStream no_texts (loopback demo_server) proto_codec
        [True, True, True, False, False, False] (fresh_loopback session_orders)
        = (Some (Return ()), [''Combined shipment :  101'', ''Combined shipment :  102''], w1)
    \<and> bidirectionalStream no_texts (loopback demo_server) proto_codec
        [True, True, True, False, True, False, True, False] (fresh_loopback session_orders)
        = (Some (Return ()), [''Combined shipment :  101'', ''Combined shipment :  102''], w2)"
proof -
  have st: "server_state (fresh_loopback session_orders) = session_orders" by (simp add: fresh_loopback_def)
  have lines: "map (shipment_line no_texts)
     [\<lparr>Shipment_Id = ''cmb - Mike, Shanghai'', Shipment_Status = ''Processed!'', Shipment_OrderList = [stream_order_1]\<rparr>,
      \<lparr>Shipment_Id = ''cmb - Sam, Beijing'', Shipment_Status = ''Processed!'', Shipment_OrderList = [stream_order_2]\<rparr>]
    = [''Combined shipment :  101'', ''Combined shipment :  102'']"
    by (simp add: shipment_line_def no_texts_def stream_order_1_def stream_order_2_def)
  have "orders_get session_orders ''101'' = stream_order_1" "orders_get session_orders ''102'' = stream_order_2"
    by (simp_all add: orders_get_def session_orders_def)
  moreover have "first_destination stream_order_1 \<noteq> None" "first_destination stream_order_2 \<noteq> None"
    by (simp_all add: first_destination_def stream_order_1_def stream_order_2_def)
  ultimately have held: "list_all (\<lambda>i. first_destination (orders_get session_orders i) \<noteq> None
      \<and> String_carried proto_codec (\<lambda>_. True) i) [''101'', ''102'']"
    by (simp add: carried_ascii)
  obtain sent where sent: "(Return None, [\<lparr>Shipment_Id = ''cmb - Mike, Shanghai'', Shipment_Status = ''Processed!'', Shipment_OrderList = [stream_order_1]\<rparr>,
        \<lparr>Shipment_Id = ''cmb - Sam, Beijing'', Shipment_Status = ''Processed!'', Shipment_OrderList = [stream_order_2]\<rparr>])
      = (Return None :: rpc_error option outcome, sent)"
    and logs: "length sent < length (filter Not sched) \<Longrightarrow> \<exists>w'. bidirectionalStream no_texts (loopback demo_server) proto_codec
        (replicate 3 True @ sched) (fresh_loopback session_orders) = (Some (Return ()), map (shipment_line no_texts) sent, w')" for sched
    using bidirectional_logs [OF loopback_orders.order_connection_axioms [where fits = "\<lambda>_. True"] range_order_sorted,
        where w = "fresh_loopback session_orders" and T = no_texts, unfolded st session_shipments snd_conv, OF held session_carried]
    by blast
  from sent logs [of "[False, False, False]"] logs [of "[False, True, False, True, False]"] lines show ?thesis
    by (auto simp: numeral_3_eq_3)
qed

section \<open>The client program\<close>

text \<open>
  \<^verbatim>\<open>client/main.go\<close> dials the proxy's port and runs the bidirectional demonstration. \<open>Dial\<close> is the runtime's.
\<close>

definition client_main :: "texts \<Rightarrow> (string \<Rightarrow> 'w \<Rightarrow> (string + ('b, 'w) conn) \<times> 'w) \<Rightarrow> 'b codec \<Rightarrow> bool list \<Rightarrow> 'w
    \<Rightarrow> unit outcome option \<times> string list \<times> 'w" where
  "client_main T Dial K sched w =
     (case Dial ''127.0.0.1:9008'' w of
        (Inl err, w) \<Rightarrow> (Some (Panic err), [], w)
      | (Inr C, w) \<Rightarrow> bidirectionalStream T C K sched w)"

text \<open>The client as a whole, dialled to the server as it is: what it logs when it returns.\<close>

lemma client_main_logs:
  assumes "order_connection K C pbtext f it its fits state call" and "Dial ''127.0.0.1:9008'' w0 = (Inr C, w)"
    and "list_all (Shipment_carried K fits) (snd (ProcessOrders (\<lambda>_. state w) its f (In_Stream [''101'', ''102''] EOF)))"
    and "client_main T Dial K sched w0 = (Some (Return u), ls, w')"
  shows "\<exists>sent. ProcessOrders (\<lambda>_. state w) its f (In_Stream [''101'', ''102''] EOF) = (Return None, sent)
    \<and> ls = map (shipment_line T) sent"
proof -
  have "bidirectionalStream T C K sched w = (Some (Return u), ls, w')"
    using assms(2,4) by (simp add: client_main_def)
  with order_connection.bidi_demo [OF assms(1,3), of T sched u ls w'] show ?thesis
    by (auto split: prod.splits)
qed

end
