(* ===== verification/Order_Api.thy ===== *)
theory Order_Api
  imports Order_Session
begin

text \<open>
  The interfaces of \<^verbatim>\<open>order/order_grpc.pb.go\<close> as the programs hold them: the client as the record of its
  methods over a connection, the streams as records of theirs, and the registration of the service with
  a gRPC server, by which the names that the client calls are found. The server of the runtime is a
  parameter with the contract \<open>service_registrar\<close>.
\<close>

section \<open>The client interface\<close>

text \<open>The stream interfaces of the client.\<close>

record 'w search_stream =
  search_Recv :: "'w \<Rightarrow> (Order option \<times> stream_end option) \<times> 'w"

record 'w update_stream =
  update_Send :: "Order \<Rightarrow> 'w \<Rightarrow> rpc_error option \<times> 'w"
  update_CloseAndRecv :: "'w \<Rightarrow> (string option \<times> stream_end option) \<times> 'w"

record 'w process_stream =
  process_Send :: "string \<Rightarrow> 'w \<Rightarrow> rpc_error option \<times> 'w"
  process_Recv :: "'w \<Rightarrow> (CombinedShipment option \<times> stream_end option) \<times> 'w"
  process_CloseSend :: "'w \<Rightarrow> rpc_error option \<times> 'w"

definition searchOrdersClient :: "('b, 'w) conn \<Rightarrow> 'b codec \<Rightarrow> nat \<Rightarrow> 'w search_stream" where
  "searchOrdersClient C K x = \<lparr>search_Recv = SearchOrdersClient_Recv C K x\<rparr>"

definition updateOrdersClient :: "('b, 'w) conn \<Rightarrow> 'b codec \<Rightarrow> nat \<Rightarrow> 'w update_stream" where
  "updateOrdersClient C K x = \<lparr>
     update_Send = UpdateOrdersClient_Send C K x,
     update_CloseAndRecv = UpdateOrdersClient_CloseAndRecv C K x\<rparr>"

definition processOrdersClient :: "('b, 'w) conn \<Rightarrow> 'b codec \<Rightarrow> nat \<Rightarrow> 'w process_stream" where
  "processOrdersClient C K x = \<lparr>
     process_Send = ProcessOrdersClient_Send C K x,
     process_Recv = ProcessOrdersClient_Recv C K x,
     process_CloseSend = CloseSend C x\<rparr>"

record 'w OrderManagementClient =
  call_AddOrder :: "Order \<Rightarrow> 'w \<Rightarrow> (string option \<times> rpc_error option) \<times> 'w"
  call_GetOrder :: "string \<Rightarrow> 'w \<Rightarrow> (Order option \<times> rpc_error option) \<times> 'w"
  call_SearchOrders :: "string \<Rightarrow> 'w \<Rightarrow> ('w search_stream option \<times> rpc_error option) \<times> 'w"
  call_UpdateOrders :: "'w \<Rightarrow> ('w update_stream option \<times> rpc_error option) \<times> 'w"
  call_ProcessOrders :: "'w \<Rightarrow> ('w process_stream option \<times> rpc_error option) \<times> 'w"

definition stream_result :: "(nat \<Rightarrow> 'x) \<Rightarrow> (nat option \<times> rpc_error option) \<times> 'w \<Rightarrow> ('x option \<times> rpc_error option) \<times> 'w" where
  "stream_result wrap r = (case r of ((x, e), w) \<Rightarrow> ((map_option wrap x, e), w))"

definition NewOrderManagementClient :: "('b, 'w) conn \<Rightarrow> 'b codec \<Rightarrow> 'w OrderManagementClient" where
  "NewOrderManagementClient C K = \<lparr>
     call_AddOrder = client_AddOrder C K,
     call_GetOrder = client_GetOrder C K,
     call_SearchOrders = (\<lambda>inp w. stream_result (searchOrdersClient C K) (client_SearchOrders C K inp w)),
     call_UpdateOrders = (\<lambda>w. stream_result (updateOrdersClient C K) (client_UpdateOrders C w)),
     call_ProcessOrders = (\<lambda>w. stream_result (processOrdersClient C K) (client_ProcessOrders C w))\<rparr>"

section \<open>Registration\<close>

datatype ('b, 's) service_method = Unary_Method "('b, 's) MethodDesc" | Stream_Method "('b, 's) StreamDesc"

definition method_of :: "('b, 's) ServiceDesc \<Rightarrow> string \<Rightarrow> ('b, 's) service_method option" where
  "method_of D m =
     (case find (\<lambda>d. MethodName d = m) (Methods D) of
        Some d \<Rightarrow> Some (Unary_Method d)
      | None \<Rightarrow> map_option Stream_Method (find (\<lambda>d. StreamName d = m) (Streams D)))"

text \<open>A server of the runtime: what it dispatches a full method name to, with the implementation.\<close>

record ('b, 's, 'r) ServiceRegistrar =
  NewServer :: 'r
  RegisterService :: "('b, 's) ServiceDesc \<Rightarrow> 's server \<Rightarrow> 'r \<Rightarrow> unit outcome \<times> 'r"
  Dispatch :: "'r \<Rightarrow> string \<Rightarrow> (('b, 's) service_method \<times> 's server) option"

definition RegisterOrderManagementServer :: "('b, 's, 'r) ServiceRegistrar \<Rightarrow> 's server \<Rightarrow> 'r \<Rightarrow> unit outcome \<times> 'r" where
  "RegisterOrderManagementServer R srv r = RegisterService R OrderManagement_ServiceDesc srv r"

text \<open>
  \<^verbatim>\<open>server/main.go\<close>: the service is registered with a fresh server, which then serves. \<open>Listen\<close> and
  \<open>Serve\<close> are the runtime's.
\<close>

definition server_main :: "('b, orders, 'r) ServiceRegistrar \<Rightarrow> (string \<Rightarrow> string \<Rightarrow> 'w \<Rightarrow> (string + 'l) \<times> 'w)
    \<Rightarrow> ('l \<Rightarrow> 'r \<Rightarrow> 'w \<Rightarrow> string option \<times> 'w) \<Rightarrow> orders server \<Rightarrow> 'w \<Rightarrow> unit outcome \<times> 'w" where
  "server_main R Listen Serve srv w =
     (case RegisterOrderManagementServer R srv (NewServer R) of
        (Panic e, s) \<Rightarrow> (Panic e, w)
      | (Return _, s) \<Rightarrow>
          (case Listen ''tcp'' '':9009'' w of
             (Inl err, w) \<Rightarrow> (Panic err, w)
           | (Inr lit, w) \<Rightarrow>
               (case Serve lit s w of
                  (Some err, w) \<Rightarrow> (Panic err, w)
                | (None, w) \<Rightarrow> (Return (), w))))"

text \<open>
  A full method name is a slash, the service, a slash and the method, which has none. The first
  registration with a fresh server succeeds; one that succeeds adds the methods of the service,
  unary ones first, and changes no other service; a second one under the same name is fatal.
\<close>

locale service_registrar =
  fixes R :: "('b, 's, 'r) ServiceRegistrar"
  assumes fresh: "fst (RegisterService R D srv (NewServer R)) = Return ()"
    and adds: "RegisterService R D srv r = (Return (), r') \<Longrightarrow> CHR ''/'' \<notin> set m \<Longrightarrow>
      Dispatch R r' (full_method (ServiceName D) m) = map_option (\<lambda>d. (d, srv)) (method_of D m)"
    and keeps: "RegisterService R D srv r = (Return (), r') \<Longrightarrow> CHR ''/'' \<notin> set m \<Longrightarrow> S \<noteq> ServiceName D \<Longrightarrow>
      Dispatch R r' (full_method S m) = Dispatch R r (full_method S m)"
    and twice: "RegisterService R D srv r = (Return (), r') \<Longrightarrow> ServiceName D' = ServiceName D \<Longrightarrow>
      \<exists>e. RegisterService R D' srv' r' = (Panic e, r')"

text \<open>
  A connection whose server refuses what it does not know: a method that is not registered, a unary
  method stream_result as a stream or the other way round, and a stream with the flags of another.
\<close>

definition unknown_method :: "string \<Rightarrow> rpc_error" where
  "unknown_method method = Status Unimplemented (''unknown method '' @ method)"

definition same_stream :: "nat \<Rightarrow> ('b, 's) StreamDesc \<Rightarrow> bool" where
  "same_stream i d =
     (let streams = Streams (OrderManagement_ServiceDesc :: ('b, 's) ServiceDesc)
      in i < length streams \<and> ServerStreams (streams ! i) = ServerStreams d \<and> ClientStreams (streams ! i) = ClientStreams d)"

definition strict :: "(string \<Rightarrow> ('b, 's) service_method option) \<Rightarrow> ('b, 'w) conn \<Rightarrow> ('b, 'w) conn" where
  "strict known C = C\<lparr>
     RawInvoke := (\<lambda>method b w. case known method of
         Some (Unary_Method _) \<Rightarrow> RawInvoke C method b w
       | _ \<Rightarrow> (Inl (unknown_method method), w)),
     NewStream := (\<lambda>i method w. case known method of
         Some (Stream_Method d) \<Rightarrow> if same_stream i d then NewStream C i method w else (Inl (unknown_method method), w)
       | _ \<Rightarrow> (Inl (unknown_method method), w))\<rparr>"

definition service_methods :: "string list" where
  "service_methods = [''addOrder'', ''getOrder'', ''searchOrders'', ''updateOrders'', ''processOrders'']"

lemma method_of_order:
  "method_of OrderManagement_ServiceDesc ''addOrder'' = Some (Unary_Method \<lparr>MethodName = ''addOrder'', Handler = OrderManagement_AddOrder_Handler\<rparr>)"
  "method_of OrderManagement_ServiceDesc ''getOrder'' = Some (Unary_Method \<lparr>MethodName = ''getOrder'', Handler = OrderManagement_GetOrder_Handler\<rparr>)"
  "method_of OrderManagement_ServiceDesc ''searchOrders'' = Some (Stream_Method \<lparr>StreamName = ''searchOrders'',
     StreamHandler = OrderManagement_SearchOrders_Handler, ServerStreams = True, ClientStreams = False\<rparr>)"
  "method_of OrderManagement_ServiceDesc ''updateOrders'' = Some (Stream_Method \<lparr>StreamName = ''updateOrders'',
     StreamHandler = OrderManagement_UpdateOrders_Handler, ServerStreams = False, ClientStreams = True\<rparr>)"
  "method_of OrderManagement_ServiceDesc ''processOrders'' = Some (Stream_Method \<lparr>StreamName = ''processOrders'',
     StreamHandler = OrderManagement_ProcessOrders_Handler, ServerStreams = True, ClientStreams = True\<rparr>)"
  by (simp_all add: method_of_def OrderManagement_ServiceDesc_def)

context service_registrar
begin

lemma order_dispatch:
  assumes "RegisterOrderManagementServer R srv r = (Return u, r')" and "CHR ''/'' \<notin> set m"
  shows "Dispatch R r' (''/order.OrderManagement/'' @ m) = map_option (\<lambda>d. (d, srv)) (method_of OrderManagement_ServiceDesc m)"
proof -
  have "full_method (ServiceName (OrderManagement_ServiceDesc :: ('b, 's) ServiceDesc)) m = ''/order.OrderManagement/'' @ m"
    by (simp add: full_method_def OrderManagement_ServiceDesc_def)
  with adds [OF _ assms(2), of OrderManagement_ServiceDesc srv r r'] assms(1) show ?thesis
    by (simp add: RegisterOrderManagementServer_def)
qed

lemma order_methods:
  assumes "RegisterOrderManagementServer R srv r = (Return u, r')"
  shows "map_option fst (Dispatch R r' ''/order.OrderManagement/addOrder'') = method_of OrderManagement_ServiceDesc ''addOrder''"
    and "map_option fst (Dispatch R r' ''/order.OrderManagement/getOrder'') = method_of OrderManagement_ServiceDesc ''getOrder''"
    and "map_option fst (Dispatch R r' ''/order.OrderManagement/searchOrders'') = method_of OrderManagement_ServiceDesc ''searchOrders''"
    and "map_option fst (Dispatch R r' ''/order.OrderManagement/updateOrders'') = method_of OrderManagement_ServiceDesc ''updateOrders''"
    and "map_option fst (Dispatch R r' ''/order.OrderManagement/processOrders'') = method_of OrderManagement_ServiceDesc ''processOrders''"
  using order_dispatch [OF assms, of "''addOrder''"] order_dispatch [OF assms, of "''getOrder''"]
    order_dispatch [OF assms, of "''searchOrders''"] order_dispatch [OF assms, of "''updateOrders''"]
    order_dispatch [OF assms, of "''processOrders''"]
  by (simp_all add: method_of_order)

end

lemma strict_simps [simp]:
  "RawSend (strict known C) = RawSend C" "RawRecv (strict known C) = RawRecv C" "CloseSend (strict known C) = CloseSend C"
  by (simp_all add: strict_def)

lemma strict_streams [simp]:
  "SendMsg (strict known C) = SendMsg C" "RecvMsg (strict known C) = RecvMsg C"
  by (simp_all add: fun_eq_iff SendMsg_def RecvMsg_def split: option.split)

lemma strict_stubs:
  "SearchOrdersClient_Recv (strict known C) = SearchOrdersClient_Recv C"
  "UpdateOrdersClient_Send (strict known C) = UpdateOrdersClient_Send C"
  "UpdateOrdersClient_CloseAndRecv (strict known C) = UpdateOrdersClient_CloseAndRecv C"
  "ProcessOrdersClient_Send (strict known C) = ProcessOrdersClient_Send C"
  "ProcessOrdersClient_Recv (strict known C) = ProcessOrdersClient_Recv C"
  by (simp_all add: fun_eq_iff SearchOrdersClient_Recv_def UpdateOrdersClient_Send_def
    UpdateOrdersClient_CloseAndRecv_def ProcessOrdersClient_Send_def ProcessOrdersClient_Recv_def cong: option.case_cong prod.case_cong)

lemma strict_wrappers:
  "searchOrdersClient (strict known C) = searchOrdersClient C"
  "updateOrdersClient (strict known C) = updateOrdersClient C"
  "processOrdersClient (strict known C) = processOrdersClient C"
  by (simp_all add: fun_eq_iff searchOrdersClient_def updateOrdersClient_def processOrdersClient_def strict_stubs)

lemma strict_known:
  "known method = Some (Unary_Method d) \<Longrightarrow> Invoke (strict known C) encode decode method = Invoke C encode decode method"
  "known method = Some (Stream_Method e) \<Longrightarrow> same_stream i e \<Longrightarrow> NewStream (strict known C) i method = NewStream C i method"
  by (auto simp: fun_eq_iff Invoke_def strict_def split: option.split)

section \<open>A registrar\<close>

text \<open>The services with their implementations; a name is cut at its last slash.\<close>

definition cut_method :: "string \<Rightarrow> string \<times> string" where
  "cut_method name =
     (let path = rev (if name \<noteq> [] \<and> hd name = CHR ''/'' then tl name else name)
      in (rev (tl (dropWhile (\<lambda>c. c \<noteq> CHR ''/'') path)), rev (takeWhile (\<lambda>c. c \<noteq> CHR ''/'') path)))"

definition list_registrar :: "('b, 's, (('b, 's) ServiceDesc \<times> 's server) list) ServiceRegistrar" where
  "list_registrar = \<lparr>
     NewServer = [],
     RegisterService = (\<lambda>D srv r.
       if ServiceName D \<in> set (map (ServiceName \<circ> fst) r)
       then (Panic ''grpc: Server.RegisterService found duplicate service registration'', r)
       else (Return (), (D, srv) # r)),
     Dispatch = (\<lambda>r name. case cut_method name of (S, m) \<Rightarrow>
       (case find (\<lambda>(D, srv). ServiceName D = S) r of
          None \<Rightarrow> None
        | Some (D, srv) \<Rightarrow> map_option (\<lambda>d. (d, srv)) (method_of D m)))\<rparr>"

lemma list_registrar_simps:
  "NewServer list_registrar = []"
  "RegisterOrderManagementServer list_registrar srv [] = (Return (), [(OrderManagement_ServiceDesc, srv)])"
  by (simp_all add: list_registrar_def RegisterOrderManagementServer_def)

lemma cut_full_method: "CHR ''/'' \<notin> set m \<Longrightarrow> cut_method (full_method S m) = (S, m)"
proof -
  assume "CHR ''/'' \<notin> set m"
  then have m: "\<forall>c\<in>set (rev m). c \<noteq> CHR ''/''" by auto
  have "dropWhile (\<lambda>c. c \<noteq> CHR ''/'') (rev m @ CHR ''/'' # rev S) = CHR ''/'' # rev S"
    and "takeWhile (\<lambda>c. c \<noteq> CHR ''/'') (rev m @ CHR ''/'' # rev S) = rev m"
    using dropWhile_append2 [of "rev m" "\<lambda>c. c \<noteq> CHR ''/''"] takeWhile_append2 [of "rev m" "\<lambda>c. c \<noteq> CHR ''/''"] m by simp_all
  then show ?thesis by (simp add: cut_method_def full_method_def Let_def)
qed

interpretation listed: service_registrar list_registrar
proof (unfold_locales, goal_cases)
  case (2 D srv r r' m)
  then show ?case by (auto simp: list_registrar_def cut_full_method split: if_splits)
next
  case (3 D srv r r' m S)
  then show ?case by (auto simp: list_registrar_def cut_full_method split: if_splits)
qed (auto simp: list_registrar_def split: if_splits)

section \<open>The property\<close>

text \<open>C23: The server program registers its service before it listens, and the client interface is made for
  exactly that: over a connection whose server refuses every method that is not registered, and every
  one called as another kind than it is registered as, all methods of the client and of its streams do
  what they do over the connection as it is; each name they call is dispatched to the implementation
  that was registered. The service cannot be registered a second time.\<close>

theorem client_calls_registered:
  fixes R :: "('b, orders, 'r) ServiceRegistrar" and C :: "('b, 'w) conn"
  assumes "service_registrar R"
  shows "case RegisterOrderManagementServer R srv (NewServer R) of
     (Panic e, r) \<Rightarrow> False
   | (Return _, r) \<Rightarrow>
       NewOrderManagementClient (strict (\<lambda>method. map_option fst (Dispatch R r method)) C) K = NewOrderManagementClient C K
       \<and> list_all (\<lambda>m. map_option snd (Dispatch R r (''/order.OrderManagement/'' @ m)) = Some srv) service_methods
       \<and> fst (RegisterOrderManagementServer R srv' r) \<noteq> Return ()
       \<and> server_main R Listen Serve srv w =
           (case Listen ''tcp'' '':9009'' w of
              (Inl err, w) \<Rightarrow> (Panic err, w)
            | (Inr lit, w) \<Rightarrow> (case Serve lit r w of (Some err, w) \<Rightarrow> (Panic err, w) | (None, w) \<Rightarrow> (Return (), w)))"
proof -
  obtain r where r: "RegisterOrderManagementServer R srv (NewServer R) = (Return (), r)"
    using service_registrar.fresh [OF assms] by (metis RegisterOrderManagementServer_def prod.collapse)
  let ?C = "strict (\<lambda>method. map_option fst (Dispatch R r method)) C"
  note known = service_registrar.order_methods [OF assms r, unfolded method_of_order]
  have "same_stream 0 \<lparr>StreamName = ''searchOrders'', StreamHandler = OrderManagement_SearchOrders_Handler, ServerStreams = True, ClientStreams = False\<rparr>"
    "same_stream 1 \<lparr>StreamName = ''updateOrders'', StreamHandler = OrderManagement_UpdateOrders_Handler, ServerStreams = False, ClientStreams = True\<rparr>"
    "same_stream 2 \<lparr>StreamName = ''processOrders'', StreamHandler = OrderManagement_ProcessOrders_Handler, ServerStreams = True, ClientStreams = True\<rparr>"
    by (simp_all add: same_stream_def OrderManagement_ServiceDesc_def)
  note stubs = strict_known(1) [where known = "\<lambda>method. map_option fst (Dispatch R r method)", OF known(1)]
    strict_known(1) [where known = "\<lambda>method. map_option fst (Dispatch R r method)", OF known(2)]
    strict_known(2) [where known = "\<lambda>method. map_option fst (Dispatch R r method)", OF known(3) this(1)]
    strict_known(2) [where known = "\<lambda>method. map_option fst (Dispatch R r method)", OF known(4) this(2)]
    strict_known(2) [where known = "\<lambda>method. map_option fst (Dispatch R r method)", OF known(5) this(3)]
  have "client_AddOrder ?C K = client_AddOrder C K" "client_GetOrder ?C K = client_GetOrder C K"
    "client_SearchOrders ?C K = client_SearchOrders C K" "client_UpdateOrders ?C = client_UpdateOrders C"
    "client_ProcessOrders ?C = client_ProcessOrders C"
    by (simp_all only: fun_eq_iff client_AddOrder_def client_GetOrder_def client_SearchOrders_def client_UpdateOrders_def
      client_ProcessOrders_def stubs strict_simps strict_streams refl simp_thms)
  then have "NewOrderManagementClient ?C K = NewOrderManagementClient C K"
    by (simp add: NewOrderManagementClient_def strict_wrappers)
  moreover have "list_all (\<lambda>m. map_option snd (Dispatch R r (''/order.OrderManagement/'' @ m)) = Some srv) service_methods"
    using service_registrar.order_dispatch [OF assms r] by (simp add: service_methods_def method_of_order)
  moreover have "fst (RegisterOrderManagementServer R srv' r) \<noteq> Return ()"
    using service_registrar.twice [OF assms, of OrderManagement_ServiceDesc srv "NewServer R" r OrderManagement_ServiceDesc srv'] r
    by (auto simp: RegisterOrderManagementServer_def)
  ultimately show ?thesis by (simp add: r server_main_def)
qed

theorem client_calls_registered_witness:
  "case RegisterOrderManagementServer list_registrar demo_server [] of
     (Panic e, r) \<Rightarrow> False
   | (Return _, r) \<Rightarrow>
       NewOrderManagementClient (strict (\<lambda>method. map_option fst (Dispatch list_registrar r method)) (loopback demo_server))
         proto_codec = NewOrderManagementClient (loopback demo_server) proto_codec
       \<and> list_all (\<lambda>m. map_option snd (Dispatch list_registrar r (''/order.OrderManagement/'' @ m)) = Some demo_server)
           service_methods
       \<and> fst (RegisterOrderManagementServer list_registrar demo_server r) \<noteq> Return ()
       \<and> server_main (list_registrar :: (string, orders, _) ServiceRegistrar) (\<lambda>_ _ w. (Inr w, w)) (\<lambda>lit r w. (Some ''closed'', w)) demo_server (0 :: nat)
           = (Panic ''closed'', 0)"
  using client_calls_registered [OF listed.service_registrar_axioms, where srv = demo_server and srv' = demo_server
      and C = "loopback demo_server" and K = proto_codec
      and Listen = "\<lambda>_ _ w. (Inr w, w)" and Serve = "\<lambda>lit r w. (Some ''closed'', w)" and w = "0 :: nat"]
  by (simp add: list_registrar_simps)

end
