(* ===== verification/Order_Descriptor.thy ===== *)
theory Order_Descriptor
  imports Order_Grpc
begin

text \<open>
  The reflection part of \<^verbatim>\<open>dev/grpc/basic/order/order.pb.go\<close>: the file descriptor embedded as bytes,
  the tables of Go types and of dependencies beside it, and the start-up code that hands them to the
  protobuf runtime. A descriptor is itself a protobuf message: it is read here with the wire format of
  \<open>Proto_Wire\<close> and the field numbers of protobuf's \<^verbatim>\<open>descriptor.proto\<close>.
\<close>

section \<open>The embedded descriptor\<close>

definition file_order_proto_rawDesc :: string where
  "file_order_proto_rawDesc =
     [
      CHR 0x0A, CHR 0x0B, CHR 0x6F, CHR 0x72, CHR 0x64, CHR 0x65, CHR 0x72, CHR 0x2E, CHR 0x70, CHR 0x72, CHR 0x6F, CHR 0x74, CHR 0x6F, CHR 0x12, CHR 0x05, CHR 0x6F,
      CHR 0x72, CHR 0x64, CHR 0x65, CHR 0x72, CHR 0x1A, CHR 0x1E, CHR 0x67, CHR 0x6F, CHR 0x6F, CHR 0x67, CHR 0x6C, CHR 0x65, CHR 0x2F, CHR 0x70, CHR 0x72, CHR 0x6F,
      CHR 0x74, CHR 0x6F, CHR 0x62, CHR 0x75, CHR 0x66, CHR 0x2F, CHR 0x77, CHR 0x72, CHR 0x61, CHR 0x70, CHR 0x70, CHR 0x65, CHR 0x72, CHR 0x73, CHR 0x2E, CHR 0x70,
      CHR 0x72, CHR 0x6F, CHR 0x74, CHR 0x6F, CHR 0x1A, CHR 0x1F, CHR 0x67, CHR 0x6F, CHR 0x6F, CHR 0x67, CHR 0x6C, CHR 0x65, CHR 0x2F, CHR 0x70, CHR 0x72, CHR 0x6F,
      CHR 0x74, CHR 0x6F, CHR 0x62, CHR 0x75, CHR 0x66, CHR 0x2F, CHR 0x74, CHR 0x69, CHR 0x6D, CHR 0x65, CHR 0x73, CHR 0x74, CHR 0x61, CHR 0x6D, CHR 0x70, CHR 0x2E,
      CHR 0x70, CHR 0x72, CHR 0x6F, CHR 0x74, CHR 0x6F, CHR 0x22, CHR 0xCE, CHR 0x02, CHR 0x0A, CHR 0x05, CHR 0x4F, CHR 0x72, CHR 0x64, CHR 0x65, CHR 0x72, CHR 0x12,
      CHR 0x0E, CHR 0x0A, CHR 0x02, CHR 0x69, CHR 0x64, CHR 0x18, CHR 0x01, CHR 0x20, CHR 0x01, CHR 0x28, CHR 0x09, CHR 0x52, CHR 0x02, CHR 0x69, CHR 0x64, CHR 0x12,
      CHR 0x14, CHR 0x0A, CHR 0x05, CHR 0x69, CHR 0x74, CHR 0x65, CHR 0x6D, CHR 0x73, CHR 0x18, CHR 0x02, CHR 0x20, CHR 0x03, CHR 0x28, CHR 0x09, CHR 0x52, CHR 0x05,
      CHR 0x69, CHR 0x74, CHR 0x65, CHR 0x6D, CHR 0x73, CHR 0x12, CHR 0x20, CHR 0x0A, CHR 0x0B, CHR 0x64, CHR 0x65, CHR 0x73, CHR 0x63, CHR 0x72, CHR 0x69, CHR 0x70,
      CHR 0x74, CHR 0x69, CHR 0x6F, CHR 0x6E, CHR 0x18, CHR 0x03, CHR 0x20, CHR 0x01, CHR 0x28, CHR 0x09, CHR 0x52, CHR 0x0B, CHR 0x64, CHR 0x65, CHR 0x73, CHR 0x63,
      CHR 0x72, CHR 0x69, CHR 0x70, CHR 0x74, CHR 0x69, CHR 0x6F, CHR 0x6E, CHR 0x12, CHR 0x14, CHR 0x0A, CHR 0x05, CHR 0x70, CHR 0x72, CHR 0x69, CHR 0x63, CHR 0x65,
      CHR 0x18, CHR 0x04, CHR 0x20, CHR 0x01, CHR 0x28, CHR 0x02, CHR 0x52, CHR 0x05, CHR 0x70, CHR 0x72, CHR 0x69, CHR 0x63, CHR 0x65, CHR 0x12, CHR 0x32, CHR 0x0A,
      CHR 0x09, CHR 0x61, CHR 0x64, CHR 0x64, CHR 0x72, CHR 0x65, CHR 0x73, CHR 0x73, CHR 0x65, CHR 0x73, CHR 0x18, CHR 0x05, CHR 0x20, CHR 0x03, CHR 0x28, CHR 0x0B,
      CHR 0x32, CHR 0x14, CHR 0x2E, CHR 0x6F, CHR 0x72, CHR 0x64, CHR 0x65, CHR 0x72, CHR 0x2E, CHR 0x4F, CHR 0x72, CHR 0x64, CHR 0x65, CHR 0x72, CHR 0x2E, CHR 0x41,
      CHR 0x64, CHR 0x64, CHR 0x72, CHR 0x65, CHR 0x73, CHR 0x73, CHR 0x52, CHR 0x09, CHR 0x61, CHR 0x64, CHR 0x64, CHR 0x72, CHR 0x65, CHR 0x73, CHR 0x73, CHR 0x65,
      CHR 0x73, CHR 0x12, CHR 0x3D, CHR 0x0A, CHR 0x0C, CHR 0x6C, CHR 0x61, CHR 0x73, CHR 0x74, CHR 0x5F, CHR 0x75, CHR 0x70, CHR 0x64, CHR 0x61, CHR 0x74, CHR 0x65,
      CHR 0x64, CHR 0x18, CHR 0x06, CHR 0x20, CHR 0x01, CHR 0x28, CHR 0x0B, CHR 0x32, CHR 0x1A, CHR 0x2E, CHR 0x67, CHR 0x6F, CHR 0x6F, CHR 0x67, CHR 0x6C, CHR 0x65,
      CHR 0x2E, CHR 0x70, CHR 0x72, CHR 0x6F, CHR 0x74, CHR 0x6F, CHR 0x62, CHR 0x75, CHR 0x66, CHR 0x2E, CHR 0x54, CHR 0x69, CHR 0x6D, CHR 0x65, CHR 0x73, CHR 0x74,
      CHR 0x61, CHR 0x6D, CHR 0x70, CHR 0x52, CHR 0x0B, CHR 0x6C, CHR 0x61, CHR 0x73, CHR 0x74, CHR 0x55, CHR 0x70, CHR 0x64, CHR 0x61, CHR 0x74, CHR 0x65, CHR 0x64,
      CHR 0x1A, CHR 0x51, CHR 0x0A, CHR 0x07, CHR 0x41, CHR 0x64, CHR 0x64, CHR 0x72, CHR 0x65, CHR 0x73, CHR 0x73, CHR 0x12, CHR 0x18, CHR 0x0A, CHR 0x07, CHR 0x61,
      CHR 0x64, CHR 0x64, CHR 0x72, CHR 0x65, CHR 0x73, CHR 0x73, CHR 0x18, CHR 0x01, CHR 0x20, CHR 0x01, CHR 0x28, CHR 0x09, CHR 0x52, CHR 0x07, CHR 0x61, CHR 0x64,
      CHR 0x64, CHR 0x72, CHR 0x65, CHR 0x73, CHR 0x73, CHR 0x12, CHR 0x2C, CHR 0x0A, CHR 0x04, CHR 0x74, CHR 0x79, CHR 0x70, CHR 0x65, CHR 0x18, CHR 0x02, CHR 0x20,
      CHR 0x01, CHR 0x28, CHR 0x0E, CHR 0x32, CHR 0x18, CHR 0x2E, CHR 0x6F, CHR 0x72, CHR 0x64, CHR 0x65, CHR 0x72, CHR 0x2E, CHR 0x4F, CHR 0x72, CHR 0x64, CHR 0x65,
      CHR 0x72, CHR 0x2E, CHR 0x41, CHR 0x64, CHR 0x64, CHR 0x72, CHR 0x65, CHR 0x73, CHR 0x73, CHR 0x54, CHR 0x79, CHR 0x70, CHR 0x65, CHR 0x52, CHR 0x04, CHR 0x74,
      CHR 0x79, CHR 0x70, CHR 0x65, CHR 0x22, CHR 0x21, CHR 0x0A, CHR 0x0B, CHR 0x41, CHR 0x64, CHR 0x64, CHR 0x72, CHR 0x65, CHR 0x73, CHR 0x73, CHR 0x54, CHR 0x79,
      CHR 0x70, CHR 0x65, CHR 0x12, CHR 0x08, CHR 0x0A, CHR 0x04, CHR 0x48, CHR 0x4F, CHR 0x4D, CHR 0x45, CHR 0x10, CHR 0x00, CHR 0x12, CHR 0x08, CHR 0x0A, CHR 0x04,
      CHR 0x57, CHR 0x4F, CHR 0x52, CHR 0x4B, CHR 0x10, CHR 0x01, CHR 0x22, CHR 0x66, CHR 0x0A, CHR 0x10, CHR 0x43, CHR 0x6F, CHR 0x6D, CHR 0x62, CHR 0x69, CHR 0x6E,
      CHR 0x65, CHR 0x64, CHR 0x53, CHR 0x68, CHR 0x69, CHR 0x70, CHR 0x6D, CHR 0x65, CHR 0x6E, CHR 0x74, CHR 0x12, CHR 0x0E, CHR 0x0A, CHR 0x02, CHR 0x69, CHR 0x64,
      CHR 0x18, CHR 0x01, CHR 0x20, CHR 0x01, CHR 0x28, CHR 0x09, CHR 0x52, CHR 0x02, CHR 0x69, CHR 0x64, CHR 0x12, CHR 0x16, CHR 0x0A, CHR 0x06, CHR 0x73, CHR 0x74,
      CHR 0x61, CHR 0x74, CHR 0x75, CHR 0x73, CHR 0x18, CHR 0x02, CHR 0x20, CHR 0x01, CHR 0x28, CHR 0x09, CHR 0x52, CHR 0x06, CHR 0x73, CHR 0x74, CHR 0x61, CHR 0x74,
      CHR 0x75, CHR 0x73, CHR 0x12, CHR 0x2A, CHR 0x0A, CHR 0x09, CHR 0x6F, CHR 0x72, CHR 0x64, CHR 0x65, CHR 0x72, CHR 0x4C, CHR 0x69, CHR 0x73, CHR 0x74, CHR 0x18,
      CHR 0x03, CHR 0x20, CHR 0x03, CHR 0x28, CHR 0x0B, CHR 0x32, CHR 0x0C, CHR 0x2E, CHR 0x6F, CHR 0x72, CHR 0x64, CHR 0x65, CHR 0x72, CHR 0x2E, CHR 0x4F, CHR 0x72,
      CHR 0x64, CHR 0x65, CHR 0x72, CHR 0x52, CHR 0x09, CHR 0x6F, CHR 0x72, CHR 0x64, CHR 0x65, CHR 0x72, CHR 0x4C, CHR 0x69, CHR 0x73, CHR 0x74, CHR 0x32, CHR 0xC9,
      CHR 0x02, CHR 0x0A, CHR 0x0F, CHR 0x4F, CHR 0x72, CHR 0x64, CHR 0x65, CHR 0x72, CHR 0x4D, CHR 0x61, CHR 0x6E, CHR 0x61, CHR 0x67, CHR 0x65, CHR 0x6D, CHR 0x65,
      CHR 0x6E, CHR 0x74, CHR 0x12, CHR 0x36, CHR 0x0A, CHR 0x08, CHR 0x61, CHR 0x64, CHR 0x64, CHR 0x4F, CHR 0x72, CHR 0x64, CHR 0x65, CHR 0x72, CHR 0x12, CHR 0x0C,
      CHR 0x2E, CHR 0x6F, CHR 0x72, CHR 0x64, CHR 0x65, CHR 0x72, CHR 0x2E, CHR 0x4F, CHR 0x72, CHR 0x64, CHR 0x65, CHR 0x72, CHR 0x1A, CHR 0x1C, CHR 0x2E, CHR 0x67,
      CHR 0x6F, CHR 0x6F, CHR 0x67, CHR 0x6C, CHR 0x65, CHR 0x2E, CHR 0x70, CHR 0x72, CHR 0x6F, CHR 0x74, CHR 0x6F, CHR 0x62, CHR 0x75, CHR 0x66, CHR 0x2E, CHR 0x53,
      CHR 0x74, CHR 0x72, CHR 0x69, CHR 0x6E, CHR 0x67, CHR 0x56, CHR 0x61, CHR 0x6C, CHR 0x75, CHR 0x65, CHR 0x12, CHR 0x36, CHR 0x0A, CHR 0x08, CHR 0x67, CHR 0x65,
      CHR 0x74, CHR 0x4F, CHR 0x72, CHR 0x64, CHR 0x65, CHR 0x72, CHR 0x12, CHR 0x1C, CHR 0x2E, CHR 0x67, CHR 0x6F, CHR 0x6F, CHR 0x67, CHR 0x6C, CHR 0x65, CHR 0x2E,
      CHR 0x70, CHR 0x72, CHR 0x6F, CHR 0x74, CHR 0x6F, CHR 0x62, CHR 0x75, CHR 0x66, CHR 0x2E, CHR 0x53, CHR 0x74, CHR 0x72, CHR 0x69, CHR 0x6E, CHR 0x67, CHR 0x56,
      CHR 0x61, CHR 0x6C, CHR 0x75, CHR 0x65, CHR 0x1A, CHR 0x0C, CHR 0x2E, CHR 0x6F, CHR 0x72, CHR 0x64, CHR 0x65, CHR 0x72, CHR 0x2E, CHR 0x4F, CHR 0x72, CHR 0x64,
      CHR 0x65, CHR 0x72, CHR 0x12, CHR 0x3C, CHR 0x0A, CHR 0x0C, CHR 0x73, CHR 0x65, CHR 0x61, CHR 0x72, CHR 0x63, CHR 0x68, CHR 0x4F, CHR 0x72, CHR 0x64, CHR 0x65,
      CHR 0x72, CHR 0x73, CHR 0x12, CHR 0x1C, CHR 0x2E, CHR 0x67, CHR 0x6F, CHR 0x6F, CHR 0x67, CHR 0x6C, CHR 0x65, CHR 0x2E, CHR 0x70, CHR 0x72, CHR 0x6F, CHR 0x74,
      CHR 0x6F, CHR 0x62, CHR 0x75, CHR 0x66, CHR 0x2E, CHR 0x53, CHR 0x74, CHR 0x72, CHR 0x69, CHR 0x6E, CHR 0x67, CHR 0x56, CHR 0x61, CHR 0x6C, CHR 0x75, CHR 0x65,
      CHR 0x1A, CHR 0x0C, CHR 0x2E, CHR 0x6F, CHR 0x72, CHR 0x64, CHR 0x65, CHR 0x72, CHR 0x2E, CHR 0x4F, CHR 0x72, CHR 0x64, CHR 0x65, CHR 0x72, CHR 0x30, CHR 0x01,
      CHR 0x12, CHR 0x3C, CHR 0x0A, CHR 0x0C, CHR 0x75, CHR 0x70, CHR 0x64, CHR 0x61, CHR 0x74, CHR 0x65, CHR 0x4F, CHR 0x72, CHR 0x64, CHR 0x65, CHR 0x72, CHR 0x73,
      CHR 0x12, CHR 0x0C, CHR 0x2E, CHR 0x6F, CHR 0x72, CHR 0x64, CHR 0x65, CHR 0x72, CHR 0x2E, CHR 0x4F, CHR 0x72, CHR 0x64, CHR 0x65, CHR 0x72, CHR 0x1A, CHR 0x1C,
      CHR 0x2E, CHR 0x67, CHR 0x6F, CHR 0x6F, CHR 0x67, CHR 0x6C, CHR 0x65, CHR 0x2E, CHR 0x70, CHR 0x72, CHR 0x6F, CHR 0x74, CHR 0x6F, CHR 0x62, CHR 0x75, CHR 0x66,
      CHR 0x2E, CHR 0x53, CHR 0x74, CHR 0x72, CHR 0x69, CHR 0x6E, CHR 0x67, CHR 0x56, CHR 0x61, CHR 0x6C, CHR 0x75, CHR 0x65, CHR 0x28, CHR 0x01, CHR 0x12, CHR 0x4A,
      CHR 0x0A, CHR 0x0D, CHR 0x70, CHR 0x72, CHR 0x6F, CHR 0x63, CHR 0x65, CHR 0x73, CHR 0x73, CHR 0x4F, CHR 0x72, CHR 0x64, CHR 0x65, CHR 0x72, CHR 0x73, CHR 0x12,
      CHR 0x1C, CHR 0x2E, CHR 0x67, CHR 0x6F, CHR 0x6F, CHR 0x67, CHR 0x6C, CHR 0x65, CHR 0x2E, CHR 0x70, CHR 0x72, CHR 0x6F, CHR 0x74, CHR 0x6F, CHR 0x62, CHR 0x75,
      CHR 0x66, CHR 0x2E, CHR 0x53, CHR 0x74, CHR 0x72, CHR 0x69, CHR 0x6E, CHR 0x67, CHR 0x56, CHR 0x61, CHR 0x6C, CHR 0x75, CHR 0x65, CHR 0x1A, CHR 0x17, CHR 0x2E,
      CHR 0x6F, CHR 0x72, CHR 0x64, CHR 0x65, CHR 0x72, CHR 0x2E, CHR 0x43, CHR 0x6F, CHR 0x6D, CHR 0x62, CHR 0x69, CHR 0x6E, CHR 0x65, CHR 0x64, CHR 0x53, CHR 0x68,
      CHR 0x69, CHR 0x70, CHR 0x6D, CHR 0x65, CHR 0x6E, CHR 0x74, CHR 0x28, CHR 0x01, CHR 0x30, CHR 0x01, CHR 0x42, CHR 0x0A, CHR 0x50, CHR 0x01, CHR 0x5A, CHR 0x06,
      CHR 0x6F, CHR 0x72, CHR 0x64, CHR 0x65, CHR 0x72, CHR 0x2F, CHR 0x62, CHR 0x06, CHR 0x70, CHR 0x72, CHR 0x6F, CHR 0x74, CHR 0x6F, CHR 0x33
     ]"

section \<open>Reading a descriptor\<close>

record field_desc =
  fd_name :: string
  fd_number :: nat
  fd_label :: nat
  fd_type :: nat
  fd_type_name :: string

record enum_desc =
  ed_name :: string
  ed_values :: "(string \<times> nat) list"

datatype message_desc = Message_Desc (md_name: string) (md_fields: "field_desc list")
  (md_nested: "message_desc list") (md_enums: "enum_desc list")

record method_desc =
  mt_name :: string
  mt_input :: string
  mt_output :: string
  mt_client_streaming :: bool
  mt_server_streaming :: bool

record file_desc =
  file_name :: string
  file_package :: string
  file_messages :: "message_desc list"
  file_service :: "(string \<times> method_desc list) list"
  file_syntax :: string

text \<open>The last string or number under a field number, and all messages under it.\<close>

definition string_at :: "nat \<Rightarrow> field list \<Rightarrow> string" where
  "string_at n fs = fold (\<lambda>f s. case f of (k, Bytes b) \<Rightarrow> if k = n then b else s | _ \<Rightarrow> s) fs ''''"

definition number_at :: "nat \<Rightarrow> field list \<Rightarrow> nat" where
  "number_at n fs = fold (\<lambda>f v. case f of (k, Varint w) \<Rightarrow> if k = n then unat w else v | _ \<Rightarrow> v) fs 0"

definition bytes_at :: "nat \<Rightarrow> field list \<Rightarrow> string list" where
  "bytes_at n fs = concat (map (\<lambda>f. case f of (k, Bytes b) \<Rightarrow> if k = n then [b] else [] | _ \<Rightarrow> []) fs)"

fun read_all :: "(field list \<Rightarrow> 'a option) \<Rightarrow> string list \<Rightarrow> 'a list option" where
  "read_all f [] = Some []"
| "read_all f (b # bs) =
     (case Option.bind (parse_fields b) f of
        None \<Rightarrow> None
      | Some x \<Rightarrow> map_option (Cons x) (read_all f bs))"

definition read_field :: "field list \<Rightarrow> field_desc option" where
  "read_field fs = Some \<lparr>fd_name = string_at 1 fs, fd_number = number_at 3 fs, fd_label = number_at 4 fs,
     fd_type = number_at 5 fs, fd_type_name = string_at 6 fs\<rparr>"

definition read_value :: "field list \<Rightarrow> (string \<times> nat) option" where
  "read_value fs = Some (string_at 1 fs, number_at 2 fs)"

definition read_enum :: "field list \<Rightarrow> enum_desc option" where
  "read_enum fs =
     map_option (\<lambda>vs. \<lparr>ed_name = string_at 1 fs, ed_values = vs\<rparr>)
       (read_all read_value (bytes_at 2 fs))"

text \<open>Messages nest; the argument bounds the depth that is read.\<close>

fun read_message :: "nat \<Rightarrow> field list \<Rightarrow> message_desc option" where
  "read_message 0 fs = None"
| "read_message (Suc d) fs =
     (case (read_all read_field (bytes_at 2 fs), read_all (read_message d) (bytes_at 3 fs), read_all read_enum (bytes_at 4 fs)) of
        (Some fds, Some ms, Some es) \<Rightarrow> Some (Message_Desc (string_at 1 fs) fds ms es)
      | _ \<Rightarrow> None)"

definition read_method :: "field list \<Rightarrow> method_desc option" where
  "read_method fs = Some \<lparr>mt_name = string_at 1 fs, mt_input = string_at 2 fs, mt_output = string_at 3 fs,
     mt_client_streaming = (number_at 5 fs = 1), mt_server_streaming = (number_at 6 fs = 1)\<rparr>"

definition read_service :: "field list \<Rightarrow> (string \<times> method_desc list) option" where
  "read_service fs = map_option (\<lambda>ms. (string_at 1 fs, ms)) (read_all read_method (bytes_at 2 fs))"

definition read_file :: "string \<Rightarrow> file_desc option" where
  "read_file raw =
     (case parse_fields raw of
        None \<Rightarrow> None
      | Some fs \<Rightarrow>
          (case (read_all (read_message 2) (bytes_at 4 fs), read_all read_service (bytes_at 6 fs)) of
             (Some ms, Some ss) \<Rightarrow>
               Some \<lparr>file_name = string_at 1 fs, file_package = string_at 2 fs, file_messages = ms,
                 file_service = ss, file_syntax = string_at 12 fs\<rparr>
           | _ \<Rightarrow> None))"

section \<open>What the bytes say\<close>

text \<open>
  The same descriptor written out, field by field; json names repeat or camel-case the field's. That it
  encodes to the embedded bytes is checked by evaluation, and the round trip of the wire format then
  gives what reading the bytes yields.
\<close>

definition field_fields :: "string \<Rightarrow> nat \<Rightarrow> nat \<Rightarrow> nat \<Rightarrow> string \<Rightarrow> string \<Rightarrow> field list" where
  "field_fields name num lab ty ref json =
     [(1, Bytes name), (3, Varint (word_of_nat num)), (4, Varint (word_of_nat lab)), (5, Varint (word_of_nat ty))]
     @ string_field 6 ref @ [(10, Bytes json)]"

definition value_fields :: "string \<Rightarrow> nat \<Rightarrow> field list" where
  "value_fields name num = [(1, Bytes name), (2, Varint (word_of_nat num))]"

definition streaming_fields :: "bool \<Rightarrow> bool \<Rightarrow> field list" where
  "streaming_fields cs ss = (if cs then [(5, Varint 1)] else []) @ (if ss then [(6, Varint 1)] else [])"

definition method_fields :: "string \<Rightarrow> string \<Rightarrow> string \<Rightarrow> bool \<Rightarrow> bool \<Rightarrow> field list" where
  "method_fields name inp out cs ss = [(1, Bytes name), (2, Bytes inp), (3, Bytes out)] @ streaming_fields cs ss"

abbreviation described_field :: "string \<Rightarrow> nat \<Rightarrow> nat \<Rightarrow> nat \<Rightarrow> string \<Rightarrow> string \<Rightarrow> field" where
  "described_field name num lab ty ref json \<equiv> (2, Bytes (encode_fields (field_fields name num lab ty ref json)))"

abbreviation described_value :: "string \<Rightarrow> nat \<Rightarrow> field" where
  "described_value name num \<equiv> (2, Bytes (encode_fields (value_fields name num)))"

abbreviation described_method :: "string \<Rightarrow> string \<Rightarrow> string \<Rightarrow> bool \<Rightarrow> bool \<Rightarrow> field" where
  "described_method name inp out cs ss \<equiv> (2, Bytes (encode_fields (method_fields name inp out cs ss)))"

definition described_address :: "field list" where
  "described_address =
     [(1, Bytes ''Address''), described_field ''address'' 1 1 9 '''' ''address'',
      described_field ''type'' 2 1 14 ''.order.Order.AddressType'' ''type'']"

definition described_address_type :: "field list" where
  "described_address_type = [(1, Bytes ''AddressType''), described_value ''HOME'' 0, described_value ''WORK'' 1]"

definition described_order :: "field list" where
  "described_order =
     [(1, Bytes ''Order''),
      described_field ''id'' 1 1 9 '''' ''id'', described_field ''items'' 2 3 9 '''' ''items'',
      described_field ''description'' 3 1 9 '''' ''description'', described_field ''price'' 4 1 2 '''' ''price'',
      described_field ''addresses'' 5 3 11 ''.order.Order.Address'' ''addresses'',
      described_field ''last_updated'' 6 1 11 ''.google.protobuf.Timestamp'' ''lastUpdated'',
      (3, Bytes (encode_fields described_address)), (4, Bytes (encode_fields described_address_type))]"

definition described_shipment :: "field list" where
  "described_shipment =
     [(1, Bytes ''CombinedShipment''),
      described_field ''id'' 1 1 9 '''' ''id'', described_field ''status'' 2 1 9 '''' ''status'',
      described_field ''orderList'' 3 3 11 ''.order.Order'' ''orderList'']"

definition described_service :: "field list" where
  "described_service =
     [(1, Bytes ''OrderManagement''),
      described_method ''addOrder'' ''.order.Order'' ''.google.protobuf.StringValue'' False False,
      described_method ''getOrder'' ''.google.protobuf.StringValue'' ''.order.Order'' False False,
      described_method ''searchOrders'' ''.google.protobuf.StringValue'' ''.order.Order'' False True,
      described_method ''updateOrders'' ''.order.Order'' ''.google.protobuf.StringValue'' True False,
      described_method ''processOrders'' ''.google.protobuf.StringValue'' ''.order.CombinedShipment'' True True]"

definition described_file :: "field list" where
  "described_file =
     [(1, Bytes ''order.proto''), (2, Bytes ''order''),
      (3, Bytes ''google/protobuf/wrappers.proto''), (3, Bytes ''google/protobuf/timestamp.proto''),
      (4, Bytes (encode_fields described_order)), (4, Bytes (encode_fields described_shipment)),
      (6, Bytes (encode_fields described_service)),
      (8, Bytes (encode_fields [(10, Varint 1), (11, Bytes ''order/'')])),
      (12, Bytes ''proto3'')]"

lemmas described_defs = field_fields_def value_fields_def method_fields_def streaming_fields_def described_address_def
  described_address_type_def described_order_def described_shipment_def described_service_def described_file_def

lemma rawDesc_described: "file_order_proto_rawDesc = encode_fields described_file"
  by (simp add: file_order_proto_rawDesc_def described_defs encode_field_def varint.simps string_field_def) code_simp

lemma parse_described:
  "parse_fields (encode_fields described_file) = Some described_file"
  "parse_fields (encode_fields described_order) = Some described_order"
  "parse_fields (encode_fields described_shipment) = Some described_shipment"
  "parse_fields (encode_fields described_address) = Some described_address"
  "parse_fields (encode_fields described_address_type) = Some described_address_type"
  "parse_fields (encode_fields described_service) = Some described_service"
  by (rule parse_small; simp add: described_defs encode_field_def varint.simps string_field_def field_number_ok_def)+

lemma encoded_length:
  "length (encode_field (n, Bytes s)) \<le> 20 + length s" if "n < 2 ^ 29" "length s < 2 ^ 64" for n s
  using length_varint [of "n * 8 + 2" 9] length_varint [of "length s" 9] that by (simp add: encode_field_def)

lemma encoded_length_Varint: "n < 2 ^ 29 \<Longrightarrow> length (encode_field (n, Varint v)) \<le> 20"
  using length_varint [of "n * 8" 9] length_varint [of "unat v" 9] unat_less_2_64 [of v] by (simp add: encode_field_def)

lemma parse_field_fields:
  assumes "length name < 100" "length ref < 100" "length json < 100"
  shows "parse_fields (encode_fields (field_fields name num lab ty ref json)) = Some (field_fields name num lab ty ref json)"
proof (rule parse_small)
  show "length (encode_fields (field_fields name num lab ty ref json)) < 2 ^ 64"
    using encoded_length [of 1 name] encoded_length [of 6 ref] encoded_length [of 10 json] assms
      encoded_length_Varint [of 3 "word_of_nat num"] encoded_length_Varint [of 4 "word_of_nat lab"]
      encoded_length_Varint [of 5 "word_of_nat ty"]
    by (simp add: field_fields_def string_field_def)
qed (simp add: field_fields_def field_number_ok_def)

lemma parse_value_fields:
  "length name < 100 \<Longrightarrow> parse_fields (encode_fields (value_fields name num)) = Some (value_fields name num)"
  using encoded_length [of 1 name] encoded_length_Varint [of 2 "word_of_nat num"]
  by (intro parse_small) (simp_all add: value_fields_def)

lemma streaming_fields_small: "length (encode_fields (streaming_fields cs ss)) < 100" "numbers_ok (streaming_fields cs ss)"
  using encoded_length_Varint [of 5 1] encoded_length_Varint [of 6 1] by (simp_all add: streaming_fields_def)

lemma parse_method_fields:
  assumes "length name < 100" "length inp < 100" "length out < 100"
  shows "parse_fields (encode_fields (method_fields name inp out cs ss)) = Some (method_fields name inp out cs ss)"
  using assms encoded_length [of 1 name] encoded_length [of 2 inp] encoded_length [of 3 out] streaming_fields_small [of cs ss]
  by (intro parse_small) (simp_all add: method_fields_def)

text \<open>The descriptor that the bytes hold: the file \<^verbatim>\<open>order.proto\<close>.\<close>

abbreviation plain_field :: "string \<Rightarrow> nat \<Rightarrow> nat \<Rightarrow> nat \<Rightarrow> string \<Rightarrow> field_desc" where
  "plain_field name num lab ty ref \<equiv> \<lparr>fd_name = name, fd_number = num, fd_label = lab, fd_type = ty, fd_type_name = ref\<rparr>"

definition order_proto_messages :: "message_desc list" where
  "order_proto_messages =
     [Message_Desc ''Order''
        [plain_field ''id'' 1 1 9 '''', plain_field ''items'' 2 3 9 '''', plain_field ''description'' 3 1 9 '''',
         plain_field ''price'' 4 1 2 '''', plain_field ''addresses'' 5 3 11 ''.order.Order.Address'',
         plain_field ''last_updated'' 6 1 11 ''.google.protobuf.Timestamp'']
        [Message_Desc ''Address''
           [plain_field ''address'' 1 1 9 '''', plain_field ''type'' 2 1 14 ''.order.Order.AddressType''] [] []]
        [\<lparr>ed_name = ''AddressType'', ed_values = [(''HOME'', 0), (''WORK'', 1)]\<rparr>],
      Message_Desc ''CombinedShipment''
        [plain_field ''id'' 1 1 9 '''', plain_field ''status'' 2 1 9 '''', plain_field ''orderList'' 3 3 11 ''.order.Order''] [] []]"

definition order_proto_service :: "(string \<times> method_desc list) list" where
  "order_proto_service =
     [(''OrderManagement'',
       [\<lparr>mt_name = ''addOrder'', mt_input = ''.order.Order'', mt_output = ''.google.protobuf.StringValue'',
          mt_client_streaming = False, mt_server_streaming = False\<rparr>,
        \<lparr>mt_name = ''getOrder'', mt_input = ''.google.protobuf.StringValue'', mt_output = ''.order.Order'',
          mt_client_streaming = False, mt_server_streaming = False\<rparr>,
        \<lparr>mt_name = ''searchOrders'', mt_input = ''.google.protobuf.StringValue'', mt_output = ''.order.Order'',
          mt_client_streaming = False, mt_server_streaming = True\<rparr>,
        \<lparr>mt_name = ''updateOrders'', mt_input = ''.order.Order'', mt_output = ''.google.protobuf.StringValue'',
          mt_client_streaming = True, mt_server_streaming = False\<rparr>,
        \<lparr>mt_name = ''processOrders'', mt_input = ''.google.protobuf.StringValue'', mt_output = ''.order.CombinedShipment'',
          mt_client_streaming = True, mt_server_streaming = True\<rparr>])]"

definition order_proto :: file_desc where
  "order_proto = \<lparr>file_name = ''order.proto'', file_package = ''order'', file_messages = order_proto_messages,
     file_service = order_proto_service, file_syntax = ''proto3''\<rparr>"

lemma read_field_fields:
  assumes "length name < 100" "length ref < 100" "length json < 100" "num < 2 ^ 31" "lab < 2 ^ 31" "ty < 2 ^ 31"
  shows "Option.bind (parse_fields (encode_fields (field_fields name num lab ty ref json))) read_field
    = Some (plain_field name num lab ty ref)"
  using assms
  by (simp add: parse_field_fields read_field_def)
    (simp add: field_fields_def string_at_def number_at_def string_field_def unat_of_nat)

lemma read_value_fields:
  assumes "length name < 100" "num < 2 ^ 31"
  shows "Option.bind (parse_fields (encode_fields (value_fields name num))) read_value
    = Some (name, num)"
  using assms
  by (simp add: parse_value_fields read_value_def) (simp add: value_fields_def string_at_def number_at_def unat_of_nat)

lemma read_method_fields:
  assumes "length name < 100" "length inp < 100" "length out < 100"
  shows "Option.bind (parse_fields (encode_fields (method_fields name inp out cs ss))) read_method
    = Some \<lparr>mt_name = name, mt_input = inp, mt_output = out, mt_client_streaming = cs, mt_server_streaming = ss\<rparr>"
  using parse_method_fields [OF assms, of cs ss]
  by (simp add: read_method_def) (simp add: method_fields_def streaming_fields_def string_at_def number_at_def)

lemma read_address:
  "Option.bind (parse_fields (encode_fields described_address)) (read_message (Suc 0))
     = Some (Message_Desc ''Address'' [plain_field ''address'' 1 1 9 '''', plain_field ''type'' 2 1 14 ''.order.Order.AddressType''] [] [])"
  by (simp add: parse_described) (simp add: described_address_def bytes_at_def string_at_def read_field_fields)

lemma read_address_type:
  "Option.bind (parse_fields (encode_fields described_address_type)) read_enum
     = Some \<lparr>ed_name = ''AddressType'', ed_values = [(''HOME'', 0), (''WORK'', 1)]\<rparr>"
  by (simp add: parse_described read_enum_def) (simp add: described_address_type_def bytes_at_def string_at_def read_value_fields)

lemma read_order:
  "Option.bind (parse_fields (encode_fields described_order)) (read_message 2) = Some (order_proto_messages ! 0)"
  by (simp add: parse_described numeral_2_eq_2)
    (simp add: described_order_def bytes_at_def string_at_def read_field_fields read_address read_address_type order_proto_messages_def)

lemma read_shipment:
  "Option.bind (parse_fields (encode_fields described_shipment)) (read_message 2) = Some (order_proto_messages ! 1)"
  by (simp add: parse_described numeral_2_eq_2)
    (simp add: described_shipment_def bytes_at_def string_at_def read_field_fields order_proto_messages_def)

lemma read_service_described:
  "Option.bind (parse_fields (encode_fields described_service)) read_service = Some (order_proto_service ! 0)"
  by (simp add: parse_described read_service_def)
    (simp add: described_service_def bytes_at_def string_at_def order_proto_service_def read_method_fields)

lemma read_rawDesc: "read_file file_order_proto_rawDesc = Some order_proto"
  by (simp add: rawDesc_described read_file_def parse_described)
    (simp add: described_file_def bytes_at_def string_at_def read_order read_shipment read_service_described
      order_proto_def, simp add: order_proto_messages_def order_proto_service_def)

section \<open>The tables beside the descriptor\<close>

text \<open>The zero values whose types \<open>goTypes\<close> lists, and the paths that the \<open>Descriptor\<close> methods return.\<close>

datatype go_type = Go_Order_AddressType | Go_Order | Go_CombinedShipment | Go_Order_Address | Go_Timestamp | Go_StringValue

definition file_order_proto_goTypes :: "go_type list" where
  "file_order_proto_goTypes =
     [Go_Order_AddressType, Go_Order, Go_CombinedShipment, Go_Order_Address, Go_Timestamp, Go_StringValue]"

definition file_order_proto_depIdxs :: "int32 list" where
  "file_order_proto_depIdxs = [3, 4, 1, 0, 1, 5, 5, 1, 5, 5, 1, 1, 5, 2, 9, 4, 4, 4, 0]"

definition Order_Descriptor_path :: "nat list" where
  "Order_Descriptor_path = [0]"

definition CombinedShipment_Descriptor_path :: "nat list" where
  "CombinedShipment_Descriptor_path = [1]"

definition Order_Address_Descriptor_path :: "nat list" where
  "Order_Address_Descriptor_path = [0, 0]"

definition Order_AddressType_EnumDescriptor_path :: "nat list" where
  "Order_AddressType_EnumDescriptor_path = [0, 0]"

text \<open>A path leads from the file through nested messages, with the full name on the way.\<close>

fun message_at :: "string \<Rightarrow> message_desc list \<Rightarrow> nat list \<Rightarrow> (string \<times> message_desc) option" where
  "message_at pre ms [] = None"
| "message_at pre ms (i # is) =
     (if i < length ms
      then (let m = ms ! i; full = pre @ ''.'' @ md_name m
            in if is = [] then Some (full, m) else message_at full (md_nested m) is)
      else None)"

definition enum_at :: "string \<Rightarrow> message_desc list \<Rightarrow> nat list \<Rightarrow> (string \<times> enum_desc) option" where
  "enum_at pre ms path =
     (case message_at pre ms (butlast path) of
        Some (full, m) \<Rightarrow>
          if last path < length (md_enums m)
          then Some (full @ ''.'' @ ed_name (md_enums m ! last path), md_enums m ! last path) else None
      | None \<Rightarrow> None)"

definition file_scope :: "file_desc \<Rightarrow> string" where
  "file_scope fd = ''.'' @ file_package fd"

fun go_name :: "file_desc \<Rightarrow> go_type \<Rightarrow> string option" where
  "go_name fd Go_Order_AddressType = map_option fst (enum_at (file_scope fd) (file_messages fd) Order_AddressType_EnumDescriptor_path)"
| "go_name fd Go_Order = map_option fst (message_at (file_scope fd) (file_messages fd) Order_Descriptor_path)"
| "go_name fd Go_CombinedShipment = map_option fst (message_at (file_scope fd) (file_messages fd) CombinedShipment_Descriptor_path)"
| "go_name fd Go_Order_Address = map_option fst (message_at (file_scope fd) (file_messages fd) Order_Address_Descriptor_path)"
| "go_name fd Go_Timestamp = Some ''.google.protobuf.Timestamp''"
| "go_name fd Go_StringValue = Some ''.google.protobuf.StringValue''"

text \<open>
  As the runtime documents its tables: the declarations come first in \<open>goTypes\<close>, enums before messages,
  each in flattened order (the declarations of a scope, then those inside them), and the dependencies
  are five lists in a row whose starts stand at the end in reverse order: the types of the fields, two
  lists for extensions, the inputs and the outputs of the methods.
\<close>

fun flat_messages :: "nat \<Rightarrow> string \<Rightarrow> message_desc list \<Rightarrow> (string \<times> message_desc) list" where
  "flat_messages 0 pre ms = []"
| "flat_messages (Suc d) pre ms =
     map (\<lambda>m. (pre @ ''.'' @ md_name m, m)) ms
     @ concat (map (\<lambda>m. flat_messages d (pre @ ''.'' @ md_name m) (md_nested m)) ms)"

definition file_flat_messages :: "file_desc \<Rightarrow> (string \<times> message_desc) list" where
  "file_flat_messages fd = flat_messages 3 (file_scope fd) (file_messages fd)"

lemma flat_three: "file_flat_messages fd = flat_messages (Suc (Suc (Suc 0))) (file_scope fd) (file_messages fd)"
  by (simp add: file_flat_messages_def numeral_3_eq_3)

definition file_flat_enums :: "file_desc \<Rightarrow> string list" where
  "file_flat_enums fd =
     concat (map (\<lambda>(full, m). map (\<lambda>e. full @ ''.'' @ ed_name e) (md_enums m)) (file_flat_messages fd))"

definition dependency_list :: "int32 list \<Rightarrow> nat \<Rightarrow> nat list" where
  "dependency_list deps k =
     (let ds = map unat deps; n = length ds;
          start = ds ! (n - 1 - k); stop = (if k = 4 then n - 5 else ds ! (n - 2 - k))
      in take (stop - start) (drop start ds))"

definition references :: "file_desc \<Rightarrow> string list" where
  "references fd =
     concat (map (\<lambda>(_, m). map fd_type_name (filter (\<lambda>f. fd_type f \<in> {11, 14}) (md_fields m))) (file_flat_messages fd))"

definition resolved :: "file_desc \<Rightarrow> nat \<Rightarrow> string option list" where
  "resolved fd k = map (\<lambda>i. go_name fd (file_order_proto_goTypes ! i)) (dependency_list file_order_proto_depIdxs k)"

section \<open>Start-up\<close>

text \<open>
  Where memory may not be read through pointers, the runtime reaches a message's own fields by a
  function of its type: the type assertion panics on a message of another type.
\<close>

definition message_exporter :: "go_type \<Rightarrow> go_type \<Rightarrow> int \<Rightarrow> string option outcome" where
  "message_exporter ty v i =
     (if v \<noteq> ty then Panic ''interface conversion''
      else Return (if i = 0 then Some ''state'' else if i = 1 then Some ''sizeCache''
        else if i = 2 then Some ''unknownFields'' else None))"

text \<open>
  The package's variables. \<open>Build\<close>, which makes the file of the descriptor, the counts and the tables, and
  \<open>CompressGZIP\<close> are the runtime's. \<open>sync.Once\<close> runs its function at the first call only.
\<close>

record 'f proto_vars =
  File_order_proto :: "'f option"
  rawDesc :: "string option"
  goTypes :: "go_type list option"
  depIdxs :: "int32 list option"
  rawDescData :: string
  rawDescOnce :: bool
  exporters :: "(go_type \<Rightarrow> int \<Rightarrow> string option outcome) option list"

definition proto_vars_init :: "'f proto_vars" where
  "proto_vars_init = \<lparr>File_order_proto = None, rawDesc = Some file_order_proto_rawDesc,
     goTypes = Some file_order_proto_goTypes, depIdxs = Some file_order_proto_depIdxs,
     rawDescData = file_order_proto_rawDesc, rawDescOnce = False, exporters = [None, None, None]\<rparr>"

record type_builder =
  RawDescriptor :: "string option"
  NumEnums :: nat
  NumMessages :: nat
  NumExtensions :: nat
  NumServices :: nat
  GoTypes :: "go_type list option"
  DependencyIndexes :: "int32 list option"

definition order_exporters :: "(go_type \<Rightarrow> int \<Rightarrow> string option outcome) option list" where
  "order_exporters = [Some (message_exporter Go_Order), Some (message_exporter Go_CombinedShipment), Some (message_exporter Go_Order_Address)]"

text \<open>\<open>UnsafeEnabled\<close> is a constant of the runtime.\<close>

definition file_order_proto_init :: "bool \<Rightarrow> (type_builder \<Rightarrow> 'f) \<Rightarrow> 'f proto_vars \<Rightarrow> 'f proto_vars" where
  "file_order_proto_init UnsafeEnabled Build v =
     (case File_order_proto v of
        Some _ \<Rightarrow> v
      | None \<Rightarrow>
          (let v = (if \<not> UnsafeEnabled then v\<lparr>exporters := order_exporters\<rparr> else v);
               out = Build \<lparr>RawDescriptor = rawDesc v, NumEnums = 1, NumMessages = 3, NumExtensions = 0, NumServices = 1,
                 GoTypes = goTypes v, DependencyIndexes = depIdxs v\<rparr>
           in v\<lparr>File_order_proto := Some out, rawDesc := None, goTypes := None, depIdxs := None\<rparr>))"

definition file_order_proto_rawDescGZIP :: "(string \<Rightarrow> string) \<Rightarrow> 'f proto_vars \<Rightarrow> string \<times> 'f proto_vars" where
  "file_order_proto_rawDescGZIP CompressGZIP v =
     (let v = (if rawDescOnce v then v else v\<lparr>rawDescData := CompressGZIP (rawDescData v), rawDescOnce := True\<rparr>)
      in (rawDescData v, v))"

datatype proto_event = Ev_Init | Ev_GZIP

fun proto_run :: "bool \<Rightarrow> (type_builder \<Rightarrow> 'f) \<Rightarrow> (string \<Rightarrow> string) \<Rightarrow> proto_event list \<Rightarrow> 'f proto_vars \<Rightarrow> string list \<times> 'f proto_vars" where
  "proto_run U Build gz [] v = ([], v)"
| "proto_run U Build gz (Ev_Init # es) v = proto_run U Build gz es (file_order_proto_init U Build v)"
| "proto_run U Build gz (Ev_GZIP # es) v =
     (let (b, v) = file_order_proto_rawDescGZIP gz v; (bs, v) = proto_run U Build gz es v in (b # bs, v))"

definition full_builder :: type_builder where
  "full_builder = \<lparr>RawDescriptor = Some file_order_proto_rawDesc, NumEnums = 1, NumMessages = 3, NumExtensions = 0,
     NumServices = 1, GoTypes = Some file_order_proto_goTypes, DependencyIndexes = Some file_order_proto_depIdxs\<rparr>"

definition vars_ok :: "bool \<Rightarrow> (type_builder \<Rightarrow> 'f) \<Rightarrow> (string \<Rightarrow> string) \<Rightarrow> 'f proto_vars \<Rightarrow> bool" where
  "vars_ok U Build gz v \<longleftrightarrow>
     rawDescData v = (if rawDescOnce v then gz file_order_proto_rawDesc else file_order_proto_rawDesc)
     \<and> exporters v = (if File_order_proto v = None \<or> U then [None, None, None] else order_exporters)
     \<and> (case File_order_proto v of
          None \<Rightarrow> rawDesc v = Some file_order_proto_rawDesc \<and> goTypes v = Some file_order_proto_goTypes
            \<and> depIdxs v = Some file_order_proto_depIdxs
        | Some f \<Rightarrow> f = Build full_builder \<and> rawDesc v = None \<and> goTypes v = None \<and> depIdxs v = None)"

lemma vars_ok_initially: "vars_ok U Build gz proto_vars_init"
  by (simp add: vars_ok_def proto_vars_init_def)

lemma vars_ok_init: "vars_ok U Build gz v \<Longrightarrow> vars_ok U Build gz (file_order_proto_init U Build v)"
  by (auto simp: vars_ok_def file_order_proto_init_def full_builder_def Let_def split: option.splits)

lemma vars_ok_gzip:
  assumes "vars_ok U Build gz v"
  shows "fst (file_order_proto_rawDescGZIP gz v) = gz file_order_proto_rawDesc"
    and "vars_ok U Build gz (snd (file_order_proto_rawDescGZIP gz v))"
  using assms by (auto simp: vars_ok_def file_order_proto_rawDescGZIP_def Let_def split: option.splits)

lemma proto_run_ok:
  "vars_ok U Build gz v \<Longrightarrow> proto_run U Build gz es v = (bs, v') \<Longrightarrow>
     vars_ok U Build gz v' \<and> list_all (\<lambda>b. b = gz file_order_proto_rawDesc) bs
     \<and> (File_order_proto v' = None \<longleftrightarrow> File_order_proto v = None \<and> Ev_Init \<notin> set es)"
proof (induction U Build gz es v arbitrary: bs v' rule: proto_run.induct)
  case (2 U Build gz es v)
  have "File_order_proto (file_order_proto_init U Build v) \<noteq> None"
    by (simp add: file_order_proto_init_def Let_def split: option.split)
  with "2.IH" [OF vars_ok_init [OF "2.prems"(1)]] "2.prems"(2) show ?case by simp
next
  case (3 U Build gz es v)
  obtain b v1 where g: "file_order_proto_rawDescGZIP gz v = (b, v1)" by fastforce
  obtain bs2 where r: "proto_run U Build gz es v1 = (bs2, v')" "bs = b # bs2"
    using "3.prems"(2) g by (auto split: prod.splits)
  have "File_order_proto v1 = File_order_proto v"
    using g by (auto simp: file_order_proto_rawDescGZIP_def Let_def)
  with "3.IH" [OF g [symmetric] refl _ r(1)] r(2) vars_ok_gzip [OF "3.prems"(1)] g show ?case by simp
qed simp

section \<open>Properties\<close>

text \<open>How the runtime encodes the field types of the descriptor: string, float, message, enum.\<close>

definition wire_encoding :: "nat \<Rightarrow> string" where
  "wire_encoding ty = (if ty = 9 \<or> ty = 11 then ''bytes'' else if ty = 2 then ''fixed32'' else if ty = 14 then ''varint'' else '''')"

definition described_tag :: "field_desc \<Rightarrow> field_tag" where
  "described_tag d = \<lparr>tag_encoding = wire_encoding (fd_type d), tag_number = fd_number d, tag_repeated = (fd_label d = 3),
     tag_name = fd_name d\<rparr>"

definition described_by :: "file_desc \<Rightarrow> nat list \<Rightarrow> (string \<times> string) list \<Rightarrow> bool" where
  "described_by fd path tags =
     (case message_at (file_scope fd) (file_messages fd) path of
        None \<Rightarrow> False
      | Some (_, m) \<Rightarrow> map (Some \<circ> described_tag) (md_fields m) = map (read_tag \<circ> snd) tags)"

definition described_rpc :: "method_desc \<Rightarrow> string \<times> bool \<times> bool" where
  "described_rpc m = (mt_name m, mt_server_streaming m, mt_client_streaming m)"

text \<open>C18: The descriptor embedded as bytes agrees with the generated code beside it: under the path that its
  \<open>Descriptor\<close> method returns, each message has, field by field, the encoding, number, label and name of
  the Go struct's tags; the enum has the names and numbers of the table; the service has the full name,
  the unary methods and the streams, with their directions, of the gRPC service descriptor.\<close>

theorem descriptor_matches_code:
  "case read_file file_order_proto_rawDesc of
     None \<Rightarrow> False
   | Some fd \<Rightarrow>
       described_by fd Order_Descriptor_path Order_tags
       \<and> described_by fd CombinedShipment_Descriptor_path CombinedShipment_tags
       \<and> described_by fd Order_Address_Descriptor_path Order_Address_tags
       \<and> (case enum_at (file_scope fd) (file_messages fd) Order_AddressType_EnumDescriptor_path of
            None \<Rightarrow> False
          | Some (_, e) \<Rightarrow> fmap_of_list (map (\<lambda>(n, v). (word_of_nat v, n)) (ed_values e)) = Order_AddressType_name)
       \<and> (let D = (OrderManagement_ServiceDesc :: (string, orders) ServiceDesc) in
          map (\<lambda>(name, ms). (file_package fd @ ''.'' @ name, map described_rpc ms)) (file_service fd)
            = [(ServiceName D, map (\<lambda>d. (MethodName d, False, False)) (Methods D)
                 @ map (\<lambda>d. (StreamName d, ServerStreams d, ClientStreams d)) (Streams D))]
          \<and> file_name fd = Metadata D)"
  by (simp add: read_rawDesc)
    (simp add: order_proto_def order_proto_messages_def order_proto_service_def described_by_def described_tag_def
      described_rpc_def wire_encoding_def file_scope_def enum_at_def Order_Descriptor_path_def
      CombinedShipment_Descriptor_path_def Order_Address_Descriptor_path_def Order_AddressType_EnumDescriptor_path_def
      Order_tags_def CombinedShipment_tags_def Order_Address_tags_def read_tag_def dec_value_def
      Order_AddressType_name_def OrderManagement_ServiceDesc_def)

text \<open>C21: The tables given to the runtime fit the embedded descriptor: the declared Go types are the file's
  enums and messages in flattened order, as many as the counts say; every reference from a field, and
  every input and output of a method, resolves through the index table to the Go type of that very
  name; there are no extensions; and every index is within the table of types.\<close>

theorem dependencies_resolve:
  "case read_file file_order_proto_rawDesc of
     None \<Rightarrow> False
   | Some fd \<Rightarrow>
       map (go_name fd) (take (NumEnums full_builder + NumMessages full_builder) file_order_proto_goTypes)
         = map Some (file_flat_enums fd @ map fst (file_flat_messages fd))
       \<and> length (file_flat_enums fd) = NumEnums full_builder \<and> length (file_flat_messages fd) = NumMessages full_builder
       \<and> length (file_service fd) = NumServices full_builder
       \<and> resolved fd 0 = map Some (references fd)
       \<and> resolved fd 1 = [] \<and> resolved fd 2 = []
       \<and> resolved fd 3 = map Some (concat (map (map mt_input \<circ> snd) (file_service fd)))
       \<and> resolved fd 4 = map Some (concat (map (map mt_output \<circ> snd) (file_service fd)))
       \<and> list_all (\<lambda>i. unat i < length file_order_proto_goTypes) (take 14 file_order_proto_depIdxs)"
  by (simp add: read_rawDesc)
    (simp add: order_proto_def order_proto_messages_def order_proto_service_def file_scope_def enum_at_def
      Order_Descriptor_path_def CombinedShipment_Descriptor_path_def Order_Address_Descriptor_path_def
      Order_AddressType_EnumDescriptor_path_def file_order_proto_goTypes_def file_flat_enums_def flat_three
      full_builder_def resolved_def references_def dependency_list_def file_order_proto_depIdxs_def)

text \<open>However often and in whatever order the package is initialised and the compressed descriptor asked
  for, every answer is the embedded descriptor compressed once, although initialisation clears the
  variable it started from; and from the first initialisation on the file is what one \<open>Build\<close> made of
  the full tables, with the field accessors set where the runtime needs them.\<close>

theorem descriptor_compressed_once:
  "case proto_run U Build gz es proto_vars_init of
     (answers, v) \<Rightarrow>
       list_all (\<lambda>b. b = gz file_order_proto_rawDesc) answers
       \<and> File_order_proto v = (if Ev_Init \<in> set es then Some (Build full_builder) else None)
       \<and> exporters v = (if Ev_Init \<in> set es \<and> \<not> U then order_exporters else [None, None, None])"
proof -
  obtain bs v where run: "proto_run U Build gz es proto_vars_init = (bs, v)" by fastforce
  from proto_run_ok [OF vars_ok_initially run] have "vars_ok U Build gz v" "list_all (\<lambda>b. b = gz file_order_proto_rawDesc) bs"
    "File_order_proto v = None \<longleftrightarrow> Ev_Init \<notin> set es"
    by (simp_all add: proto_vars_init_def)
  then show ?thesis by (auto simp: run vars_ok_def split: option.splits)
qed

end
