(* ===== verification/Order_Reflect.thy ===== *)
theory Order_Reflect
  imports Order_Descriptor
begin

text \<open>
  Reflection in \<^verbatim>\<open>dev/grpc/basic/order/order.pb.go\<close>: the methods by which the protobuf runtime reaches
  the type of a message, \<open>Reset\<close> and \<open>ProtoReflect\<close>, with the message information that they cache in
  the message itself, and the methods of the enum. The runtime's cell for that information is a
  parameter with the contract \<open>message_state\<close>.
\<close>

section \<open>Messages in memory\<close>

text \<open>A cell at the head of each message, which holds the index of a message information, or nothing.\<close>

record 's message_runtime =
  zero_state :: 's
  LoadMessageInfo :: "'s \<Rightarrow> nat option"
  StoreMessageInfo :: "nat \<Rightarrow> 's \<Rightarrow> 's"

locale message_state =
  fixes R :: "'s message_runtime"
  assumes zero_empty: "LoadMessageInfo R (zero_state R) = None"
    and store_load: "LoadMessageInfo R (StoreMessageInfo R mi s) = Some mi"

datatype message_body = Body_Order Order | Body_Shipment CombinedShipment | Body_Address Order_Address

record 's message_object =
  object_state :: 's
  object_body :: message_body

type_synonym 's message_heap = "nat \<Rightarrow> 's message_object"

definition nil_dereference :: "'a outcome" where
  "nil_dereference = Panic ''invalid memory address or nil pointer dereference''"

text \<open>The runtime's tables, by the positions of their entries.\<close>

definition file_order_proto_enumTypes :: "nat list" where
  "file_order_proto_enumTypes = [0..<1]"

definition file_order_proto_msgTypes :: "nat list" where
  "file_order_proto_msgTypes = [0..<3]"

section \<open>Reset and ProtoReflect\<close>

text \<open>What the three methods of each name have in common: an entry of the table, and the zero value.\<close>

definition reset_with :: "nat \<Rightarrow> message_body \<Rightarrow> 's message_runtime \<Rightarrow> bool \<Rightarrow> nat option \<Rightarrow> 's message_heap
    \<Rightarrow> unit outcome \<times> 's message_heap" where
  "reset_with mi zero R UnsafeEnabled x heap =
     (case x of
        None \<Rightarrow> (nil_dereference, heap)
      | Some a \<Rightarrow>
          (let heap = heap(a := \<lparr>object_state = zero_state R, object_body = zero\<rparr>)
           in if UnsafeEnabled
              then (Return (), heap(a := (heap a)\<lparr>object_state := StoreMessageInfo R mi (object_state (heap a))\<rparr>))
              else (Return (), heap)))"

text \<open>A reflection is the message's own cell, or the information wrapped around the pointer.\<close>

datatype reflection = State_Of nat | Message_Of nat "nat option"

definition reflect_with :: "nat \<Rightarrow> 's message_runtime \<Rightarrow> bool \<Rightarrow> nat option \<Rightarrow> 's message_heap
    \<Rightarrow> reflection \<times> 's message_heap" where
  "reflect_with mi R UnsafeEnabled x heap =
     (case (UnsafeEnabled, x) of
        (True, Some a) \<Rightarrow>
          (State_Of a,
           if LoadMessageInfo R (object_state (heap a)) = None
           then heap(a := (heap a)\<lparr>object_state := StoreMessageInfo R mi (object_state (heap a))\<rparr>) else heap)
      | _ \<Rightarrow> (Message_Of mi x, heap))"

definition Order_Reset_method :: "'s message_runtime \<Rightarrow> bool \<Rightarrow> nat option \<Rightarrow> 's message_heap \<Rightarrow> unit outcome \<times> 's message_heap" where
  "Order_Reset_method = reset_with (file_order_proto_msgTypes ! 0) (Body_Order Order_Reset)"

definition CombinedShipment_Reset_method :: "'s message_runtime \<Rightarrow> bool \<Rightarrow> nat option \<Rightarrow> 's message_heap \<Rightarrow> unit outcome \<times> 's message_heap" where
  "CombinedShipment_Reset_method = reset_with (file_order_proto_msgTypes ! 1) (Body_Shipment CombinedShipment_Reset)"

definition Order_Address_Reset_method :: "'s message_runtime \<Rightarrow> bool \<Rightarrow> nat option \<Rightarrow> 's message_heap \<Rightarrow> unit outcome \<times> 's message_heap" where
  "Order_Address_Reset_method = reset_with (file_order_proto_msgTypes ! 2) (Body_Address Order_Address_Reset)"

definition Order_ProtoReflect :: "'s message_runtime \<Rightarrow> bool \<Rightarrow> nat option \<Rightarrow> 's message_heap \<Rightarrow> reflection \<times> 's message_heap" where
  "Order_ProtoReflect = reflect_with (file_order_proto_msgTypes ! 0)"

definition CombinedShipment_ProtoReflect :: "'s message_runtime \<Rightarrow> bool \<Rightarrow> nat option \<Rightarrow> 's message_heap \<Rightarrow> reflection \<times> 's message_heap" where
  "CombinedShipment_ProtoReflect = reflect_with (file_order_proto_msgTypes ! 1)"

definition Order_Address_ProtoReflect :: "'s message_runtime \<Rightarrow> bool \<Rightarrow> nat option \<Rightarrow> 's message_heap \<Rightarrow> reflection \<times> 's message_heap" where
  "Order_Address_ProtoReflect = reflect_with (file_order_proto_msgTypes ! 2)"

section \<open>The enum\<close>

definition Order_AddressType_Enum :: "Order_AddressType \<Rightarrow> nat \<Rightarrow> (nat \<Rightarrow> Order_AddressType) \<Rightarrow> nat \<times> (nat \<Rightarrow> Order_AddressType)" where
  "Order_AddressType_Enum x p heap = (p, heap(p := x))"

definition Order_AddressType_Type :: "Order_AddressType \<Rightarrow> nat" where
  "Order_AddressType_Type x = file_order_proto_enumTypes ! 0"

definition Order_AddressType_Descriptor :: "(nat \<Rightarrow> 'd) \<Rightarrow> Order_AddressType \<Rightarrow> 'd" where
  "Order_AddressType_Descriptor info_Descriptor x = info_Descriptor (file_order_proto_enumTypes ! 0)"

definition Order_AddressType_Number :: "Order_AddressType \<Rightarrow> int32" where
  "Order_AddressType_Number x = x"

definition Order_AddressType_String :: "(nat \<Rightarrow> 'd) \<Rightarrow> ('d \<Rightarrow> int32 \<Rightarrow> string) \<Rightarrow> Order_AddressType \<Rightarrow> string" where
  "Order_AddressType_String info_Descriptor EnumStringOf x =
     EnumStringOf (Order_AddressType_Descriptor info_Descriptor x) (Order_AddressType_Number x)"

section \<open>A program that uses messages\<close>

text \<open>
  Messages are made, filled, reset and reflected on, each by the methods of its own type. The answers
  are, for each reflection, the type of the message and the information that the runtime then finds.
\<close>

fun body_type :: "message_body \<Rightarrow> go_type" where
  "body_type (Body_Order _) = Go_Order"
| "body_type (Body_Shipment _) = Go_CombinedShipment"
| "body_type (Body_Address _) = Go_Order_Address"

fun method_Reset :: "message_body \<Rightarrow> 's message_runtime \<Rightarrow> bool \<Rightarrow> nat option \<Rightarrow> 's message_heap \<Rightarrow> unit outcome \<times> 's message_heap" where
  "method_Reset (Body_Order _) = Order_Reset_method"
| "method_Reset (Body_Shipment _) = CombinedShipment_Reset_method"
| "method_Reset (Body_Address _) = Order_Address_Reset_method"

fun method_ProtoReflect :: "message_body \<Rightarrow> 's message_runtime \<Rightarrow> bool \<Rightarrow> nat option \<Rightarrow> 's message_heap \<Rightarrow> reflection \<times> 's message_heap" where
  "method_ProtoReflect (Body_Order _) = Order_ProtoReflect"
| "method_ProtoReflect (Body_Shipment _) = CombinedShipment_ProtoReflect"
| "method_ProtoReflect (Body_Address _) = Order_Address_ProtoReflect"

definition reflected_info :: "'s message_runtime \<Rightarrow> 's message_heap \<Rightarrow> reflection \<Rightarrow> nat option" where
  "reflected_info R heap r = (case r of State_Of a \<Rightarrow> LoadMessageInfo R (object_state (heap a)) | Message_Of mi x \<Rightarrow> Some mi)"

datatype message_op = New nat message_body | Fill nat message_body | Reset nat | Reflect nat

text \<open>\<open>Fill\<close> sets the fields of a message, whose type stays.\<close>

fun message_step :: "'s message_runtime \<Rightarrow> bool \<Rightarrow> message_op \<Rightarrow> 's message_heap \<Rightarrow> (go_type \<times> nat option) list \<times> 's message_heap" where
  "message_step R U (New a b) heap = ([], heap(a := \<lparr>object_state = zero_state R, object_body = b\<rparr>))"
| "message_step R U (Fill a b) heap =
     (if body_type b = body_type (object_body (heap a)) then ([], heap(a := (heap a)\<lparr>object_body := b\<rparr>)) else ([], heap))"
| "message_step R U (Reset a) heap = ([], snd (method_Reset (object_body (heap a)) R U (Some a) heap))"
| "message_step R U (Reflect a) heap =
     (let (r, heap') = method_ProtoReflect (object_body (heap a)) R U (Some a) heap
      in ([(body_type (object_body (heap a)), reflected_info R heap' r)], heap'))"

fun message_run :: "'s message_runtime \<Rightarrow> bool \<Rightarrow> message_op list \<Rightarrow> 's message_heap \<Rightarrow> (go_type \<times> nat option) list" where
  "message_run R U [] heap = []"
| "message_run R U (e # es) heap = (let (out, heap) = message_step R U e heap in out @ message_run R U es heap)"

text \<open>Where the information of a type stands in the runtime's table.\<close>

definition info_index :: "go_type \<Rightarrow> nat" where
  "info_index ty = (case ty of Go_CombinedShipment \<Rightarrow> 1 | Go_Order_Address \<Rightarrow> 2 | _ \<Rightarrow> 0)"

lemma info_index_simps [simp]:
  "info_index Go_Order = 0" "info_index Go_CombinedShipment = 1" "info_index Go_Order_Address = 2"
  by (simp_all add: info_index_def)

text \<open>A reflection on a message of some type that has found that type's information.\<close>

definition info_found :: "go_type \<times> nat option \<Rightarrow> bool" where
  "info_found r \<longleftrightarrow> fst r \<in> {Go_Order, Go_CombinedShipment, Go_Order_Address} \<and> snd r = Some (info_index (fst r))"

lemma method_ProtoReflect_index: "method_ProtoReflect b = reflect_with (info_index (body_type b))"
  by (cases b) (simp_all add: Order_ProtoReflect_def CombinedShipment_ProtoReflect_def Order_Address_ProtoReflect_def
    file_order_proto_msgTypes_def numeral_2_eq_2)

context message_state
begin

definition cached :: "'s message_object \<Rightarrow> bool" where
  "cached m \<longleftrightarrow> LoadMessageInfo R (object_state m) \<in> {None, Some (info_index (body_type (object_body m)))}"

lemma cached_simps [simp]:
  "cached \<lparr>object_state = zero_state R, object_body = b\<rparr>"
  "cached \<lparr>object_state = StoreMessageInfo R i s, object_body = b\<rparr> \<longleftrightarrow> i = info_index (body_type b)"
  "cached (m\<lparr>object_state := StoreMessageInfo R i s\<rparr>) \<longleftrightarrow> i = info_index (body_type (object_body m))"
  "body_type b = body_type (object_body m) \<Longrightarrow> cached (m\<lparr>object_body := b\<rparr>) \<longleftrightarrow> cached m"
  by (auto simp: cached_def zero_empty store_load)

lemma cached_Some: "cached m \<Longrightarrow> LoadMessageInfo R (object_state m) = Some i \<Longrightarrow> i = info_index (body_type (object_body m))"
  by (simp add: cached_def)

lemma reflect_cached:
  assumes "\<forall>a. cached (heap a)"
    and "reflect_with (info_index (body_type (object_body (heap a)))) R U (Some a) heap = (r, heap')"
  shows "\<forall>a. cached (heap' a)" and "reflected_info R heap' r = Some (info_index (body_type (object_body (heap a))))"
proof -
  have a: "cached (heap a)" using assms(1) by blast
  show "\<forall>a. cached (heap' a)" and "reflected_info R heap' r = Some (info_index (body_type (object_body (heap a))))"
    using assms a by (cases U; cases "LoadMessageInfo R (object_state (heap a))";
      auto simp: reflect_with_def reflected_info_def store_load cached_Some)+
qed

lemma step_cached:
  assumes "\<forall>a. cached (heap a)" and "message_step R U e heap = (out, heap')"
  shows "(\<forall>a. cached (heap' a)) \<and> list_all info_found out"
proof (cases e)
  case (Reset a)
  then show ?thesis using assms
    by (cases "object_body (heap a)"; cases U)
       (auto simp: reset_with_def Order_Reset_method_def CombinedShipment_Reset_method_def Order_Address_Reset_method_def
         file_order_proto_msgTypes_def Let_def)
next
  case (Reflect a)
  let ?ty = "body_type (object_body (heap a))"
  obtain r heap1 where r: "reflect_with (info_index ?ty) R U (Some a) heap = (r, heap1)" by fastforce
  have "(out, heap') = ([(?ty, reflected_info R heap1 r)], heap1)"
    using assms(2) r Reflect by (auto simp: method_ProtoReflect_index)
  moreover have "?ty \<in> {Go_Order, Go_CombinedShipment, Go_Order_Address}" by (cases "object_body (heap a)") simp_all
  ultimately show ?thesis using reflect_cached [OF assms(1) r] by (simp add: info_found_def)
qed (use assms in \<open>auto split: if_splits\<close>)

lemma run_cached:
  "\<forall>a. cached (heap a) \<Longrightarrow> list_all info_found (message_run R U es heap)"
proof (induction es arbitrary: heap)
  case (Cons e es)
  obtain out heap' where "message_step R U e heap = (out, heap')" by fastforce
  then show ?case using step_cached [OF Cons.prems] Cons.IH by simp
qed simp

end

text \<open>The cell as an option.\<close>

definition option_cell :: "nat option message_runtime" where
  "option_cell = \<lparr>zero_state = None, LoadMessageInfo = (\<lambda>s. s), StoreMessageInfo = (\<lambda>mi s. Some mi)\<rparr>"

interpretation cell: message_state option_cell
  by unfold_locales (simp_all add: option_cell_def)

section \<open>Properties\<close>

text \<open>C22: However messages are made, filled, reset and reflected on, and whether the runtime may read memory
  through pointers or not: every reflection finds the information of the message's own type, that is,
  the one whose place in the runtime's tables is that of the type's name in the embedded descriptor.
  The enum's type and descriptor are those of its name there.\<close>

theorem reflection_finds_type:
  assumes "message_state R" and "\<And>a. LoadMessageInfo R (object_state (heap a)) = None"
  shows "case read_file file_order_proto_rawDesc of
     None \<Rightarrow> False
   | Some fd \<Rightarrow>
       list_all (\<lambda>(ty, mi). case mi of None \<Rightarrow> False | Some i \<Rightarrow>
           i < length file_order_proto_msgTypes
           \<and> file_order_proto_goTypes ! (length file_order_proto_enumTypes + i) = ty
           \<and> go_name fd ty = Some (fst (file_flat_messages fd ! i))) (message_run R U es heap)
       \<and> go_name fd Go_Order_AddressType = Some (file_flat_enums fd ! Order_AddressType_Type x)
       \<and> Order_AddressType_Descriptor info x = info (Order_AddressType_Type x)"
proof -
  have "list_all info_found (message_run R U es heap)"
    using message_state.run_cached [OF assms(1)] assms(2) by (simp add: message_state.cached_def [OF assms(1)])
  then show ?thesis
    by (simp add: read_rawDesc)
      (auto simp: list_all_iff info_found_def order_proto_def order_proto_messages_def file_scope_def
        enum_at_def Order_Descriptor_path_def CombinedShipment_Descriptor_path_def Order_Address_Descriptor_path_def
        Order_AddressType_EnumDescriptor_path_def file_order_proto_goTypes_def file_flat_enums_def flat_three
        file_order_proto_msgTypes_def file_order_proto_enumTypes_def Order_AddressType_Type_def
        Order_AddressType_Descriptor_def split: option.split)
qed

theorem reflection_finds_type_witness:
  "case read_file file_order_proto_rawDesc of
     None \<Rightarrow> False
   | Some fd \<Rightarrow>
       list_all (\<lambda>(ty, mi). case mi of None \<Rightarrow> False | Some i \<Rightarrow>
           i < length file_order_proto_msgTypes
           \<and> file_order_proto_goTypes ! (length file_order_proto_enumTypes + i) = ty
           \<and> go_name fd ty = Some (fst (file_flat_messages fd ! i)))
         (message_run option_cell True [New 1 (Body_Address Order_Address_Reset), Reflect 1, Reset 1, Reflect 1]
           (\<lambda>_. \<lparr>object_state = None, object_body = Body_Order Order_Reset\<rparr>))
       \<and> go_name fd Go_Order_AddressType = Some (file_flat_enums fd ! Order_AddressType_Type Order_WORK)
       \<and> Order_AddressType_Descriptor id Order_WORK = id (Order_AddressType_Type Order_WORK)"
  by (rule reflection_finds_type [OF cell.message_state_axioms]) (simp add: option_cell_def)

end
