(* ===== verification/Order_Stubs.thy ===== *)
theory Order_Stubs
  imports Order_Grpc
begin

text \<open>
  The streaming handlers on the wire. In \<open>Order_Server\<close> they send and receive messages; here they call
  the stream objects of \<^verbatim>\<open>order/order_grpc.pb.go\<close>, which encode and decode, and where \<open>Send\<close> fails on a
  message that cannot be encoded. The two agree but for that failure, which ends the call.
\<close>

section \<open>The stream objects of the server\<close>

text \<open>\<open>SendMsg\<close> on a stream whose k-th message on the wire is sent with the result \<open>f k\<close>.\<close>

definition server_SendMsg :: "('m \<Rightarrow> 'b option) \<Rightarrow> (nat \<Rightarrow> rpc_error option) \<Rightarrow> 'm \<Rightarrow> 'b list
    \<Rightarrow> rpc_error option \<times> 'b list" where
  "server_SendMsg encode f m out =
     (case encode m of None \<Rightarrow> (Some marshal_error, out) | Some b \<Rightarrow> stream_Send f b out)"

definition SearchOrdersServer_Send :: "'b codec \<Rightarrow> (nat \<Rightarrow> rpc_error option) \<Rightarrow> Order \<Rightarrow> 'b list \<Rightarrow> rpc_error option \<times> 'b list" where
  "SearchOrdersServer_Send K f m out = server_SendMsg (marshal_Order K) f m out"

definition UpdateOrdersServer_SendAndClose :: "'b codec \<Rightarrow> (nat \<Rightarrow> rpc_error option) \<Rightarrow> string \<Rightarrow> 'b list
    \<Rightarrow> rpc_error option \<times> 'b list" where
  "UpdateOrdersServer_SendAndClose K f m out = server_SendMsg (marshal_StringValue K) f m out"

definition UpdateOrdersServer_Recv :: "'b codec \<Rightarrow> 'b in_stream \<Rightarrow> (Order option \<times> stream_end option) \<times> 'b in_stream" where
  "UpdateOrdersServer_Recv K st = server_Recv (unmarshal_Order K) st"

definition ProcessOrdersServer_Send :: "'b codec \<Rightarrow> (nat \<Rightarrow> rpc_error option) \<Rightarrow> CombinedShipment \<Rightarrow> 'b list
    \<Rightarrow> rpc_error option \<times> 'b list" where
  "ProcessOrdersServer_Send K f m out = server_SendMsg (marshal_CombinedShipment K) f m out"

definition ProcessOrdersServer_Recv :: "'b codec \<Rightarrow> 'b in_stream \<Rightarrow> (string option \<times> stream_end option) \<times> 'b in_stream" where
  "ProcessOrdersServer_Recv K st = server_Recv (unmarshal_StringValue K) st"

section \<open>The handlers over them\<close>

fun wire_search_items :: "'b codec \<Rightarrow> (nat \<Rightarrow> rpc_error option) \<Rightarrow> string \<Rightarrow> Order \<Rightarrow> string list \<Rightarrow> 'b list
    \<Rightarrow> rpc_error option \<times> 'b list" where
  "wire_search_items K f q order [] out = (None, out)"
| "wire_search_items K f q order (str # strs) out =
     (if strings_Contains str q
      then (case SearchOrdersServer_Send K f order out of
              (Some e, out) \<Rightarrow> (Some (Errorf ''error send: '' e), out)
            | (None, out) \<Rightarrow> wire_search_items K f q order strs out)
      else wire_search_items K f q order strs out)"

fun wire_search_range :: "'b codec \<Rightarrow> (nat \<Rightarrow> rpc_error option) \<Rightarrow> string \<Rightarrow> Order list \<Rightarrow> 'b list
    \<Rightarrow> rpc_error option \<times> 'b list" where
  "wire_search_range K f q [] out = (None, out)"
| "wire_search_range K f q (order # rest) out =
     (case wire_search_items K f q order (Order_Items order) out of
        (Some e, out) \<Rightarrow> (Some e, out)
      | (None, out) \<Rightarrow> wire_search_range K f q rest out)"

definition wire_SearchOrders :: "'b codec \<Rightarrow> (nat \<Rightarrow> rpc_error option) \<Rightarrow> (nat \<Rightarrow> orders \<Rightarrow> string list)
    \<Rightarrow> orders \<Rightarrow> string \<Rightarrow> rpc_error option \<times> 'b list" where
  "wire_SearchOrders K f it orders query = wire_search_range K f query (range_values (it 0 orders) orders) []"

lemma server_Recv_length: "server_Recv decode st = ((Some m, e), st') \<Longrightarrow> length (pending st') < length (pending st)"
  by (cases st; cases "pending st") (auto simp: server_Recv_def split: option.splits)

function wire_UpdateOrders_loop :: "'b codec \<Rightarrow> (nat \<Rightarrow> rpc_error option) \<Rightarrow> orders \<Rightarrow> string \<Rightarrow> 'b in_stream
    \<Rightarrow> (rpc_error option outcome \<times> 'b list) \<times> orders" where
  "wire_UpdateOrders_loop K f orders ordersStr stream =
     (case UpdateOrdersServer_Recv K stream of
        ((_, Some EOF), _) \<Rightarrow>
          (case UpdateOrdersServer_SendAndClose K f (''Orders processed '' @ ordersStr) [] of
             (err, out) \<Rightarrow> ((Return err, out), orders))
      | ((None, _), _) \<Rightarrow> ((Panic ''nil pointer dereference'', []), orders)
      | ((Some order, _), stream') \<Rightarrow>
          wire_UpdateOrders_loop K f (fmupd (Order_Id order) order orders) (ordersStr @ Order_Id order @ '', '') stream')"
  by pat_completeness auto
termination
  by (relation "measure (\<lambda>(K, f, orders, ordersStr, stream). length (pending stream))")
     (auto simp: UpdateOrdersServer_Recv_def dest: server_Recv_length [OF sym])

declare wire_UpdateOrders_loop.simps [simp del]

fun wire_send_each :: "'b codec \<Rightarrow> (nat \<Rightarrow> rpc_error option) \<Rightarrow> CombinedShipment list \<Rightarrow> 'b list
    \<Rightarrow> rpc_error option \<times> 'b list" where
  "wire_send_each K f [] out = (None, out)"
| "wire_send_each K f (m # ms) out =
     (case ProcessOrdersServer_Send K f m out of
        (Some e, out) \<Rightarrow> (Some e, out)
      | (None, out) \<Rightarrow> wire_send_each K f ms out)"

function wire_ProcessOrders_loop ::
  "'b codec \<Rightarrow> (nat \<Rightarrow> orders) \<Rightarrow> (nat \<Rightarrow> (string, CombinedShipment) fmap \<Rightarrow> string list)
    \<Rightarrow> (nat \<Rightarrow> rpc_error option) \<Rightarrow> nat \<Rightarrow> process_state \<Rightarrow> 'b in_stream \<Rightarrow> 'b list
    \<Rightarrow> rpc_error option outcome \<times> 'b list" where
  "wire_ProcessOrders_loop K at it f n st stream out =
     (case ProcessOrdersServer_Recv K stream of
        ((_, Some EOF), _) \<Rightarrow>
          (case wire_send_each K f (range_values (it n (combinedShipmentMap st)) (combinedShipmentMap st)) out of
             (err, out) \<Rightarrow> (Return err, out))
      | ((_, Some (Broken e)), _) \<Rightarrow> (Return (Some e), out)
      | ((m, None), stream') \<Rightarrow>
          (let orderId = StringValue_GetValue m in
           case combine (at n) orderId (combinedShipmentMap st) of
             Panic p \<Rightarrow> (Panic p, out)
           | Return shipments \<Rightarrow>
               if batchMarker st = orderBatchSize
               then (case wire_send_each K f (range_values (it n shipments) shipments) out of
                       (Some e, out) \<Rightarrow> (Return (Some e), out)
                     | (None, out) \<Rightarrow>
                         wire_ProcessOrders_loop K at it f (Suc n)
                           \<lparr>batchMarker = 0, combinedShipmentMap = fmempty\<rparr> stream' out)
               else wire_ProcessOrders_loop K at it f (Suc n)
                      \<lparr>batchMarker = batchMarker st + 1, combinedShipmentMap = shipments\<rparr> stream' out))"
  by pat_completeness auto
termination
  by (relation "measure (\<lambda>(K, at, it, f, n, st, stream, out). length (pending stream))")
     (auto simp: ProcessOrdersServer_Recv_def server_Recv_def stream_Recv_def split: list.splits option.splits)

declare wire_ProcessOrders_loop.simps [simp del]

definition wire_UpdateOrders :: "'b codec \<Rightarrow> (nat \<Rightarrow> rpc_error option) \<Rightarrow> orders \<Rightarrow> 'b in_stream
    \<Rightarrow> (rpc_error option outcome \<times> 'b list) \<times> orders" where
  "wire_UpdateOrders K f orders stream = wire_UpdateOrders_loop K f orders ''Updated Order IDs : '' stream"

definition wire_ProcessOrders :: "'b codec \<Rightarrow> (nat \<Rightarrow> orders) \<Rightarrow> (nat \<Rightarrow> (string, CombinedShipment) fmap \<Rightarrow> string list)
    \<Rightarrow> (nat \<Rightarrow> rpc_error option) \<Rightarrow> 'b in_stream \<Rightarrow> rpc_error option outcome \<times> 'b list" where
  "wire_ProcessOrders K at it f stream = wire_ProcessOrders_loop K at it f 0 process_init stream []"

section \<open>Messages and their encodings\<close>

definition on_wire :: "('m \<Rightarrow> 'b option) \<Rightarrow> 'm list \<Rightarrow> 'b list \<Rightarrow> bool" where
  "on_wire encode sent out \<longleftrightarrow> map encode sent = map Some out"

lemma on_wire_Nil [simp]: "on_wire encode [] []"
  by (simp add: on_wire_def)

lemma on_wire_sent: "on_wire encode sent out \<Longrightarrow> List.map_filter encode sent = out"
  unfolding on_wire_def
proof (induction sent arbitrary: out)
  case (Cons m ms)
  then show ?case by (cases out) (auto simp: List.map_filter_simps)
qed (simp add: List.map_filter_simps)

text \<open>A message among these that the codec refuses.\<close>

definition refused :: "('m \<Rightarrow> 'b option) \<Rightarrow> 'm list \<Rightarrow> bool" where
  "refused encode ms \<longleftrightarrow> (\<exists>m\<in>set ms. encode m = None)"

lemma refused_simps [simp]:
  "\<not> refused encode []"
  "refused encode (m # ms) \<longleftrightarrow> encode m = None \<or> refused encode ms"
  "refused encode (ms @ ns) \<longleftrightarrow> refused encode ms \<or> refused encode ns"
  by (auto simp: refused_def)

text \<open>One \<open>Send\<close>: it fails to encode, or does what the stream of messages does.\<close>

lemma wire_Send:
  assumes "on_wire encode sent out" and "server_SendMsg encode f m out = (e, out')"
  shows "e = Some marshal_error \<and> encode m = None \<or> (\<exists>sent'. stream_Send f m sent = (e, sent') \<and> on_wire encode sent' out')"
proof (cases "encode m")
  case None
  then show ?thesis using assms(2) by (simp add: server_SendMsg_def)
next
  case (Some b)
  have len: "length sent = length out" using assms(1) unfolding on_wire_def by (rule map_eq_imp_length_eq)
  show ?thesis
  proof (cases "f (length out)")
    case None
    then have "e = None \<and> out' = out @ [b]" using assms(2) Some by (simp add: server_SendMsg_def stream_Send_def)
    then show ?thesis using assms(1) len None Some by (simp add: stream_Send_def on_wire_def)
  next
    case err: (Some a)
    then have "e = Some a \<and> out' = out" using assms(2) Some by (auto simp: server_SendMsg_def stream_Send_def)
    then show ?thesis using assms(1) len err by (simp add: stream_Send_def)
  qed
qed

lemma wire_search_items:
  "on_wire (marshal_Order K) sent out \<Longrightarrow> wire_search_items K f q order strs out = (e, out') \<Longrightarrow>
     e = Some (Errorf ''error send: '' marshal_error)
       \<and> refused (marshal_Order K) (replicate (length (filter (\<lambda>s. strings_Contains s q) strs)) order)
     \<or> (\<exists>sent'. search_items f q order strs sent = (e, sent') \<and> on_wire (marshal_Order K) sent' out')"
proof (induction strs arbitrary: sent out)
  case (Cons str strs)
  show ?case
  proof (cases "strings_Contains str q")
    case True
    obtain e1 out1 where s: "server_SendMsg (marshal_Order K) f order out = (e1, out1)" by fastforce
    then show ?thesis
      using wire_Send [OF Cons.prems(1) s] Cons.prems(2) True
      by (cases e1) (auto simp: SearchOrdersServer_Send_def s dest: Cons.IH)
  qed (use Cons in auto)
qed auto

lemma wire_search_range:
  "on_wire (marshal_Order K) sent out \<Longrightarrow> wire_search_range K f q orders out = (e, out') \<Longrightarrow>
     e = Some (Errorf ''error send: '' marshal_error)
       \<and> refused (marshal_Order K) (concat (map (\<lambda>x. replicate (matching_items q x) x) orders))
     \<or> (\<exists>sent'. search_range f q orders sent = (e, sent') \<and> on_wire (marshal_Order K) sent' out')"
proof (induction orders arbitrary: sent out)
  case (Cons order rest)
  obtain e1 out1 where s: "wire_search_items K f q order (Order_Items order) out = (e1, out1)" by fastforce
  then show ?case
    using wire_search_items [OF Cons.prems(1) s] Cons.prems(2)
    by (cases e1) (auto simp: matching_items_def dest: Cons.IH)
qed auto

lemma wire_send_each:
  "on_wire (marshal_CombinedShipment K) sent out \<Longrightarrow> wire_send_each K f ms out = (e, out') \<Longrightarrow>
     e = Some marshal_error \<and> refused (marshal_CombinedShipment K) ms
     \<or> (\<exists>sent'. send_each f ms sent = (e, sent') \<and> on_wire (marshal_CombinedShipment K) sent' out')"
proof (induction ms arbitrary: sent out)
  case (Cons m ms)
  obtain e1 out1 where s: "server_SendMsg (marshal_CombinedShipment K) f m out = (e1, out1)" by fastforce
  then show ?case
    using wire_Send [OF Cons.prems(1) s] Cons.prems(2)
    by (cases e1) (auto simp: ProcessOrdersServer_Send_def s dest: Cons.IH)
qed auto

section \<open>The loops\<close>

lemma wire_UpdateOrders_loop:
  "wire_UpdateOrders_loop K f orders acc (In_Stream bs e) = ((r, out), orders') \<Longrightarrow>
     (\<exists>r' sent. UpdateOrders_loop f orders acc (decoded (unmarshal_Order K) e bs) = ((r', sent), orders')
       \<and> (r = Return (Some marshal_error) \<and> refused (marshal_StringValue K)
              (snd (fst (UpdateOrders_loop (\<lambda>_. None) orders acc (decoded (unmarshal_Order K) e bs))))
            \<or> r' = r \<and> on_wire (marshal_StringValue K) sent out))"
proof (induction bs arbitrary: orders acc)
  case Nil
  let ?m = "''Orders processed '' @ acc"
  show ?case
  proof (cases e)
    case EOF
    obtain e1 out1 where s: "server_SendMsg (marshal_StringValue K) f ?m [] = (e1, out1)" by fastforce
    obtain e2 sent2 where s2: "stream_Send f ?m [] = (e2, sent2)" by fastforce
    have "r = Return e1 \<and> out = out1 \<and> orders' = orders"
      using Nil EOF s by (simp add: wire_UpdateOrders_loop.simps UpdateOrdersServer_Recv_def
        UpdateOrdersServer_SendAndClose_def server_Recv_def del: append_Cons)
    moreover have "UpdateOrders_loop f orders acc (In_Stream [] EOF) = ((Return e2, sent2), orders)"
      using s2 by (subst UpdateOrders_loop.simps) (simp del: append_Cons)
    moreover have "snd (fst (UpdateOrders_loop (\<lambda>_. None) orders acc (In_Stream [] EOF))) = [?m]"
      by (simp add: UpdateOrders_loop_Nil)
    ultimately show ?thesis using wire_Send [OF on_wire_Nil s] s2 EOF by (auto simp del: append_Cons)
  next
    case (Broken b)
    then show ?thesis using Nil
      by (simp add: wire_UpdateOrders_loop.simps UpdateOrdersServer_Recv_def server_Recv_def UpdateOrders_loop_simps)
  qed
next
  case (Cons b bs)
  show ?case
  proof (cases "unmarshal_Order K b")
    case None
    then show ?thesis using Cons.prems
      by (auto simp: wire_UpdateOrders_loop.simps [of K f orders acc] UpdateOrdersServer_Recv_def server_Recv_def
        UpdateOrders_loop_simps)
  next
    case (Some m)
    obtain ms e' where d: "decoded (unmarshal_Order K) e bs = In_Stream ms e'" by (metis in_stream.exhaust)
    then show ?thesis using Cons.prems Some
        Cons.IH [of "fmupd (Order_Id m) m orders" "acc @ Order_Id m @ '', ''"]
      by (simp add: wire_UpdateOrders_loop.simps [of K f orders acc] UpdateOrdersServer_Recv_def server_Recv_def
        UpdateOrders_loop_simps)
  qed
qed

lemma ProcessOrders_loop_keeps:
  "set sent \<subseteq> set (snd (ProcessOrders_loop at it (\<lambda>_. None) n st (In_Stream ids e) sent))"
proof (induction ids arbitrary: n st sent)
  case Nil
  then show ?case by (cases e) (simp_all add: ProcessOrders_loop_Nil)
next
  case (Cons i ids)
  show ?case
  proof (cases "combine (at n) i (combinedShipmentMap st)")
    case (Return shipments)
    then show ?thesis
      using Cons [of sent] Cons [of "sent @ range_values (it n shipments) shipments"]
      by (simp add: ProcessOrders_loop_Cons)
  qed (simp add: ProcessOrders_loop_Cons)
qed

lemma ProcessOrders_loop_refused:
  "refused encode sent \<Longrightarrow> refused encode (snd (ProcessOrders_loop at it (\<lambda>_. None) n st (In_Stream ids e) sent))"
  using ProcessOrders_loop_keeps [of sent at it n st ids e] by (auto simp: refused_def)

lemma wire_ProcessOrders_loop:
  "wire_ProcessOrders_loop K at it f n st (In_Stream bs e) out = (r, out') \<Longrightarrow>
     on_wire (marshal_CombinedShipment K) sent out \<Longrightarrow>
     r = Return (Some marshal_error)
       \<and> refused (marshal_CombinedShipment K)
            (snd (ProcessOrders_loop at it (\<lambda>_. None) n st (decoded (unmarshal_StringValue K) e bs) before))
     \<or> (\<exists>sent'. ProcessOrders_loop at it f n st (decoded (unmarshal_StringValue K) e bs) sent = (r, sent')
         \<and> on_wire (marshal_CombinedShipment K) sent' out')"
proof (induction bs arbitrary: n st sent out before)
  case Nil
  obtain e1 out1 where s: "wire_send_each K f (range_values (it n (combinedShipmentMap st)) (combinedShipmentMap st)) out = (e1, out1)"
    by fastforce
  show ?case
    using Nil.prems(1) wire_send_each [OF Nil.prems(2) s] s Nil.prems(2)
    by (cases e) (auto simp: wire_ProcessOrders_loop.simps ProcessOrdersServer_Recv_def server_Recv_def ProcessOrders_loop_Nil)
next
  case (Cons b bs)
  note wire = wire_ProcessOrders_loop.simps [of K at it f n st] ProcessOrdersServer_Recv_def server_Recv_def
  show ?case
  proof (cases "unmarshal_StringValue K b")
    case None
    then show ?thesis using Cons.prems by (auto simp: wire ProcessOrders_loop_Nil)
  next
    case (Some m)
    obtain ms e' where d: "decoded (unmarshal_StringValue K) e bs = In_Stream ms e'" by (metis in_stream.exhaust)
    show ?thesis
    proof (cases "combine (at n) m (combinedShipmentMap st)")
      case (Panic p)
      then show ?thesis using Cons.prems Some d
        by (auto simp: wire ProcessOrders_loop_Cons StringValue_GetValue_def)
    next
      case (Return shipments)
      show ?thesis
      proof (cases "batchMarker st = orderBatchSize")
        case True
        obtain e1 out1 where s: "wire_send_each K f (range_values (it n shipments) shipments) out = (e1, out1)" by fastforce
        show ?thesis
        proof (cases e1)
          case None
          then obtain sent1 where "send_each f (range_values (it n shipments) shipments) sent = (None, sent1)"
            "on_wire (marshal_CombinedShipment K) sent1 out1"
            using wire_send_each [OF Cons.prems(2) s] by auto
          then show ?thesis
            using Cons.IH [of "Suc n" "\<lparr>batchMarker = 0, combinedShipmentMap = fmempty\<rparr>" out1 sent1]
              Cons.prems(1) Some d Return True s None
            by (simp add: wire ProcessOrders_loop_Cons StringValue_GetValue_def)
        next
          case (Some e2)
          then show ?thesis using wire_send_each [OF Cons.prems(2) s] Cons.prems(1) \<open>unmarshal_StringValue K b = Some m\<close> d Return True s
            by (auto simp: wire ProcessOrders_loop_Cons StringValue_GetValue_def intro: ProcessOrders_loop_refused)
        qed
      next
        case False
        then show ?thesis
          using Cons.IH [OF _ Cons.prems(2), of "Suc n" "\<lparr>batchMarker = batchMarker st + 1, combinedShipmentMap = shipments\<rparr>"]
            Cons.prems(1) Some d Return
          by (simp add: wire ProcessOrders_loop_Cons StringValue_GetValue_def)
      qed
    qed
  qed
qed

section \<open>Properties\<close>

text \<open>C33: Over any codec, the streaming handlers that call the generated stream objects do to the bytes of
  the streams what their models do to the messages: they store the same orders, end in the same way
  and send the encodings of the same messages in the same order, for every way in which a \<open>Send\<close> may
  fail and whatever the bytes received. The exception is a call that would send a message that cannot
  be encoded: it may end with that error.\<close>

theorem handlers_on_wire:
  "(case (wire_SearchOrders K f it orders q, SearchOrders f it orders q) of ((e, out), (e', sent)) \<Rightarrow>
      e = e' \<and> on_wire (marshal_Order K) sent out
      \<or> e = Some (Errorf ''error send: '' marshal_error)
        \<and> refused (marshal_Order K) (snd (SearchOrders (\<lambda>_. None) it orders q)))
   \<and> (case (wire_UpdateOrders K f orders st, UpdateOrders f orders (decoded (unmarshal_Order K) (closing st) (pending st)))
      of (((r, out), s), ((r', sent), s')) \<Rightarrow> s = s' \<and>
        (r = r' \<and> on_wire (marshal_StringValue K) sent out
         \<or> r = Return (Some marshal_error) \<and> refused (marshal_StringValue K) (snd (fst
             (UpdateOrders (\<lambda>_. None) orders (decoded (unmarshal_Order K) (closing st) (pending st)))))))
   \<and> (case (wire_ProcessOrders K at its f st,
        ProcessOrders at its f (decoded (unmarshal_StringValue K) (closing st) (pending st))) of ((r, out), (r', sent)) \<Rightarrow>
        r = r' \<and> on_wire (marshal_CombinedShipment K) sent out
        \<or> r = Return (Some marshal_error) \<and> refused (marshal_CombinedShipment K) (snd
            (ProcessOrders at its (\<lambda>_. None) (decoded (unmarshal_StringValue K) (closing st) (pending st)))))"
  (is "?search \<and> ?update \<and> ?process")
proof (intro conjI)
  show ?search
    using wire_search_range [of K "[]" "[]" f q "range_values (it 0 orders) orders"]
    by (auto simp: wire_SearchOrders_def SearchOrders_def search_range_eq [of "\<lambda>_. None"] split: prod.split)
  show ?update
    using wire_UpdateOrders_loop [of K f orders "''Updated Order IDs : ''" "pending st" "closing st"]
    by (cases st) (auto simp: wire_UpdateOrders_def UpdateOrders_def split: prod.split)
  show ?process
    using wire_ProcessOrders_loop [of K at its f 0 process_init "pending st" "closing st" "[]" _ _ "[]" "[]"]
    by (cases st) (auto simp: wire_ProcessOrders_def ProcessOrders_def split: prod.split)
qed

end
