(* ===== verification/Order_Lookups.thy ===== *)
theory Order_Lookups
  imports Order_Server
begin

text \<open>
  \<open>ProcessOrders\<close> of \<^verbatim>\<open>dev/grpc/basic/server/order.go\<close> with its look-ups in the map apart. For each message
  it looks the order up two or three times, and another call may store between two of them.
\<close>

section \<open>One message\<close>

text \<open>
  The expression \<open>orders[orderId.GetValue()].Addresses[0].Address\<close>, and the body of the loop up to the
  batch test with its look-ups apart: the first gives the destination; if that has a shipment the second
  gives the order, if not the second gives the shipment's id and the third the order.
\<close>

definition destination_of :: "orders \<Rightarrow> string \<Rightarrow> string outcome" where
  "destination_of orders orderId =
     (case Order_Addresses (orders_get orders orderId) of
        [] \<Rightarrow> Panic ''index out of range [0] with length 0''
      | None # _ \<Rightarrow> Panic ''nil pointer dereference''
      | Some a # _ \<Rightarrow> Return (Address_Address a))"

definition join_shipment :: "(string, CombinedShipment) fmap \<Rightarrow> string \<Rightarrow> CombinedShipment \<Rightarrow> Order
    \<Rightarrow> (string, CombinedShipment) fmap" where
  "join_shipment shipments destination shipment ord =
     fmupd destination (shipment\<lparr>Shipment_OrderList := Shipment_OrderList shipment @ [ord]\<rparr>) shipments"

definition new_shipment :: "(string, CombinedShipment) fmap \<Rightarrow> string \<Rightarrow> string \<Rightarrow> Order
    \<Rightarrow> (string, CombinedShipment) fmap" where
  "new_shipment shipments destination named ord =
     fmupd destination \<lparr>Shipment_Id = ''cmb - '' @ named, Shipment_Status = ''Processed!'', Shipment_OrderList = [ord]\<rparr> shipments"

definition combine_reads :: "(nat \<Rightarrow> orders) \<Rightarrow> string \<Rightarrow> (string, CombinedShipment) fmap
    \<Rightarrow> (string, CombinedShipment) fmap outcome" where
  "combine_reads at orderId shipments =
     (case destination_of (at 0) orderId of
        Panic p \<Rightarrow> Panic p
      | Return destination \<Rightarrow>
          (case fmlookup shipments destination of
             Some shipment \<Rightarrow> Return (join_shipment shipments destination shipment (orders_get (at 1) orderId))
           | None \<Rightarrow>
               (case destination_of (at 1) orderId of
                  Panic p \<Rightarrow> Panic p
                | Return named \<Rightarrow> Return (new_shipment shipments destination named (orders_get (at 2) orderId)))))"

section \<open>The handler\<close>

text \<open>The handler, when its n-th message finds the map \<open>at n j\<close> at its j-th look-up.\<close>

function ProcessOrders_reads_loop :: "(nat \<Rightarrow> nat \<Rightarrow> orders) \<Rightarrow> (nat \<Rightarrow> (string, CombinedShipment) fmap \<Rightarrow> string list)
    \<Rightarrow> (nat \<Rightarrow> rpc_error option) \<Rightarrow> nat \<Rightarrow> process_state \<Rightarrow> string in_stream \<Rightarrow> CombinedShipment list
    \<Rightarrow> rpc_error option outcome \<times> CombinedShipment list" where
  "ProcessOrders_reads_loop at it f n st stream sent =
     (case stream_Recv stream of
        ((_, Some EOF), _) \<Rightarrow>
          (let (err, sent') = send_each f (range_values (it n (combinedShipmentMap st)) (combinedShipmentMap st)) sent
           in (Return err, sent'))
      | ((_, Some (Broken e)), _) \<Rightarrow> (Return (Some e), sent)
      | ((m, None), stream') \<Rightarrow>
          (let orderId = StringValue_GetValue m in
           case combine_reads (at n) orderId (combinedShipmentMap st) of
             Panic p \<Rightarrow> (Panic p, sent)
           | Return shipments \<Rightarrow>
               if batchMarker st = orderBatchSize
               then (case send_each f (range_values (it n shipments) shipments) sent of
                       (Some e, sent') \<Rightarrow> (Return (Some e), sent')
                     | (None, sent') \<Rightarrow>
                         ProcessOrders_reads_loop at it f (Suc n)
                           \<lparr>batchMarker = 0, combinedShipmentMap = fmempty\<rparr> stream' sent')
               else ProcessOrders_reads_loop at it f (Suc n)
                      \<lparr>batchMarker = batchMarker st + 1, combinedShipmentMap = shipments\<rparr> stream' sent))"
  by pat_completeness auto
termination
  by (relation "measure (\<lambda>(at, it, f, n, st, stream, sent). length (pending stream))")
     (auto simp: stream_Recv_def split: list.splits)

declare ProcessOrders_reads_loop.simps [simp del]

definition ProcessOrders_reads :: "(nat \<Rightarrow> nat \<Rightarrow> orders) \<Rightarrow> (nat \<Rightarrow> (string, CombinedShipment) fmap \<Rightarrow> string list)
    \<Rightarrow> (nat \<Rightarrow> rpc_error option) \<Rightarrow> string in_stream \<Rightarrow> rpc_error option outcome \<times> CombinedShipment list" where
  "ProcessOrders_reads at it f stream = ProcessOrders_reads_loop at it f 0 process_init stream []"

lemma ProcessOrders_reads_Nil:
  "ProcessOrders_reads_loop at it f n st (In_Stream [] e) sent = ProcessOrders_loop at' it f n st (In_Stream [] e) sent"
  by (cases e; subst ProcessOrders_reads_loop.simps; simp add: ProcessOrders_loop_Nil)

lemma ProcessOrders_reads_Cons:
  "ProcessOrders_reads_loop at it f n st (In_Stream (orderId # ids) e) sent =
     (case combine_reads (at n) orderId (combinedShipmentMap st) of
        Panic p \<Rightarrow> (Panic p, sent)
      | Return shipments \<Rightarrow>
          if batchMarker st = orderBatchSize
          then (case send_each f (range_values (it n shipments) shipments) sent of
                  (Some e, sent') \<Rightarrow> (Return (Some e), sent')
                | (None, sent') \<Rightarrow>
                    ProcessOrders_reads_loop at it f (Suc n)
                      \<lparr>batchMarker = 0, combinedShipmentMap = fmempty\<rparr> (In_Stream ids e) sent')
          else ProcessOrders_reads_loop at it f (Suc n)
                 \<lparr>batchMarker = batchMarker st + 1, combinedShipmentMap = shipments\<rparr> (In_Stream ids e) sent)"
  by (subst ProcessOrders_reads_loop.simps) (simp add: StringValue_GetValue_def cong: outcome.case_cong)

text \<open>A message whose look-ups all find one map is handled as by the handler of \<open>Order_Server\<close>.\<close>

lemma combine_reads_same: "combine_reads (\<lambda>_. m) = combine m"
  by (auto simp: fun_eq_iff combine_reads_def combine_def destination_of_def join_shipment_def new_shipment_def Let_def
    split: list.split option.split)

lemma ProcessOrders_reads_same: "ProcessOrders_reads (\<lambda>n _. at n) it f stream = ProcessOrders at it f stream"
proof -
  obtain ids e where "stream = In_Stream ids e" by (cases stream)
  moreover have "ProcessOrders_reads_loop (\<lambda>n _. at n) it f n st (In_Stream ids e) sent
      = ProcessOrders_loop at it f n st (In_Stream ids e) sent" for n st sent
  proof (induction ids arbitrary: n st sent)
    case Nil
    show ?case by (rule ProcessOrders_reads_Nil)
  next
    case (Cons i ids)
    show ?case
      unfolding ProcessOrders_reads_Cons ProcessOrders_loop_Cons combine_reads_same Cons.IH by (rule refl)
  qed
  ultimately show ?thesis by (simp add: ProcessOrders_reads_def ProcessOrders_def)
qed

end
