(* ===== verification/Order_Concurrent.thy ===== *)
theory Order_Concurrent
  imports Order_Lookups
begin

text \<open>
  The handlers of \<^verbatim>\<open>dev/grpc/basic/server/order.go\<close> as the gRPC runtime runs them: one goroutine per
  call, all over the one map \<open>orders\<close>. A step is what a handler does around one access to the map: the
  store or the look-up of a message, or one key of a range; steps of different calls come in any order.
  \<open>ProcessOrders\<close> looks a message's order up two or three times, and other calls may store in
  between, so that each look-up may find another map. A panic in a handler
  ends the process. Go forbids the unsynchronised access itself: what is shown here is what the
  server promises if each access to the map is atomic; \<open>Order_Race\<close> says which calls that can fail for.
\<close>

section \<open>Calls\<close>

text \<open>
  A call that is being served, with what is left of its stream, and its answer when it is done.
  \<open>SearchOrders\<close> keeps the keys that were there when it began and those it has visited. \<open>ProcessOrders\<close>
  between two look-ups for one message keeps its id, the destination, and the address in the shipment's id.
\<close>

datatype handler =
  Adding Order
| Getting string
| Search string
| Searching string "string fset" "string list" "Order list"
| Updating string "Order in_stream"
| Processing nat process_state "string in_stream" "CombinedShipment list"
| Combining nat process_state "string in_stream" "CombinedShipment list" string string "string option"
| Added "string option \<times> rpc_error option"
| Got "Order option \<times> rpc_error option"
| Searched "rpc_error option" "Order list"
| Updated "rpc_error option outcome" "string list"
| Processed "rpc_error option outcome" "CombinedShipment list"

text \<open>The calls as they arrive.\<close>

definition updating_call :: "Order in_stream \<Rightarrow> handler" where
  "updating_call stream = Updating ''Updated Order IDs : '' stream"

definition processing_call :: "string in_stream \<Rightarrow> handler" where
  "processing_call stream = Processing 0 process_init stream []"

text \<open>The shipments when the order itself is looked up: not before the id of a new shipment is.\<close>

definition combined :: "(string, CombinedShipment) fmap \<Rightarrow> string \<Rightarrow> string option \<Rightarrow> Order
    \<Rightarrow> (string, CombinedShipment) fmap option" where
  "combined shipments destination named ord =
     (case fmlookup shipments destination of
        Some shipment \<Rightarrow> Some (join_shipment shipments destination shipment ord)
      | None \<Rightarrow> map_option (\<lambda>a. new_shipment shipments destination a ord) named)"

text \<open>
  One step of a call: the map before, the call, the orders stored, the call after. The range over a map
  visits each key that was there and stays, and may or may not visit keys that were added meanwhile.
\<close>

inductive handler_step :: "(nat \<Rightarrow> rpc_error option) \<Rightarrow> (nat \<Rightarrow> (string, CombinedShipment) fmap \<Rightarrow> string list)
    \<Rightarrow> (string \<Rightarrow> string) \<Rightarrow> orders \<Rightarrow> handler \<Rightarrow> Order list \<Rightarrow> handler \<Rightarrow> bool" for f it pbtext orders where
  add: "handler_step f it pbtext orders (Adding x) [x] (Added (fst (AddOrder orders x)))"
| get: "handler_step f it pbtext orders (Getting k) [] (Got (GetOrder pbtext orders k))"
| search: "handler_step f it pbtext orders (Search q) [] (Searching q (fmdom orders) [] [])"
| visit: "k |\<in>| fmdom orders \<Longrightarrow> k \<notin> set visited \<Longrightarrow>
    search_items f q (orders_get orders k) (Order_Items (orders_get orders k)) sent = (None, sent') \<Longrightarrow>
    handler_step f it pbtext orders (Searching q start visited sent) [] (Searching q start (k # visited) sent')"
| visit_fails: "k |\<in>| fmdom orders \<Longrightarrow> k \<notin> set visited \<Longrightarrow>
    search_items f q (orders_get orders k) (Order_Items (orders_get orders k)) sent = (Some e, sent') \<Longrightarrow>
    handler_step f it pbtext orders (Searching q start visited sent) [] (Searched (Some e) sent')"
| searched: "fset start \<subseteq> set visited \<Longrightarrow>
    handler_step f it pbtext orders (Searching q start visited sent) [] (Searched None sent)"
| update: "handler_step f it pbtext orders (Updating acc (In_Stream (x # xs) e)) [x]
    (Updating (acc @ Order_Id x @ '', '') (In_Stream xs e))"
| updated: "UpdateOrders_loop f orders acc (In_Stream [] e) = ((r, sent), orders') \<Longrightarrow>
    handler_step f it pbtext orders (Updating acc (In_Stream [] e)) [] (Updated r sent)"
| process_panics: "destination_of orders k = Panic p \<Longrightarrow>
    handler_step f it pbtext orders (Processing n st (In_Stream (k # ks) e) sent) [] (Processed (Panic p) sent)"
| process_looks: "destination_of orders k = Return d \<Longrightarrow>
    handler_step f it pbtext orders (Processing n st (In_Stream (k # ks) e) sent) []
      (Combining n st (In_Stream ks e) sent k d None)"
| process_name_panics: "fmlookup (combinedShipmentMap st) d = None \<Longrightarrow> destination_of orders k = Panic p \<Longrightarrow>
    handler_step f it pbtext orders (Combining n st stream sent k d None) [] (Processed (Panic p) sent)"
| process_names: "fmlookup (combinedShipmentMap st) d = None \<Longrightarrow> destination_of orders k = Return a \<Longrightarrow>
    handler_step f it pbtext orders (Combining n st stream sent k d None) [] (Combining n st stream sent k d (Some a))"
| process_keeps: "combined (combinedShipmentMap st) d named (orders_get orders k) = Some m \<Longrightarrow> batchMarker st \<noteq> orderBatchSize \<Longrightarrow>
    handler_step f it pbtext orders (Combining n st stream sent k d named) []
      (Processing (Suc n) \<lparr>batchMarker = batchMarker st + 1, combinedShipmentMap = m\<rparr> stream sent)"
| process_ships: "combined (combinedShipmentMap st) d named (orders_get orders k) = Some m \<Longrightarrow> batchMarker st = orderBatchSize \<Longrightarrow>
    send_each f (range_values (it n m) m) sent = (None, sent') \<Longrightarrow>
    handler_step f it pbtext orders (Combining n st stream sent k d named) []
      (Processing (Suc n) \<lparr>batchMarker = 0, combinedShipmentMap = fmempty\<rparr> stream sent')"
| process_fails: "combined (combinedShipmentMap st) d named (orders_get orders k) = Some m \<Longrightarrow> batchMarker st = orderBatchSize \<Longrightarrow>
    send_each f (range_values (it n m) m) sent = (Some err, sent') \<Longrightarrow>
    handler_step f it pbtext orders (Combining n st stream sent k d named) [] (Processed (Return (Some err)) sent')"
| processed: "ProcessOrders_loop (\<lambda>_. orders) it f n st (In_Stream [] e) sent = (r, sent') \<Longrightarrow>
    handler_step f it pbtext orders (Processing n st (In_Stream [] e) sent) [] (Processed r sent')"

inductive_cases handler_stepE: "handler_step f it pbtext orders t xs t'"

inductive_simps handler_step_simps:
  "handler_step f it pbtext orders (Adding x) xs t'"
  "handler_step f it pbtext orders (Getting k) xs t'"
  "handler_step f it pbtext orders (Search q) xs t'"
  "handler_step f it pbtext orders (Searching q start visited sent) xs t'"
  "handler_step f it pbtext orders (Updating acc stream) xs t'"
  "handler_step f it pbtext orders (Processing n st stream sent) xs t'"
  "handler_step f it pbtext orders (Combining n st stream sent k d named) xs t'"
  "handler_step f it pbtext orders (Added a) xs t'"
  "handler_step f it pbtext orders (Got g) xs t'"
  "handler_step f it pbtext orders (Searched r sent) xs t'"
  "handler_step f it pbtext orders (Updated u ss) xs t'"
  "handler_step f it pbtext orders (Processed r' sent') xs t'"

section \<open>The server\<close>

text \<open>\<open>stored\<close> records which call stored which order, in the order in which it happened.\<close>

record conf =
  shared :: orders
  handlers :: "handler list"
  stored :: "(nat \<times> Order) list"
  crashed :: bool

fun panicked :: "handler \<Rightarrow> bool" where
  "panicked (Updated (Panic _) _) = True"
| "panicked (Processed (Panic _) _) = True"
| "panicked _ = False"

fun finished :: "handler \<Rightarrow> bool" where
  "finished (Added _) = True"
| "finished (Got _) = True"
| "finished (Searched _ _) = True"
| "finished (Updated _ _) = True"
| "finished (Processed _ _) = True"
| "finished _ = False"

definition store_all :: "orders \<Rightarrow> Order list \<Rightarrow> orders" where
  "store_all orders xs = foldl (\<lambda>s x. snd (AddOrder s x)) orders xs"

inductive server_step :: "(nat \<Rightarrow> nat \<Rightarrow> rpc_error option) \<Rightarrow> (nat \<Rightarrow> nat \<Rightarrow> (string, CombinedShipment) fmap \<Rightarrow> string list)
    \<Rightarrow> (string \<Rightarrow> string) \<Rightarrow> conf \<Rightarrow> conf \<Rightarrow> bool" for f it pbtext where
  step: "\<not> crashed c \<Longrightarrow> i < length (handlers c) \<Longrightarrow>
    handler_step (f i) (it i) pbtext (shared c) (handlers c ! i) xs t \<Longrightarrow>
    server_step f it pbtext c \<lparr>shared = store_all (shared c) xs, handlers = (handlers c)[i := t],
      stored = stored c @ map (Pair i) xs, crashed = panicked t\<rparr>"

definition server_start :: "orders \<Rightarrow> handler list \<Rightarrow> conf" where
  "server_start orders hs = \<lparr>shared = orders, handlers = hs, stored = [], crashed = False\<rparr>"

abbreviation reaches :: "(nat \<Rightarrow> nat \<Rightarrow> rpc_error option) \<Rightarrow> (nat \<Rightarrow> nat \<Rightarrow> (string, CombinedShipment) fmap \<Rightarrow> string list)
    \<Rightarrow> (string \<Rightarrow> string) \<Rightarrow> conf \<Rightarrow> conf \<Rightarrow> bool" where
  "reaches f it pbtext \<equiv> (server_step f it pbtext)\<^sup>*\<^sup>*"

section \<open>An executable scheduler\<close>

text \<open>The step of a call as a function, a search taking the least key it has not visited, and a schedule of calls.\<close>

definition handler_run :: "(nat \<Rightarrow> rpc_error option) \<Rightarrow> (nat \<Rightarrow> (string, CombinedShipment) fmap \<Rightarrow> string list)
    \<Rightarrow> (string \<Rightarrow> string) \<Rightarrow> orders \<Rightarrow> handler \<Rightarrow> (Order list \<times> handler) option" where
  "handler_run f it pbtext orders t =
     (case t of
        Adding x \<Rightarrow> Some ([x], Added (fst (AddOrder orders x)))
      | Getting k \<Rightarrow> Some ([], Got (GetOrder pbtext orders k))
      | Search q \<Rightarrow> Some ([], Searching q (fmdom orders) [] [])
      | Searching q start visited sent \<Rightarrow>
          (case filter (\<lambda>k. k \<notin> set visited) (sorted_list_of_fset (fmdom orders)) of
             [] \<Rightarrow> if start |\<subseteq>| fset_of_list visited then Some ([], Searched None sent) else None
           | k # _ \<Rightarrow>
               (case search_items f q (orders_get orders k) (Order_Items (orders_get orders k)) sent of
                  (None, sent') \<Rightarrow> Some ([], Searching q start (k # visited) sent')
                | (Some e, sent') \<Rightarrow> Some ([], Searched (Some e) sent')))
      | Updating acc (In_Stream (x # xs) e) \<Rightarrow> Some ([x], Updating (acc @ Order_Id x @ '', '') (In_Stream xs e))
      | Updating acc (In_Stream [] e) \<Rightarrow>
          (case UpdateOrders_loop f orders acc (In_Stream [] e) of ((r, sent), _) \<Rightarrow> Some ([], Updated r sent))
      | Processing n st (In_Stream (k # ks) e) sent \<Rightarrow>
          (case destination_of orders k of
             Panic p \<Rightarrow> Some ([], Processed (Panic p) sent)
           | Return d \<Rightarrow> Some ([], Combining n st (In_Stream ks e) sent k d None))
      | Combining n st stream sent k d named \<Rightarrow>
          (case combined (combinedShipmentMap st) d named (orders_get orders k) of
             None \<Rightarrow>
               (case destination_of orders k of
                  Panic p \<Rightarrow> Some ([], Processed (Panic p) sent)
                | Return a \<Rightarrow> Some ([], Combining n st stream sent k d (Some a)))
           | Some m \<Rightarrow>
               if batchMarker st \<noteq> orderBatchSize
               then Some ([], Processing (Suc n) \<lparr>batchMarker = batchMarker st + 1, combinedShipmentMap = m\<rparr> stream sent)
               else (case send_each f (range_values (it n m) m) sent of
                       (None, sent') \<Rightarrow> Some ([], Processing (Suc n) \<lparr>batchMarker = 0, combinedShipmentMap = fmempty\<rparr> stream sent')
                     | (Some err, sent') \<Rightarrow> Some ([], Processed (Return (Some err)) sent')))
      | Processing n st (In_Stream [] e) sent \<Rightarrow>
          (case ProcessOrders_loop (\<lambda>_. orders) it f n st (In_Stream [] e) sent of (r, sent') \<Rightarrow> Some ([], Processed r sent'))
      | _ \<Rightarrow> None)"

lemma filter_Cons_in: "filter P xs = y # ys \<Longrightarrow> y \<in> set xs \<and> P y"
  by (auto simp: filter_eq_Cons_iff)

lemma combined_None: "combined m d named ord = None \<Longrightarrow> fmlookup m d = None \<and> named = None"
  by (auto simp: combined_def split: option.splits)

lemma handler_run_step: "handler_run f it pbtext orders t = Some (xs, t') \<Longrightarrow> handler_step f it pbtext orders t xs t'"
  unfolding handler_run_def
  by (auto split: handler.splits in_stream.splits list.splits prod.splits option.splits outcome.splits if_splits
      dest!: filter_Cons_in combined_None intro: handler_step.intros simp: less_eq_fset.rep_eq fset_of_list.rep_eq sorted_list_of_fset.rep_eq)

fun server_run :: "(nat \<Rightarrow> nat \<Rightarrow> rpc_error option) \<Rightarrow> (nat \<Rightarrow> nat \<Rightarrow> (string, CombinedShipment) fmap \<Rightarrow> string list)
    \<Rightarrow> (string \<Rightarrow> string) \<Rightarrow> nat list \<Rightarrow> conf \<Rightarrow> conf" where
  "server_run f it pbtext [] c = c"
| "server_run f it pbtext (i # is) c =
     (if crashed c \<or> length (handlers c) \<le> i then c
      else case handler_run (f i) (it i) pbtext (shared c) (handlers c ! i) of
             None \<Rightarrow> c
           | Some (xs, t) \<Rightarrow> server_run f it pbtext is \<lparr>shared = store_all (shared c) xs, handlers = (handlers c)[i := t],
               stored = stored c @ map (Pair i) xs, crashed = panicked t\<rparr>)"

lemma server_run_reaches: "reaches f it pbtext c (server_run f it pbtext is c)"
proof (induction f it pbtext "is" c rule: server_run.induct)
  case (2 f it pbtext i "is" c)
  show ?case
  proof (cases "crashed c \<or> length (handlers c) \<le> i \<or> handler_run (f i) (it i) pbtext (shared c) (handlers c ! i) = None")
    case False
    then obtain xs t where run: "handler_run (f i) (it i) pbtext (shared c) (handlers c ! i) = Some (xs, t)"
      and c: "\<not> crashed c" "i < length (handlers c)" by auto
    let ?c = "\<lparr>shared = store_all (shared c) xs, handlers = (handlers c)[i := t], stored = stored c @ map (Pair i) xs, crashed = panicked t\<rparr>"
    have "server_step f it pbtext c ?c" using c handler_run_step [OF run] by (rule server_step.step)
    moreover have "reaches f it pbtext ?c (server_run f it pbtext is ?c)" using "2.IH" c run by auto
    ultimately show ?thesis using c run by (auto intro: converse_rtranclp_into_rtranclp)
  qed auto
qed simp

section \<open>The store\<close>

lemma store_all_simps [simp]:
  "store_all orders [] = orders" "store_all orders (x # xs) = store_all (fmupd (Order_Id x) x orders) xs"
  "store_all orders (xs @ ys) = store_all (store_all orders xs) ys"
  by (simp_all add: store_all_def AddOrder_def)

lemma store_all_log: "foldl (\<lambda>s (_, x). snd (AddOrder s x)) orders log = store_all orders (map snd log)"
  by (induction log arbitrary: orders) (auto simp: AddOrder_def)

text \<open>What a call has yet to store.\<close>

fun to_store :: "handler \<Rightarrow> Order list" where
  "to_store (Adding x) = [x]"
| "to_store (Updating _ stream) = pending stream"
| "to_store _ = []"

lemma handler_step_stores: "handler_step f it pbtext orders t xs t' \<Longrightarrow> to_store t = xs @ to_store t'"
  by (auto elim!: handler_stepE)

definition stored_by :: "nat \<Rightarrow> (nat \<times> Order) list \<Rightarrow> Order list" where
  "stored_by i log = map snd (filter (\<lambda>e. fst e = i) log)"

lemma stored_by_simps [simp]:
  "stored_by i [] = []" "stored_by i (log @ log') = stored_by i log @ stored_by i log'"
  "stored_by i (map (Pair j) xs) = (if i = j then xs else [])"
  by (simp_all add: stored_by_def filter_map comp_def)

definition store_inv :: "orders \<Rightarrow> handler list \<Rightarrow> conf \<Rightarrow> bool" where
  "store_inv orders hs c \<longleftrightarrow> length (handlers c) = length hs
     \<and> shared c = store_all orders (map snd (stored c))
     \<and> (\<forall>i < length hs. stored_by i (stored c) @ to_store (handlers c ! i) = to_store (hs ! i))
     \<and> set (stored c) \<subseteq> {..<length hs} \<times> UNIV"

lemma store_inv_step: "server_step f it pbtext c c' \<Longrightarrow> store_inv orders hs c \<Longrightarrow> store_inv orders hs c'"
proof (induction rule: server_step.induct)
  case (step c i xs t)
  have "to_store (handlers c ! i) = xs @ to_store t" using step.hyps(3) by (rule handler_step_stores)
  then show ?case
    using step.hyps(2) step.prems by (auto simp: store_inv_def nth_list_update comp_def)
qed

lemma store_inv_reaches: "reaches f it pbtext (server_start orders hs) c \<Longrightarrow> store_inv orders hs c"
proof (induction rule: rtranclp_induct)
  case base
  show ?case by (simp add: store_inv_def server_start_def)
qed (rule store_inv_step)

section \<open>A streaming call among others\<close>

text \<open>The maps that there have been.\<close>

definition past_maps :: "orders \<Rightarrow> conf \<Rightarrow> orders set" where
  "past_maps orders c = {store_all orders (map snd (take k (stored c))) | k. True}"

lemma past_maps_now: "store_inv orders hs c \<Longrightarrow> shared c \<in> past_maps orders c"
  by (auto simp: past_maps_def store_inv_def intro!: exI [of _ "length (stored c)"])

lemma past_maps_grow: "stored c' = stored c @ log \<Longrightarrow> past_maps orders c \<subseteq> past_maps orders c'"
proof
  fix m assume c': "stored c' = stored c @ log" and "m \<in> past_maps orders c"
  then obtain k where "m = store_all orders (map snd (take k (stored c)))" by (auto simp: past_maps_def)
  then have "m = store_all orders (map snd (take (min k (length (stored c))) (stored c')))"
    by (simp add: c' min_def)
  then show "m \<in> past_maps orders c'" by (auto simp: past_maps_def)
qed

text \<open>
  The look-ups of a \<open>ProcessOrders\<close> call are numbered, three to a message: look-up \<open>j\<close> of message \<open>n\<close> has the
  number \<open>3 * n + j\<close>. \<open>ks i\<close> is how many stores came before look-up \<open>i\<close>, and so says which map it found.
\<close>

definition version :: "orders \<Rightarrow> (nat \<times> Order) list \<Rightarrow> nat \<Rightarrow> orders" where
  "version orders log k = store_all orders (map snd (take k log))"

definition reads_at :: "orders \<Rightarrow> (nat \<times> Order) list \<Rightarrow> (nat \<Rightarrow> nat) \<Rightarrow> nat \<Rightarrow> nat \<Rightarrow> orders" where
  "reads_at orders log ks n j = version orders log (ks (3 * n + j))"

text \<open>The first \<open>N\<close> look-ups were made in this order, and all before now.\<close>

definition in_time :: "nat \<Rightarrow> nat \<Rightarrow> (nat \<Rightarrow> nat) \<Rightarrow> bool" where
  "in_time now N ks \<longleftrightarrow> (\<forall>i < N. ks i \<le> now) \<and> (\<forall>j < N. \<forall>i \<le> j. ks i \<le> ks j)"

definition from_now :: "nat \<Rightarrow> nat \<Rightarrow> (nat \<Rightarrow> nat) \<Rightarrow> nat \<Rightarrow> nat" where
  "from_now now N ks i = (if i < N then ks i else now)"

lemma from_now_in_time: "in_time now N ks \<Longrightarrow> in_time now M (from_now now N ks)"
  by (auto simp: in_time_def from_now_def)

lemma from_now_mono: "in_time now N ks \<Longrightarrow> mono (from_now now N ks) \<and> (\<forall>i. from_now now N ks i \<le> now)"
  by (auto simp: in_time_def from_now_def mono_def)

lemma version_append: "k \<le> length log \<Longrightarrow> version orders (log @ log') k = version orders log k"
  by (simp add: version_def)

lemma reads_before: "3 * m + j < N \<Longrightarrow> reads_at orders log (from_now now N ks) m j = reads_at orders log ks m j"
  by (simp add: reads_at_def from_now_def)

lemma reads_now: "N \<le> 3 * m + j \<Longrightarrow> reads_at orders log (from_now (length log) N ks) m j = version orders log (length log)"
  by (simp add: reads_at_def from_now_def)

text \<open>The handler has come to some point when the look-ups of the first messages found these maps.\<close>

definition came_to :: "(nat \<Rightarrow> (string, CombinedShipment) fmap \<Rightarrow> string list) \<Rightarrow> (nat \<Rightarrow> rpc_error option) \<Rightarrow> string in_stream
    \<Rightarrow> (nat \<Rightarrow> nat \<Rightarrow> orders) \<Rightarrow> nat \<Rightarrow> process_state \<Rightarrow> string in_stream \<Rightarrow> CombinedShipment list \<Rightarrow> bool" where
  "came_to it f stream maps n st rest sent \<longleftrightarrow>
     (\<forall>at. (\<forall>m < n. \<forall>j < 3. at m j = maps m j) \<longrightarrow>
        ProcessOrders_reads at it f stream = ProcessOrders_reads_loop at it f n st rest sent)"

text \<open>
  A \<open>ProcessOrders\<close> call behaves as the handler alone would if its look-ups found, in this order, maps
  that there have been.
\<close>

definition looked :: "string option \<Rightarrow> nat" where
  "looked named = (case named of None \<Rightarrow> 1 | Some _ \<Rightarrow> 2)"

definition processes :: "(nat \<Rightarrow> (string, CombinedShipment) fmap \<Rightarrow> string list) \<Rightarrow> (nat \<Rightarrow> rpc_error option) \<Rightarrow> string in_stream
    \<Rightarrow> orders \<Rightarrow> (nat \<times> Order) list \<Rightarrow> handler \<Rightarrow> bool" where
  "processes it f stream orders log t \<longleftrightarrow>
     (case t of
        Processing n st rest sent \<Rightarrow> \<exists>ks. in_time (length log) (3 * n) ks
          \<and> came_to it f stream (reads_at orders log ks) n st rest sent
      | Combining n st rest sent k d named \<Rightarrow> \<exists>ks. in_time (length log) (3 * n + looked named) ks
          \<and> came_to it f stream (reads_at orders log ks) n st (In_Stream (k # pending rest) (closing rest)) sent
          \<and> destination_of (reads_at orders log ks n 0) k = Return d
          \<and> (named = None \<or> fmlookup (combinedShipmentMap st) d = None
              \<and> destination_of (reads_at orders log ks n 1) k = Return (the named))
      | Processed r sent \<Rightarrow> \<exists>ks. mono ks \<and> (\<forall>i. ks i \<le> length log)
          \<and> ProcessOrders_reads (reads_at orders log ks) it f stream = (r, sent)
      | _ \<Rightarrow> False)"

lemma came_to_cong:
  "came_to it f stream maps n st rest sent \<Longrightarrow> (\<And>m j. m < n \<Longrightarrow> j < 3 \<Longrightarrow> maps' m j = maps m j) \<Longrightarrow>
     came_to it f stream maps' n st rest sent"
  by (simp add: came_to_def)

lemma came_to_run: "came_to it f stream maps n st rest sent \<Longrightarrow>
    ProcessOrders_reads maps it f stream = ProcessOrders_reads_loop maps it f n st rest sent"
  by (simp add: came_to_def)

lemma came_to_next:
  assumes "came_to it f stream maps n st rest sent"
    and "\<And>at. (\<And>j. j < 3 \<Longrightarrow> at n j = maps n j) \<Longrightarrow>
      ProcessOrders_reads_loop at it f n st rest sent = ProcessOrders_reads_loop at it f (Suc n) st' rest' sent'"
  shows "came_to it f stream maps (Suc n) st' rest' sent'"
  using assms by (simp add: came_to_def)

lemma processes_mono:
  assumes "processes it f stream orders log t"
  shows "processes it f stream orders (log @ log') t"
proof -
  have same: "reads_at orders (log @ log') ks m j = reads_at orders log ks m j"
    if "in_time (length log) N ks" "3 * m + j < N" for ks N m j
    using that by (simp add: in_time_def reads_at_def version_append)
  have later: "in_time (length (log @ log')) N ks" if "in_time (length log) N ks" for N ks
    using that by (auto simp: in_time_def)
  show ?thesis
  proof (cases t)
    case (Processing n st rest sent)
    then obtain ks where "in_time (length log) (3 * n) ks" "came_to it f stream (reads_at orders log ks) n st rest sent"
      using assms by (auto simp: processes_def)
    then show ?thesis
      using Processing same later by (auto simp: processes_def intro!: exI [of _ ks] intro: came_to_cong)
  next
    case (Combining n st rest sent k d named)
    then obtain ks where ks: "in_time (length log) (3 * n + looked named) ks"
      "came_to it f stream (reads_at orders log ks) n st (In_Stream (k # pending rest) (closing rest)) sent"
      "destination_of (reads_at orders log ks n 0) k = Return d"
      "named = None \<or> fmlookup (combinedShipmentMap st) d = None
        \<and> destination_of (reads_at orders log ks n 1) k = Return (the named)"
      using assms by (auto simp: processes_def)
    have "came_to it f stream (reads_at orders (log @ log') ks) n st (In_Stream (k # pending rest) (closing rest)) sent"
      by (rule came_to_cong [OF ks(2)]) (rule same [OF ks(1)], simp)
    moreover have "reads_at orders (log @ log') ks n 0 = reads_at orders log ks n 0"
      by (rule same [OF ks(1)]) (simp add: looked_def split: option.split)
    moreover have "named \<noteq> None \<Longrightarrow> reads_at orders (log @ log') ks n 1 = reads_at orders log ks n 1"
      by (rule same [OF ks(1)]) (auto simp: looked_def)
    ultimately show ?thesis
      using Combining ks(3,4) later [OF ks(1)] by (auto simp: processes_def intro!: exI [of _ ks])
  next
    case (Processed r sent)
    then obtain ks where ks: "mono ks" "\<forall>i. ks i \<le> length log" "ProcessOrders_reads (reads_at orders log ks) it f stream = (r, sent)"
      using assms by (auto simp: processes_def)
    then have "reads_at orders (log @ log') ks = reads_at orders log ks"
      by (simp add: fun_eq_iff reads_at_def version_append)
    then show ?thesis using Processed ks by (auto simp: processes_def intro!: exI [of _ ks] trans_le_add1)
  qed (use assms in \<open>simp_all add: processes_def\<close>)
qed

lemma processes_start: "processes it f stream orders log (processing_call stream)"
  by (simp add: processes_def processing_call_def came_to_def in_time_def ProcessOrders_reads_def)

text \<open>The maps are extended by the one that the step finds.\<close>

lemma processes_last:
  assumes "in_time (length log) N ks" and "3 * n \<le> N"
    and "came_to it f stream (reads_at orders log ks) n st rest sent"
    and "ProcessOrders_reads_loop (reads_at orders log (from_now (length log) N ks)) it f n st rest sent = (r, sent')"
  shows "processes it f stream orders log (Processed r sent')"
proof -
  let ?ks = "from_now (length log) N ks"
  have "came_to it f stream (reads_at orders log ?ks) n st rest sent"
    by (rule came_to_cong [OF assms(3)]) (use assms(2) in \<open>simp add: reads_before\<close>)
  then have "ProcessOrders_reads (reads_at orders log ?ks) it f stream = (r, sent')"
    using assms(4) by (simp add: came_to_run)
  then show ?thesis
    using from_now_mono [OF assms(1)] by (auto simp: processes_def intro!: exI [of _ ?ks])
qed

lemma combining_reads:
  assumes "destination_of (reads_at orders log ks n 0) k = Return d"
    and "named = None \<or> fmlookup sh d = None \<and> destination_of (reads_at orders log ks n 1) k = Return (the named)"
    and "combined sh d named (orders_get (version orders log (length log)) k) = Some m"
    and "\<And>j. j < 3 \<Longrightarrow> at n j = reads_at orders log (from_now (length log) (3 * n + looked named) ks) n j"
  shows "combine_reads (at n) k sh = Return m"
proof (cases named)
  case None
  then obtain s where s: "fmlookup sh d = Some s" using assms(3) by (auto simp: combined_def split: option.splits)
  have "at n 0 = reads_at orders log ks n 0" "at n 1 = version orders log (length log)"
    using assms(4) None by (simp_all add: looked_def reads_before reads_now)
  then show ?thesis using s assms(1,3) by (simp add: combine_reads_def combined_def)
next
  case (Some a)
  have "at n 0 = reads_at orders log ks n 0" "at n 1 = reads_at orders log ks n 1" "at n 2 = version orders log (length log)"
    using assms(4) Some by (simp_all add: looked_def reads_before reads_now)
  then show ?thesis using Some assms(1-3) by (simp add: combine_reads_def combined_def)
qed

lemma processes_Combining_step:
  assumes "processes it f stream orders log (Combining n st rest sent k d named)" and "m = version orders log (length log)"
    and "combined (combinedShipmentMap st) d named (orders_get m k) = Some sh"
    and "batchMarker st = orderBatchSize \<and> st' = \<lparr>batchMarker = 0, combinedShipmentMap = fmempty\<rparr>
        \<and> send_each f (range_values (it n sh) sh) sent = (None, sent')
      \<or> batchMarker st \<noteq> orderBatchSize \<and> st' = \<lparr>batchMarker = batchMarker st + 1, combinedShipmentMap = sh\<rparr> \<and> sent' = sent"
  shows "processes it f stream orders log (Processing (Suc n) st' rest sent')"
proof -
  obtain ks where ks: "in_time (length log) (3 * n + looked named) ks"
    "came_to it f stream (reads_at orders log ks) n st (In_Stream (k # pending rest) (closing rest)) sent"
    "destination_of (reads_at orders log ks n 0) k = Return d"
    "named = None \<or> fmlookup (combinedShipmentMap st) d = None
      \<and> destination_of (reads_at orders log ks n 1) k = Return (the named)"
    using assms(1) by (auto simp: processes_def)
  let ?ks = "from_now (length log) (3 * n + looked named) ks"
  have "came_to it f stream (reads_at orders log ?ks) n st (In_Stream (k # pending rest) (closing rest)) sent"
    by (rule came_to_cong [OF ks(2)]) (simp add: reads_before)
  then have "came_to it f stream (reads_at orders log ?ks) (Suc n) st' rest sent'"
  proof (rule came_to_next)
    fix at :: "nat \<Rightarrow> nat \<Rightarrow> orders"
    assume "\<And>j. j < 3 \<Longrightarrow> at n j = reads_at orders log ?ks n j"
    then have "combine_reads (at n) k (combinedShipmentMap st) = Return sh"
      by (rule combining_reads [OF ks(3,4) assms(3) [unfolded assms(2)]])
    then show "ProcessOrders_reads_loop at it f n st (In_Stream (k # pending rest) (closing rest)) sent
        = ProcessOrders_reads_loop at it f (Suc n) st' rest sent'"
      using assms(4) by (cases rest) (auto simp: ProcessOrders_reads_Cons)
  qed
  then show ?thesis
    using from_now_in_time [OF ks(1)] by (auto simp: processes_def intro!: exI [of _ ?ks])
qed

lemma processes_Combining_end:
  assumes "processes it f stream orders log (Combining n st rest sent k d named)" and "m = version orders log (length log)"
    and "combined (combinedShipmentMap st) d named (orders_get m k) = Some sh"
    and "batchMarker st = orderBatchSize" and "send_each f (range_values (it n sh) sh) sent = (Some err, sent')"
  shows "processes it f stream orders log (Processed (Return (Some err)) sent')"
proof -
  obtain ks where ks: "in_time (length log) (3 * n + looked named) ks"
    "came_to it f stream (reads_at orders log ks) n st (In_Stream (k # pending rest) (closing rest)) sent"
    "destination_of (reads_at orders log ks n 0) k = Return d"
    "named = None \<or> fmlookup (combinedShipmentMap st) d = None
      \<and> destination_of (reads_at orders log ks n 1) k = Return (the named)"
    using assms(1) by (auto simp: processes_def)
  have "combine_reads (reads_at orders log (from_now (length log) (3 * n + looked named) ks) n) k (combinedShipmentMap st) = Return sh"
    by (rule combining_reads [OF ks(3,4) assms(3) [unfolded assms(2)]]) simp
  then show ?thesis
    using assms(4,5) by (intro processes_last [OF ks(1) _ ks(2)]) (simp_all add: ProcessOrders_reads_Cons)
qed

lemma handler_step_processes:
  assumes "handler_step f it pbtext m t xs t'" and "processes it f stream orders log t" and "m = version orders log (length log)"
  shows "processes it f stream orders log t'"
  using assms
proof (induction rule: handler_step.induct)
  case (process_panics k p n st ks' e sent)
  then obtain ks where ks: "in_time (length log) (3 * n) ks"
    "came_to it f stream (reads_at orders log ks) n st (In_Stream (k # ks') e) sent" by (auto simp: processes_def)
  have "reads_at orders log (from_now (length log) (3 * n) ks) n 0 = m" using process_panics.prems(2) by (simp add: reads_now)
  then show ?case
    using process_panics.hyps by (intro processes_last [OF ks(1) _ ks(2)]) (simp_all add: ProcessOrders_reads_Cons combine_reads_def)
next
  case (process_looks k d n st ks' e sent)
  then obtain ks where ks: "in_time (length log) (3 * n) ks"
    "came_to it f stream (reads_at orders log ks) n st (In_Stream (k # ks') e) sent" by (auto simp: processes_def)
  let ?ks = "from_now (length log) (3 * n) ks"
  have "came_to it f stream (reads_at orders log ?ks) n st (In_Stream (k # ks') e) sent"
    by (rule came_to_cong [OF ks(2)]) (simp add: reads_before)
  then show ?case
    using process_looks.hyps process_looks.prems(2) from_now_in_time [OF ks(1)]
    by (auto simp: processes_def reads_now intro!: exI [of _ ?ks])
next
  case (process_name_panics st d k p n rest sent)
  then obtain ks where ks: "in_time (length log) (3 * n + 1) ks"
    "came_to it f stream (reads_at orders log ks) n st (In_Stream (k # pending rest) (closing rest)) sent"
    "destination_of (reads_at orders log ks n 0) k = Return d" by (auto simp: processes_def looked_def)
  let ?ks = "from_now (length log) (3 * n + 1) ks"
  have "reads_at orders log ?ks n 1 = m" "reads_at orders log ?ks n 0 = reads_at orders log ks n 0"
    using process_name_panics.prems(2) by (simp_all add: reads_now reads_before)
  then show ?case
    using process_name_panics.hyps ks(3)
    by (intro processes_last [OF ks(1) _ ks(2)]) (simp_all add: ProcessOrders_reads_Cons combine_reads_def)
next
  case (process_names st d k a n rest sent)
  then obtain ks where ks: "in_time (length log) (3 * n + 1) ks"
    "came_to it f stream (reads_at orders log ks) n st (In_Stream (k # pending rest) (closing rest)) sent"
    "destination_of (reads_at orders log ks n 0) k = Return d" by (auto simp: processes_def looked_def)
  let ?ks = "from_now (length log) (3 * n + 1) ks"
  have "came_to it f stream (reads_at orders log ?ks) n st (In_Stream (k # pending rest) (closing rest)) sent"
    by (rule came_to_cong [OF ks(2)]) (simp add: reads_before)
  moreover have "reads_at orders log ?ks n 1 = m" "reads_at orders log ?ks n 0 = reads_at orders log ks n 0"
    using process_names.prems(2) by (simp_all add: reads_now reads_before)
  ultimately show ?case
    using process_names.hyps ks(3) from_now_in_time [OF ks(1)]
    by (auto simp: processes_def looked_def intro!: exI [of _ ?ks])
next
  case (process_keeps st d named k sh n rest sent)
  show ?case by (rule processes_Combining_step [OF process_keeps.prems process_keeps.hyps(1)]) (use process_keeps.hyps in \<open>auto\<close>)
next
  case (process_ships st d named k sh n sent sent' rest)
  show ?case by (rule processes_Combining_step [OF process_ships.prems process_ships.hyps(1)]) (use process_ships.hyps in \<open>auto\<close>)
next
  case (process_fails st d named k sh n sent err sent' rest)
  show ?case by (rule processes_Combining_end [OF process_fails.prems process_fails.hyps(1)]) (use process_fails.hyps in \<open>auto\<close>)
next
  case (processed n st e sent r sent')
  then obtain ks where ks: "in_time (length log) (3 * n) ks"
    "came_to it f stream (reads_at orders log ks) n st (In_Stream [] e) sent" by (auto simp: processes_def)
  show ?case
    by (rule processes_last [OF ks(1) _ ks(2)])
      (use processed.hyps in \<open>simp_all add: ProcessOrders_reads_Nil [where at' = "\<lambda>_. m"]\<close>)
qed (simp_all add: processes_def)

lemma processes_reaches:
  assumes "reaches f it pbtext (server_start orders hs) c" and "i < length hs" and "hs ! i = processing_call stream"
  shows "processes (it i) (f i) stream orders (stored c) (handlers c ! i)"
  using assms(1)
proof (induction rule: rtranclp_induct)
  case base
  then show ?case using assms(2,3) by (simp add: server_start_def processes_start)
next
  case (step c c')
  from step.hyps(2) obtain j xs t where j: "j < length (handlers c)"
    and t: "handler_step (f j) (it j) pbtext (shared c) (handlers c ! j) xs t"
    and c': "handlers c' = (handlers c)[j := t]" "stored c' = stored c @ map (Pair j) xs"
    by (auto elim: server_step.cases)
  have now: "shared c = version orders (stored c) (length (stored c))"
    using store_inv_reaches [OF step.hyps(1)] by (simp add: store_inv_def version_def)
  have "processes (it i) (f i) stream orders (stored c) (handlers c' ! i)"
    using step.IH handler_step_processes [OF t _ now] j by (cases "i = j") (auto simp: c'(1))
  then show ?case unfolding c'(2) by (rule processes_mono)
qed

section \<open>A search among other calls\<close>

text \<open>The matches that a search has sent, each key read in one of the maps there have been.\<close>

definition found :: "string \<Rightarrow> (string \<Rightarrow> orders) \<Rightarrow> string list \<Rightarrow> Order list" where
  "found q at ks = concat (map (\<lambda>k. replicate (matching_items q (orders_get (at k) k)) (orders_get (at k) k)) ks)"

lemma found_simps [simp]:
  "found q at [] = []" "found q at (ks @ [k]) = found q at ks @ replicate (matching_items q (orders_get (at k) k)) (orders_get (at k) k)"
  by (simp_all add: found_def)

lemma found_cong: "(\<And>k. k \<in> set ks \<Longrightarrow> at k = at' k) \<Longrightarrow> found q at ks = found q at' ks"
  by (simp add: found_def cong: map_cong)

definition searches :: "string \<Rightarrow> string fset \<Rightarrow> orders set \<Rightarrow> handler \<Rightarrow> bool" where
  "searches q first past t \<longleftrightarrow>
     (case t of
        Search q' \<Rightarrow> q' = q
      | Searching q' start visited sent \<Rightarrow> q' = q \<and> fset first \<subseteq> fset start
          \<and> (\<exists>at. distinct visited \<and> (\<forall>k \<in> set visited. at k \<in> past \<and> k |\<in>| fmdom (at k)) \<and> sent = found q at (rev visited))
      | Searched r sent \<Rightarrow> (r = None \<longrightarrow> (\<exists>at ks. distinct ks \<and> fset first \<subseteq> set ks
          \<and> (\<forall>k \<in> set ks. at k \<in> past \<and> k |\<in>| fmdom (at k)) \<and> sent = found q at ks))
      | _ \<Rightarrow> False)"

lemma searches_mono: "searches q first past t \<Longrightarrow> past \<subseteq> past' \<Longrightarrow> searches q first past' t"
  unfolding searches_def by (auto split: handler.splits; blast)

lemma search_items_sent:
  "search_items f q x strs sent = (None, sent') \<Longrightarrow> sent' = sent @ replicate (length (filter (\<lambda>s. strings_Contains s q) strs)) x"
  using send_each_prefix [of "replicate (length (filter (\<lambda>s. strings_Contains s q) strs)) x" f sent]
  by (auto simp: search_items_eq split: prod.splits)

lemma handler_step_searches:
  assumes "handler_step f it pbtext m t xs t'" and "searches q first past t" and "m \<in> past" and "fset first \<subseteq> fset (fmdom m)"
  shows "searches q first past t'"
  using assms
proof (induction rule: handler_step.induct)
  case (visit k visited q' sent sent' start)
  then obtain at where q: "q' = q" "fset first \<subseteq> fset start" and d: "distinct visited"
    and "at": "\<forall>k \<in> set visited. at k \<in> past \<and> k |\<in>| fmdom (at k)" and sent: "sent = found q at (rev visited)"
    by (auto simp: searches_def)
  let ?at = "at(k := m)"
  have "sent' = sent @ replicate (matching_items q (orders_get m k)) (orders_get m k)"
    using search_items_sent [OF visit.hyps(3)] by (simp add: q matching_items_def)
  also have "sent = found q ?at (rev visited)"
    unfolding sent by (rule found_cong) (use visit.hyps(2) in auto)
  finally have "sent' = found q ?at (rev (k # visited))" by simp
  then show ?case
    using q d "at" visit.hyps(1,2) visit.prems(2) by (auto simp: searches_def intro!: exI [of _ ?at])
next
  case (searched start visited q' sent)
  then obtain at where "q' = q" "fset first \<subseteq> fset start" "distinct visited"
    "\<forall>k \<in> set visited. at k \<in> past \<and> k |\<in>| fmdom (at k)" "sent = found q at (rev visited)"
    by (auto simp: searches_def)
  then show ?case
    using searched.hyps by (auto simp: searches_def intro!: exI [of _ at] exI [of _ "rev visited"])
qed (auto simp: searches_def intro!: exI [of _ "\<lambda>_. m"])

lemma fmdom_store_all: "fset (fmdom (store_all orders xs)) = fset (fmdom orders) \<union> Order_Id ` set xs"
  by (induction xs arbitrary: orders) auto

lemma searches_reaches:
  assumes "reaches f it pbtext (server_start orders hs) c" and "i < length hs" and "hs ! i = Search q"
  shows "searches q (fmdom orders) (past_maps orders c) (handlers c ! i)"
  using assms(1)
proof (induction rule: rtranclp_induct)
  case base
  then show ?case using assms(2,3) by (simp add: server_start_def searches_def)
next
  case (step c c')
  from step.hyps(2) obtain j xs t where j: "j < length (handlers c)"
    and t: "handler_step (f j) (it j) pbtext (shared c) (handlers c ! j) xs t"
    and c': "handlers c' = (handlers c)[j := t]" "stored c' = stored c @ map (Pair j) xs"
    by (auto elim: server_step.cases)
  note inv = store_inv_reaches [OF step.hyps(1)]
  have now: "shared c \<in> past_maps orders c" by (rule past_maps_now [OF inv])
  have dom: "fset (fmdom orders) \<subseteq> fset (fmdom (shared c))" using inv by (simp add: store_inv_def fmdom_store_all)
  have "searches q (fmdom orders) (past_maps orders c) (handlers c' ! i)"
    using step.IH handler_step_searches [OF t _ now dom] j by (cases "i = j") (auto simp: c'(1))
  then show ?case by (rule searches_mono) (rule past_maps_grow [OF c'(2)])
qed

section \<open>Crashes\<close>

lemma panicked_finished: "panicked t \<Longrightarrow> finished t"
  by (cases t rule: panicked.cases) auto

lemma handler_step_unfinished: "handler_step f it pbtext orders t xs t' \<Longrightarrow> \<not> finished t"
  by (auto elim!: handler_stepE)

definition crash_inv :: "conf \<Rightarrow> bool" where
  "crash_inv c \<longleftrightarrow> crashed c = list_ex panicked (handlers c)"

lemma crash_inv_reaches:
  "reaches f it pbtext (server_start orders hs) c \<Longrightarrow> \<not> list_ex panicked hs \<Longrightarrow> crash_inv c"
proof (induction rule: rtranclp_induct)
  case base
  then show ?case by (simp add: crash_inv_def server_start_def)
next
  case (step c c')
  have inv: "crash_inv c" by (rule step.IH) fact
  from step.hyps(2) show ?case
  proof cases
    case (step i xs t)
    have "\<not> panicked t'" if "t' \<in> set (handlers c)" for t' using inv step(2) that by (auto simp: crash_inv_def list_ex_iff)
    then have "list_ex panicked ((handlers c)[i := t]) = panicked t"
      using step(3) set_update_subset_insert [of "handlers c" i t] by (auto simp: list_ex_iff set_update_memI)
    then show ?thesis by (simp add: step(1) crash_inv_def)
  qed
qed

text \<open>The answer of an \<open>UpdateOrders\<close> call does not depend on the map, and so not on the other calls.\<close>

lemma UpdateOrders_loop_answer: "fst (UpdateOrders_loop f m acc stream) = fst (UpdateOrders_loop f m' acc stream)"
proof -
  obtain xs e where "stream = In_Stream xs e" by (cases stream)
  then show ?thesis by (cases e) (simp_all add: UpdateOrders_loop_run UpdateOrders_loop_broken)
qed

definition updates :: "(nat \<Rightarrow> rpc_error option) \<Rightarrow> Order in_stream \<Rightarrow> handler \<Rightarrow> bool" where
  "updates f stream t \<longleftrightarrow>
     (case t of
        Updating acc rest \<Rightarrow> \<forall>m. fst (UpdateOrders f m stream) = fst (UpdateOrders_loop f m acc rest)
      | Updated r sent \<Rightarrow> \<forall>m. fst (UpdateOrders f m stream) = (r, sent)
      | _ \<Rightarrow> False)"

lemma handler_step_updates: "handler_step f it pbtext orders t xs t' \<Longrightarrow> updates f stream t \<Longrightarrow> updates f stream t'"
proof (induction rule: handler_step.induct)
  case (update acc x xs e)
  then show ?case
    using UpdateOrders_loop_answer [of f "fmupd (Order_Id x) x _"] by (auto simp: updates_def UpdateOrders_loop_Cons)
next
  case (updated acc e r sent orders')
  then have "fst (UpdateOrders_loop f m acc (In_Stream [] e)) = (r, sent)" for m
    using UpdateOrders_loop_answer [of f m acc "In_Stream [] e" orders] by simp
  with updated.prems show ?case by (simp add: updates_def)
qed (simp_all add: updates_def)

lemma updates_reaches:
  assumes "reaches f it pbtext (server_start orders hs) c" and "i < length hs" and "hs ! i = updating_call stream"
  shows "updates (f i) stream (handlers c ! i)"
  using assms(1)
proof (induction rule: rtranclp_induct)
  case base
  then show ?case using assms(2,3) by (simp add: server_start_def updates_def updating_call_def UpdateOrders_def)
next
  case (step c c')
  from step.hyps(2) obtain j xs t where "j < length (handlers c)"
    and t: "handler_step (f j) (it j) pbtext (shared c) (handlers c ! j) xs t" and "handlers c' = (handlers c)[j := t]"
    by (auto elim: server_step.cases)
  then show ?case using step.IH handler_step_updates [OF t] by (cases "i = j") auto
qed

section \<open>Every run ends\<close>

definition weight :: "string set \<Rightarrow> handler \<Rightarrow> nat" where
  "weight K t = (case t of
     Adding _ \<Rightarrow> 1 | Getting _ \<Rightarrow> 1 | Search _ \<Rightarrow> card K + 2 | Searching _ _ visited _ \<Rightarrow> card (K - set visited) + 1
   | Updating _ stream \<Rightarrow> length (pending stream) + 1 | Processing _ _ stream _ \<Rightarrow> 3 * length (pending stream) + 1
   | Combining _ _ stream _ _ _ named \<Rightarrow> 3 * length (pending stream) + (if named = None then 3 else 2)
   | _ \<Rightarrow> 0)"

lemma weight_step:
  assumes "handler_step f it pbtext orders t xs t'" and "finite K" and "fset (fmdom orders) \<subseteq> K"
  shows "weight K t' < weight K t"
  using assms
proof (induction rule: handler_step.induct)
  case (visit k visited q sent sent' start)
  then have "k \<in> K" by auto
  then have "card (K - set (k # visited)) < card (K - set visited)"
    using visit by (intro psubset_card_mono) auto
  then show ?case by (simp add: weight_def)
qed (simp_all add: weight_def)

text \<open>The keys that the map may ever have.\<close>

definition all_keys :: "orders \<Rightarrow> handler list \<Rightarrow> string set" where
  "all_keys orders hs = fset (fmdom orders) \<union> Order_Id ` set (concat (map to_store hs))"

lemma all_keys_finite: "finite (all_keys orders hs)"
  by (simp add: all_keys_def)

lemma shared_keys: "store_inv orders hs c \<Longrightarrow> fset (fmdom (shared c)) \<subseteq> all_keys orders hs"
proof -
  assume inv: "store_inv orders hs c"
  have "x \<in> set (concat (map to_store hs))" if "(i, x) \<in> set (stored c)" for i x
  proof -
    have i: "i < length hs" using inv that by (auto simp: store_inv_def)
    have "x \<in> set (stored_by i (stored c))" using that by (force simp: stored_by_def)
    moreover have "stored_by i (stored c) @ to_store (handlers c ! i) = to_store (hs ! i)"
      using inv i by (simp add: store_inv_def)
    ultimately have "x \<in> set (to_store (hs ! i))" by (metis UnI1 set_append)
    then show ?thesis using i by auto
  qed
  then have "set (map snd (stored c)) \<subseteq> set (concat (map to_store hs))" by auto
  then show ?thesis
    using inv by (auto simp: store_inv_def fmdom_store_all all_keys_def)
qed

definition conf_weight :: "orders \<Rightarrow> handler list \<Rightarrow> conf \<Rightarrow> nat" where
  "conf_weight orders hs c = sum_list (map (weight (all_keys orders hs)) (handlers c))"

lemma conf_weight_step:
  assumes "server_step f it pbtext c c'" and "store_inv orders hs c"
  shows "conf_weight orders hs c' < conf_weight orders hs c"
  using assms(1)
proof cases
  case (step i xs t)
  let ?K = "all_keys orders hs" and ?ws = "map (weight (all_keys orders hs)) (handlers c)"
  have less: "weight ?K t < ?ws ! i"
    using weight_step [OF step(4) all_keys_finite shared_keys [OF assms(2)]] step(3) by simp
  have "?ws ! i \<le> sum_list ?ws" using step(3) by (intro elem_le_sum_list) simp
  moreover have "conf_weight orders hs c' = sum_list ?ws + weight ?K t - ?ws ! i"
    using step(3) by (simp add: conf_weight_def step(1) map_update sum_list_update)
  ultimately show ?thesis using less by (simp add: conf_weight_def)
qed

lemma runs_bounded:
  "(server_step f it pbtext ^^ n) (server_start orders hs) c \<Longrightarrow>
     n + conf_weight orders hs c \<le> conf_weight orders hs (server_start orders hs)"
proof (induction n arbitrary: c)
  case (Suc n)
  then obtain b where b: "(server_step f it pbtext ^^ n) (server_start orders hs) b" "server_step f it pbtext b c" by auto
  have "store_inv orders hs b" using b(1) by (auto intro: store_inv_reaches [where f = f and it = it and pbtext = pbtext] relpowp_imp_rtranclp)
  from conf_weight_step [OF b(2) this] Suc.IH [OF b(1)] show ?case by simp
qed simp

text \<open>A call that is not finished can go on, since keys that a search began with are still there.\<close>

definition started_in :: "orders \<Rightarrow> handler \<Rightarrow> bool" where
  "started_in orders t \<longleftrightarrow> (case t of Searching _ start _ _ \<Rightarrow> fset start \<subseteq> fset (fmdom orders) | _ \<Rightarrow> True)"

lemma started_in_mono: "started_in m t \<Longrightarrow> started_in (store_all m xs) t"
  by (auto simp: started_in_def fmdom_store_all split: handler.splits)

lemma handler_step_started: "handler_step f it pbtext m t xs t' \<Longrightarrow> started_in m t \<Longrightarrow> started_in m t'"
  by (induction rule: handler_step.induct) (auto simp: started_in_def)

lemma started_reaches:
  "reaches f it pbtext (server_start orders hs) c \<Longrightarrow> list_all (started_in orders) hs \<Longrightarrow> list_all (started_in (shared c)) (handlers c)"
proof (induction rule: rtranclp_induct)
  case (step c c')
  have all: "list_all (started_in (shared c)) (handlers c)" by (rule step.IH) fact
  from step.hyps(2) show ?case
  proof cases
    case (step i xs t)
    have "started_in (shared c) t" using handler_step_started [OF step(4)] all step(3) by (simp add: list_all_length)
    then show ?thesis
      using all set_update_subset_insert [of "handlers c" i t] by (auto simp: step(1) list_all_iff intro!: started_in_mono)
  qed
qed (simp add: server_start_def)

lemma handler_progress:
  assumes "\<not> finished t" and "started_in orders t"
  shows "\<exists>xs t'. handler_step f it pbtext orders t xs t'"
proof -
  have sub: "start |\<subseteq>| fset_of_list visited"
    if "started_in orders (Searching q start visited sent)" "filter (\<lambda>k. k \<notin> set visited) (sorted_list_of_fset (fmdom orders)) = []"
    for q start visited sent
    using that by (auto simp: started_in_def filter_empty_conv less_eq_fset.rep_eq fset_of_list.rep_eq sorted_list_of_fset.rep_eq)
  have "handler_run f it pbtext orders t \<noteq> None"
    using assms unfolding handler_run_def
    by (auto split: handler.splits in_stream.splits list.splits prod.splits option.splits outcome.splits dest: fsubsetD [OF sub])
  then show ?thesis using handler_run_step by fast
qed

lemma server_progress:
  assumes "reaches f it pbtext (server_start orders hs) c" and "list_all (started_in orders) hs" and "\<not> crashed c"
    and "\<not> list_all finished (handlers c)"
  shows "\<exists>c'. server_step f it pbtext c c'"
proof -
  obtain i where i: "i < length (handlers c)" "\<not> finished (handlers c ! i)" using assms(4) by (auto simp: list_all_length)
  have "started_in (shared c) (handlers c ! i)" using started_reaches [OF assms(1,2)] i by (simp add: list_all_length)
  then obtain xs t where "handler_step (f i) (it i) pbtext (shared c) (handlers c ! i) xs t"
    using handler_progress [OF i(2)] by blast
  then show ?thesis using server_step.step [OF assms(3) i(1)] by blast
qed

section \<open>A run\<close>

definition sample_calls :: "handler list" where
  "sample_calls = [Adding sample_order_102, updating_call (In_Stream [sample_order_101] EOF),
     processing_call (In_Stream [''101''] EOF), Search ''Pro'']"

definition sample_schedule :: "nat list" where
  "sample_schedule = [0, 3, 1, 2, 3, 2, 2, 2, 3, 1, 3]"

lemma sample_run:
  "server_run (\<lambda>_ _. None) (\<lambda>_. sorted_range) id sample_schedule (server_start fmempty sample_calls) =
     \<lparr>shared = fmupd ''101'' sample_order_101 (fmupd ''102'' sample_order_102 fmempty),
      handlers = [Added (Some ''Order Added: 102'', None),
        Updated (Return None) [''Orders processed Updated Order IDs : 101, ''],
        Processed (Return None) [\<lparr>Shipment_Id = ''cmb - Mike, Shanghai'', Shipment_Status = ''Processed!'', Shipment_OrderList = [sample_order_101]\<rparr>],
        Searched None [sample_order_102]],
      stored = [(0, sample_order_102), (1, sample_order_101)], crashed = False\<rparr>"
proof -
  have ids: "Order_Id sample_order_101 = ''101''" "Order_Id sample_order_102 = ''102''"
    "Order_Items sample_order_101 = [''Oppo'', ''samung'']" "Order_Items sample_order_102 = [''iPhone XS'', ''Mac Book Pro'']"
    "Order_Addresses sample_order_101 = [Some \<lparr>Address_Address = ''Mike, Shanghai'', Address_Type = Order_HOME\<rparr>]"
    by (simp_all add: sample_order_101_def sample_order_102_def)
  show ?thesis
    by (simp add: sample_schedule_def server_start_def sample_calls_def handler_run_def AddOrder_def ids updating_call_def processing_call_def
        numeral_2_eq_2 numeral_3_eq_3 sorted_list_of_fset.rep_eq orders_get_def destination_of_def combined_def new_shipment_def process_init_def orderBatchSize_def
        UpdateOrders_loop_Nil ProcessOrders_loop_Nil range_values_def sorted_range_def Let_def stream_Send_def)
qed

abbreviation sample_conf :: conf where
  "sample_conf \<equiv> server_run (\<lambda>_ _. None) (\<lambda>_. sorted_range) id sample_schedule (server_start fmempty sample_calls)"

lemma sample_reaches: "reaches (\<lambda>_ _. None) (\<lambda>_. sorted_range) id (server_start fmempty sample_calls) sample_conf"
  by (rule server_run_reaches)

text \<open>One call whose stream breaks, beside one that then never gets its answer.\<close>

definition broken_calls :: "handler list" where
  "broken_calls = [updating_call (In_Stream [sample_order_101] (Broken (Transport ''reset''))), Getting ''101'']"

lemma broken_run:
  "server_run (\<lambda>_ _. None) (\<lambda>_. sorted_range) id [0, 0] (server_start fmempty broken_calls) =
     \<lparr>shared = fmupd ''101'' sample_order_101 fmempty,
      handlers = [Updated (Panic ''nil pointer dereference'') [], Getting ''101''],
      stored = [(0, sample_order_101)], crashed = True\<rparr>"
  by (simp add: server_start_def broken_calls_def handler_run_def updating_call_def UpdateOrders_loop_Nil sample_order_101_def)

section \<open>Properties\<close>

fun fresh_call :: "handler \<Rightarrow> bool" where
  "fresh_call (Adding _) = True"
| "fresh_call (Getting _) = True"
| "fresh_call (Search _) = True"
| "fresh_call (Updating acc _) = (acc = ''Updated Order IDs : '')"
| "fresh_call (Processing n st _ sent) = (n = 0 \<and> st = process_init \<and> sent = [])"
| "fresh_call _ = False"

lemma fresh_call_ok: "fresh_call t \<Longrightarrow> \<not> panicked t \<and> started_in orders t \<and> \<not> finished t"
  by (cases t) (auto simp: started_in_def)

lemma fresh_calls_ok:
  "list_all fresh_call hs \<Longrightarrow> \<not> list_ex panicked hs" "list_all fresh_call hs \<Longrightarrow> list_all (started_in orders) hs"
  by (auto simp: list_all_iff list_ex_iff dest: fresh_call_ok)

lemma finished_to_store: "finished t \<Longrightarrow> to_store t = []"
  by (cases t rule: finished.cases) auto

text \<open>C3: However the calls interleave, the map is what one sequence of \<open>AddOrder\<close> calls would have made it, and
  in that sequence the orders of each call come in the order of its stream: at any time a prefix of
  them, and all of them once every call is done.\<close>

theorem concurrent_orders:
  assumes "reaches f it pbtext (server_start orders hs) c"
  shows "shared c = foldl (\<lambda>s (_, x). snd (AddOrder s x)) orders (stored c)
    \<and> list_all (\<lambda>i. stored_by i (stored c) @ to_store (handlers c ! i) = to_store (hs ! i)) [0..<length hs]
    \<and> (if list_all finished (handlers c) then list_all (\<lambda>i. stored_by i (stored c) = to_store (hs ! i)) [0..<length hs] else True)"
proof -
  note inv = store_inv_reaches [OF assms]
  have "stored_by i (stored c) = to_store (hs ! i)" if "i < length hs" "list_all finished (handlers c)" for i
  proof -
    have "to_store (handlers c ! i) = []"
      using that inv by (intro finished_to_store) (simp add: store_inv_def list_all_length)
    then show ?thesis using inv that(1) by (simp add: store_inv_def) (metis append_Nil2)
  qed
  then show ?thesis using inv by (auto simp: store_inv_def list_all_iff store_all_log)
qed

theorem concurrent_orders_witness:
  "fmupd ''101'' sample_order_101 (fmupd ''102'' sample_order_102 fmempty)
      = foldl (\<lambda>s (_, x). snd (AddOrder s x)) fmempty [(0 :: nat, sample_order_102), (1, sample_order_101)]
    \<and> stored_by 1 [(0, sample_order_102), (1, sample_order_101)] = to_store (sample_calls ! 1)"
  using concurrent_orders [OF sample_reaches]
  by (simp add: sample_run) (simp add: sample_calls_def)


text \<open>An \<open>UpdateOrders\<close> call answers among others what it answers alone.\<close>

lemma concurrent_update:
  assumes "reaches f it pbtext (server_start orders hs) c" and "i < length hs" and "hs ! i = updating_call stream"
    and "handlers c ! i = Updated r sent"
  shows "fst (UpdateOrders (f i) orders stream) = (r, sent)"
  using updates_reaches [OF assms(1-3)] assms(4) by (simp add: updates_def)

text \<open>C15: What a \<open>ProcessOrders\<close> call answers among any other calls is what the handler answers alone when each
  of its look-ups, two or three to a message, finds the map as it was after some of the stores that the
  server has made; later look-ups find the same map or a later one.\<close>

theorem concurrent_process:
  assumes "reaches f it pbtext (server_start orders hs) c" and "i < length hs" and "hs ! i = processing_call stream"
    and "handlers c ! i = Processed r sent"
  shows "\<exists>ks. mono ks \<and> (\<forall>j. ks j \<le> length (stored c))
    \<and> ProcessOrders_reads (\<lambda>n j. foldl (\<lambda>s (_, x). snd (AddOrder s x)) orders (take (ks (3 * n + j)) (stored c)))
        (it i) (f i) stream = (r, sent)"
  using processes_reaches [OF assms(1-3)] assms(4)
  by (simp add: processes_def reads_at_def [abs_def] version_def store_all_log)

theorem concurrent_process_witness:
  "\<exists>ks. mono ks \<and> ProcessOrders_reads (\<lambda>n j. foldl (\<lambda>s (_, x). snd (AddOrder s x)) fmempty
        (take (ks (3 * n + j)) [(0 :: nat, sample_order_102), (1, sample_order_101)])) sorted_range (\<lambda>_. None) (In_Stream [''101''] EOF)
      = (Return None,
      [\<lparr>Shipment_Id = ''cmb - Mike, Shanghai'', Shipment_Status = ''Processed!'', Shipment_OrderList = [sample_order_101]\<rparr>])"
proof -
  have call: "2 < length sample_calls" "sample_calls ! 2 = processing_call (In_Stream [''101''] EOF)"
    by (simp_all add: sample_calls_def)
  have answer: "handlers sample_conf ! 2 = Processed (Return None)
      [\<lparr>Shipment_Id = ''cmb - Mike, Shanghai'', Shipment_Status = ''Processed!'', Shipment_OrderList = [sample_order_101]\<rparr>]"
    and log: "stored sample_conf = [(0, sample_order_102), (1, sample_order_101)]"
    by (simp_all add: sample_run)
  from concurrent_process [OF sample_reaches call answer] show ?thesis unfolding log by blast
qed

text \<open>
  One message may see two maps. The order 101 is looked up for its destination, replaced by one to
  another address, and looked up again: its shipment is filed under the one address and names the
  other. If the new order has no address, the second look-up panics.
\<close>

definition moved_order :: "(Order_Address option) list \<Rightarrow> Order" where
  "moved_order as = sample_order_101\<lparr>Order_Addresses := as\<rparr>"

definition moving_calls :: "(Order_Address option) list \<Rightarrow> handler list" where
  "moving_calls as = [processing_call (In_Stream [''101''] EOF), Adding (moved_order as)]"

lemma look_ups_differ:
  "handlers (server_run (\<lambda>_ _. None) (\<lambda>_. sorted_range) id [0, 1, 0, 0, 0] (server_start (fmupd ''101'' sample_order_101 fmempty)
       (moving_calls [Some \<lparr>Address_Address = ''Sam, Beijing'', Address_Type = Order_WORK\<rparr>]))) ! 0
     = Processed (Return None) [\<lparr>Shipment_Id = ''cmb - Sam, Beijing'', Shipment_Status = ''Processed!'',
         Shipment_OrderList = [moved_order [Some \<lparr>Address_Address = ''Sam, Beijing'', Address_Type = Order_WORK\<rparr>]]\<rparr>]"
  "crashed (server_run (\<lambda>_ _. None) (\<lambda>_. sorted_range) id [0, 1, 0] (server_start (fmupd ''101'' sample_order_101 fmempty)
       (moving_calls [])))"
proof -
  have ids: "Order_Id sample_order_101 = ''101''" "Order_Id (moved_order as) = ''101''" "Order_Addresses (moved_order as) = as"
    "Order_Addresses sample_order_101 = [Some \<lparr>Address_Address = ''Mike, Shanghai'', Address_Type = Order_HOME\<rparr>]" for as
    by (simp_all add: sample_order_101_def moved_order_def)
  note defs = server_start_def moving_calls_def handler_run_def AddOrder_def ids processing_call_def orders_get_def
    destination_of_def combined_def new_shipment_def process_init_def orderBatchSize_def ProcessOrders_loop_Nil
    range_values_def sorted_range_def sorted_list_of_fset.rep_eq stream_Send_def
  show "handlers (server_run (\<lambda>_ _. None) (\<lambda>_. sorted_range) id [0, 1, 0, 0, 0] (server_start (fmupd ''101'' sample_order_101 fmempty)
       (moving_calls [Some \<lparr>Address_Address = ''Sam, Beijing'', Address_Type = Order_WORK\<rparr>]))) ! 0
     = Processed (Return None) [\<lparr>Shipment_Id = ''cmb - Sam, Beijing'', Shipment_Status = ''Processed!'',
         Shipment_OrderList = [moved_order [Some \<lparr>Address_Address = ''Sam, Beijing'', Address_Type = Order_WORK\<rparr>]]\<rparr>]"
    by (simp add: defs)
  show "crashed (server_run (\<lambda>_ _. None) (\<lambda>_. sorted_range) id [0, 1, 0] (server_start (fmupd ''101'' sample_order_101 fmempty)
       (moving_calls [])))"
    by (simp add: defs)
qed


text \<open>C32: A \<open>SearchOrders\<close> call that ends without an error has looked once at every order that was there when
  the server started, and at each key it visited as it was in some map that the server has had; it has
  sent, key by key, the order once for each item that contains the query, and nothing else.\<close>

theorem concurrent_search:
  assumes "reaches f it pbtext (server_start orders hs) c" and "i < length hs" and "hs ! i = Search q"
    and "handlers c ! i = Searched None sent"
  shows "\<exists>ks at. distinct ks \<and> fset (fmdom orders) \<subseteq> set ks
    \<and> list_all (\<lambda>k. at k \<in> past_maps orders c \<and> k |\<in>| fmdom (at k)) ks
    \<and> sent = concat (map (\<lambda>k. replicate (matching_items q (orders_get (at k) k)) (orders_get (at k) k)) ks)"
  using searches_reaches [OF assms(1-3)] assms(4) by (auto simp: searches_def found_def list_all_iff)

theorem concurrent_search_witness:
  "\<exists>ks at. distinct ks \<and> [sample_order_102]
    = concat (map (\<lambda>k. replicate (matching_items ''Pro'' (orders_get (at k) k)) (orders_get (at k) k)) ks)"
  using concurrent_search [OF sample_reaches, of 3 "''Pro''"] by (simp add: sample_run) (auto simp add: sample_calls_def)


text \<open>C27: Every run of the server over finitely many calls comes to an end, after no more steps than the calls
  have messages, three to a message of \<open>ProcessOrders\<close>, and the searches have keys; it ends only when every call is done or when the process
  has crashed, and it has crashed exactly if some handler has panicked.\<close>

theorem server_ends:
  assumes "(server_step f it pbtext ^^ n) (server_start orders hs) c" and "list_all fresh_call hs"
  shows "n \<le> sum_list (map (weight (all_keys orders hs)) hs)
    \<and> (list_all finished (handlers c) \<or> crashed c \<or> (\<exists>c'. server_step f it pbtext c c'))
    \<and> crashed c = list_ex panicked (handlers c)"
proof -
  have reach: "reaches f it pbtext (server_start orders hs) c" using assms(1) by (rule relpowp_imp_rtranclp)
  show ?thesis
    using runs_bounded [OF assms(1)] server_progress [OF reach fresh_calls_ok(2) [OF assms(2)]]
      crash_inv_reaches [OF reach fresh_calls_ok(1) [OF assms(2)]]
    by (auto simp: conf_weight_def server_start_def crash_inv_def)
qed

theorem server_ends_witness:
  "\<exists>n \<le> 11. (server_step (\<lambda>_ _. None) (\<lambda>_. sorted_range) id ^^ n) (server_start fmempty sample_calls) sample_conf"
proof -
  have fresh: "list_all fresh_call sample_calls" by (simp add: sample_calls_def updating_call_def processing_call_def)
  obtain n where n: "(server_step (\<lambda>_ _. None) (\<lambda>_. sorted_range) id ^^ n) (server_start fmempty sample_calls) sample_conf"
    using rtranclp_imp_relpowp [OF sample_reaches] by blast
  have "all_keys fmempty sample_calls = {''101'', ''102''}"
    by (auto simp: all_keys_def sample_calls_def updating_call_def processing_call_def sample_order_101_def sample_order_102_def)
  then have "sum_list (map (weight (all_keys fmempty sample_calls)) sample_calls) = 11"
    by (simp add: sample_calls_def weight_def updating_call_def processing_call_def)
  with server_ends [OF n fresh] n show ?thesis by auto
qed


text \<open>C28: One client that breaks off its \<open>UpdateOrders\<close> stream takes the server down, with all other calls:
  a run that has such a call among its calls and cannot go on has crashed.\<close>

theorem broken_stream_crashes:
  assumes "reaches f it pbtext (server_start orders hs) c" and "list_all fresh_call hs"
    and "i < length hs" and "hs ! i = updating_call (In_Stream xs (Broken e))"
    and "\<not> (\<exists>c'. server_step f it pbtext c c')"
  shows "crashed c"
proof (rule ccontr)
  assume run: "\<not> crashed c"
  then have all: "list_all finished (handlers c)"
    using server_progress [OF assms(1) fresh_calls_ok(2) [OF assms(2)]] assms(5) by blast
  have "length (handlers c) = length hs" using store_inv_reaches [OF assms(1)] by (simp add: store_inv_def)
  then have "finished (handlers c ! i)" "handlers c ! i \<in> set (handlers c)" using all assms(3) by (simp_all add: list_all_length)
  moreover have "updates (f i) (In_Stream xs (Broken e)) (handlers c ! i)" by (rule updates_reaches [OF assms(1,3,4)])
  ultimately have "list_ex panicked (handlers c)"
    by (cases "handlers c ! i")
      (auto simp: updates_def UpdateOrders_def UpdateOrders_loop_broken list_ex_iff intro!: bexI [of _ "handlers c ! i"])
  with crash_inv_reaches [OF assms(1) fresh_calls_ok(1) [OF assms(2)]] run show False by (simp add: crash_inv_def)
qed

theorem broken_stream_crashes_witness:
  "crashed (server_run (\<lambda>_ _. None) (\<lambda>_. sorted_range) id [0, 0] (server_start fmempty broken_calls))"
proof (rule broken_stream_crashes [where hs = broken_calls and i = 0])
  let ?c = "server_run (\<lambda>_ _. None) (\<lambda>_. sorted_range) id [0, 0] (server_start fmempty broken_calls)"
  show "reaches (\<lambda>_ _. None) (\<lambda>_. sorted_range) id (server_start fmempty broken_calls) ?c" by (rule server_run_reaches)
  show "list_all fresh_call broken_calls" by (simp add: broken_calls_def updating_call_def)
  show "broken_calls ! 0 = updating_call (In_Stream [sample_order_101] (Broken (Transport ''reset'')))" "0 < length broken_calls"
    by (simp_all add: broken_calls_def)
  show "\<not> (\<exists>c'. server_step (\<lambda>_ _. None) (\<lambda>_. sorted_range) id ?c c')"
    unfolding broken_run by (auto elim!: server_step.cases)
qed

end
