(* ===== verification/Order_Race.thy ===== *)
theory Order_Race
  imports Order_Concurrent
begin

text \<open>
  The accesses of the handlers to the map \<open>orders\<close>, which \<^verbatim>\<open>dev/grpc/basic/server/order.go\<close> does not
  synchronise. An access takes time: it begins and ends, and other calls go on meanwhile. A look-up
  may find the map as it was at any moment in between. Go forbids that a write overlaps another access
  of the same map, and its runtime may then end the process with \<open>concurrent map writes\<close> or \<open>concurrent
  map read and map write\<close>.
\<close>

section \<open>Accesses\<close>

datatype access = Read_Access | Write_Access

text \<open>The access of the next step of a call: \<open>orders[id]\<close>, \<open>range orders\<close> or \<open>orders[id] = order\<close>.\<close>

fun next_access :: "handler \<Rightarrow> access option" where
  "next_access (Adding _) = Some Write_Access"
| "next_access (Getting _) = Some Read_Access"
| "next_access (Search _) = Some Read_Access"
| "next_access (Searching _ _ _ _) = Some Read_Access"
| "next_access (Updating _ (In_Stream (_ # _) _)) = Some Write_Access"
| "next_access (Processing _ _ (In_Stream (_ # _) _) _) = Some Read_Access"
| "next_access (Combining _ _ _ _ _ _ _) = Some Read_Access"
| "next_access _ = None"

text \<open>It is the access that the step makes: a step stores if it is to write, and does not see the map if there is none.\<close>

lemma step_writes: "handler_step f it pbtext m t xs t' \<Longrightarrow> xs \<noteq> [] \<longleftrightarrow> next_access t = Some Write_Access"
  by (erule handler_step.cases) auto

lemma step_blind:
  assumes "handler_step f it pbtext m t xs t'" and "next_access t = None"
  shows "handler_step f it pbtext m' t xs t'"
  using assms
proof (induction rule: handler_step.induct)
  case (updated acc e r sent orders')
  then show ?case by (cases e) (auto simp: handler_step_simps UpdateOrders_loop_Nil)
next
  case (processed n st e sent r sent')
  then show ?case by (cases e) (auto simp: handler_step_simps ProcessOrders_loop_Nil)
qed simp_all

lemma step_can_write: "next_access t = Some Write_Access \<Longrightarrow> \<exists>xs t'. handler_step f it pbtext m t xs t' \<and> xs \<noteq> []"
  by (induction t rule: next_access.induct) (auto simp: handler_step_simps)

text \<open>
  The server with the accesses that have begun and not ended, by call, each with the maps that there
  have been since it began; \<open>raced\<close> when two accesses have met of which one writes.
\<close>

record open_conf =
  atomic :: conf
  busy :: "(access \<times> orders list) option list"
  raced :: bool

definition open_access :: "open_conf \<Rightarrow> nat \<Rightarrow> access option" where
  "open_access c i = map_option fst (busy c ! i)"

definition clash :: "access option \<Rightarrow> access option \<Rightarrow> bool" where
  "clash a b \<longleftrightarrow> a \<noteq> None \<and> b \<noteq> None \<and> (a = Some Write_Access \<or> b = Some Write_Access)"

definition meets :: "access \<Rightarrow> open_conf \<Rightarrow> bool" where
  "meets a c \<longleftrightarrow> list_ex (\<lambda>b. clash (Some a) (map_option fst b)) (busy c)"

definition stepped :: "nat \<Rightarrow> Order list \<Rightarrow> handler \<Rightarrow> conf \<Rightarrow> conf" where
  "stepped i xs t c = \<lparr>shared = store_all (shared c) xs, handlers = (handlers c)[i := t],
     stored = stored c @ map (Pair i) xs, crashed = panicked t\<rparr>"

text \<open>Access \<open>i\<close> ends, and the others see the map that it leaves.\<close>

definition ended :: "nat \<Rightarrow> orders \<Rightarrow> (access \<times> orders list) option list \<Rightarrow> (access \<times> orders list) option list" where
  "ended i m bs = map (map_option (\<lambda>(a, ms). (a, ms @ [m]))) (bs[i := None])"

definition finds :: "open_conf \<Rightarrow> nat \<Rightarrow> orders \<Rightarrow> bool" where
  "finds c i m \<longleftrightarrow> (case busy c ! i of
     None \<Rightarrow> next_access (handlers (atomic c) ! i) = None \<and> m = shared (atomic c)
   | Some (a, ms) \<Rightarrow> m \<in> set ms)"

inductive access_step :: "(nat \<Rightarrow> nat \<Rightarrow> rpc_error option) \<Rightarrow> (nat \<Rightarrow> nat \<Rightarrow> (string, CombinedShipment) fmap \<Rightarrow> string list)
    \<Rightarrow> (string \<Rightarrow> string) \<Rightarrow> open_conf \<Rightarrow> open_conf \<Rightarrow> bool" for f it pbtext where
  begins: "\<not> raced c \<Longrightarrow> \<not> crashed (atomic c) \<Longrightarrow> i < length (busy c) \<Longrightarrow> busy c ! i = None \<Longrightarrow>
    next_access (handlers (atomic c) ! i) = Some a \<Longrightarrow>
    access_step f it pbtext c (c\<lparr>busy := (busy c)[i := Some (a, [shared (atomic c)])], raced := meets a c\<rparr>)"
| steps: "\<not> raced c \<Longrightarrow> \<not> crashed (atomic c) \<Longrightarrow> i < length (busy c) \<Longrightarrow> finds c i m \<Longrightarrow>
    handler_step (f i) (it i) pbtext m (handlers (atomic c) ! i) xs t \<Longrightarrow>
    access_step f it pbtext c
      (c\<lparr>atomic := stepped i xs t (atomic c), busy := ended i (store_all (shared (atomic c)) xs) (busy c)\<rparr>)"

definition open_start :: "orders \<Rightarrow> handler list \<Rightarrow> open_conf" where
  "open_start orders hs = \<lparr>atomic = server_start orders hs, busy = replicate (length hs) None, raced = False\<rparr>"

abbreviation open_reaches :: "(nat \<Rightarrow> nat \<Rightarrow> rpc_error option) \<Rightarrow> (nat \<Rightarrow> nat \<Rightarrow> (string, CombinedShipment) fmap \<Rightarrow> string list)
    \<Rightarrow> (string \<Rightarrow> string) \<Rightarrow> open_conf \<Rightarrow> open_conf \<Rightarrow> bool" where
  "open_reaches f it pbtext \<equiv> (access_step f it pbtext)\<^sup>*\<^sup>*"

section \<open>What a call will still access\<close>

lemma processing_reads: "next_access (Processing n st stream sent) \<noteq> Some Write_Access"
  by (cases stream; cases "pending stream") auto

text \<open>A call that began as \<open>h\<close> accesses the map only as \<open>h\<close> would, and an open access is its next one.\<close>

lemma clash_commute: "clash a b \<longleftrightarrow> clash b a"
  by (auto simp: clash_def)

definition call_ok :: "handler \<Rightarrow> handler \<Rightarrow> access option \<Rightarrow> bool" where
  "call_ok h t a \<longleftrightarrow> (a = None \<or> a = next_access t)
     \<and> (next_access t = None \<or> next_access h \<noteq> None)
     \<and> (next_access t = Some Write_Access \<longrightarrow> next_access h = Some Write_Access)"

lemma next_access_step:
  "handler_step f it pbtext orders t xs t' \<Longrightarrow> next_access t' = None \<or> next_access t \<noteq> None"
  "handler_step f it pbtext orders t xs t' \<Longrightarrow> next_access t' = Some Write_Access \<Longrightarrow> next_access t = Some Write_Access"
  by (erule handler_step.cases; simp add: processing_reads)+

lemma call_ok_step:
  "handler_step f it pbtext orders t xs t' \<Longrightarrow> call_ok h t a \<Longrightarrow> call_ok h t' None"
  using next_access_step [of f it pbtext orders t xs t'] by (auto simp: call_ok_def)

lemma call_ok_begins: "call_ok h t None \<Longrightarrow> call_ok h t (next_access t)"
  by (auto simp: call_ok_def)

lemma call_ok_clash:
  "call_ok h t a \<Longrightarrow> call_ok h' t' b \<Longrightarrow> clash a b \<Longrightarrow> clash (next_access h) (next_access h')"
  by (auto simp: call_ok_def clash_def)

text \<open>As long as nothing has raced, no open accesses conflict, and a look-up can only find the map as it is.\<close>

definition access_inv :: "handler list \<Rightarrow> open_conf \<Rightarrow> bool" where
  "access_inv hs c \<longleftrightarrow> length (busy c) = length hs \<and> length (handlers (atomic c)) = length hs
     \<and> (\<forall>i < length hs. call_ok (hs ! i) (handlers (atomic c) ! i) (open_access c i))
     \<and> (if raced c then \<exists>i < length hs. \<exists>j < length hs. i \<noteq> j \<and> clash (next_access (hs ! i)) (next_access (hs ! j))
        else (\<forall>i < length hs. \<forall>j < length hs. i \<noteq> j \<longrightarrow> \<not> clash (open_access c i) (open_access c j))
          \<and> (\<forall>i < length hs. \<forall>a ms. busy c ! i = Some (a, ms) \<longrightarrow> set ms = {shared (atomic c)}))"

lemma access_inv_begins:
  assumes "access_inv hs c" and "\<not> raced c" and "i < length (busy c)" and "busy c ! i = None"
    and "next_access (handlers (atomic c) ! i) = Some a"
  shows "access_inv hs (c\<lparr>busy := (busy c)[i := Some (a, [shared (atomic c)])], raced := meets a c\<rparr>)" (is "access_inv hs ?c")
proof -
  have len: "length (busy c) = length hs" "length (handlers (atomic c)) = length hs" and i: "i < length hs"
    and ok: "\<forall>j < length hs. call_ok (hs ! j) (handlers (atomic c) ! j) (open_access c j)"
    and apart: "\<forall>i < length hs. \<forall>j < length hs. i \<noteq> j \<longrightarrow> \<not> clash (open_access c i) (open_access c j)"
    and now: "\<forall>i < length hs. \<forall>a ms. busy c ! i = Some (a, ms) \<longrightarrow> set ms = {shared (atomic c)}"
    using assms(1-3) by (auto simp: access_inv_def)
  have acc: "open_access ?c j = (if j = i then Some a else open_access c j)" if "j < length hs" for j
    using that i len by (simp add: open_access_def)
  have ok': "\<forall>j < length hs. call_ok (hs ! j) (handlers (atomic ?c) ! j) (open_access ?c j)"
  proof (intro allI impI)
    fix j assume j: "j < length hs"
    have "call_ok (hs ! i) (handlers (atomic c) ! i) None" using ok i assms(4) by (auto simp: open_access_def)
    then have "call_ok (hs ! i) (handlers (atomic c) ! i) (Some a)" using call_ok_begins assms(5) by fastforce
    then show "call_ok (hs ! j) (handlers (atomic ?c) ! j) (open_access ?c j)" using ok j unfolding acc [OF j] by simp
  qed
  have met: "meets a c \<longleftrightarrow> (\<exists>j < length hs. j \<noteq> i \<and> clash (Some a) (open_access c j))"
    using assms(4) len by (auto simp: meets_def list_ex_length open_access_def clash_def)
  show ?thesis
  proof (cases "meets a c")
    case True
    then obtain j where j: "j < length hs" "j \<noteq> i" "clash (Some a) (open_access c j)" by (auto simp: met)
    then have "clash (open_access ?c i) (open_access ?c j)" using i by (simp add: acc)
    then have "clash (next_access (hs ! i)) (next_access (hs ! j))" using call_ok_clash ok' i j(1) by blast
    then have "\<exists>i < length hs. \<exists>j < length hs. i \<noteq> j \<and> clash (next_access (hs ! i)) (next_access (hs ! j))" using i j by blast
    with True len ok' show ?thesis by (simp add: access_inv_def)
  next
    case False
    then have "\<forall>j < length hs. j \<noteq> i \<longrightarrow> \<not> clash (Some a) (open_access c j)" unfolding met by blast
    then have "\<forall>k < length hs. \<forall>j < length hs. k \<noteq> j \<longrightarrow> \<not> clash (open_access ?c k) (open_access ?c j)"
      using apart by (auto simp: acc clash_commute)
    moreover have "\<forall>j < length hs. \<forall>b ms. busy ?c ! j = Some (b, ms) \<longrightarrow> set ms = {shared (atomic ?c)}"
      using now i len by (auto simp: nth_list_update)
    ultimately show ?thesis using False len ok' by (simp add: access_inv_def)
  qed
qed

lemma finds_now:
  assumes "access_inv hs c" and "\<not> raced c" and "i < length (busy c)" and "finds c i m"
  shows "m = shared (atomic c)"
  using assms by (auto simp: access_inv_def finds_def split: option.splits prod.splits)

lemma access_inv_steps:
  assumes "access_inv hs c" and "\<not> raced c" and "i < length (busy c)" and "finds c i m"
    and "handler_step f it pbtext m (handlers (atomic c) ! i) xs t"
  shows "access_inv hs (c\<lparr>atomic := stepped i xs t (atomic c), busy := ended i (store_all (shared (atomic c)) xs) (busy c)\<rparr>)"
    (is "access_inv hs ?c")
proof -
  have len: "length (busy c) = length hs" "length (handlers (atomic c)) = length hs" and i: "i < length hs"
    and ok: "\<forall>j < length hs. call_ok (hs ! j) (handlers (atomic c) ! j) (open_access c j)"
    and apart: "\<forall>i < length hs. \<forall>j < length hs. i \<noteq> j \<longrightarrow> \<not> clash (open_access c i) (open_access c j)"
    and now: "\<forall>i < length hs. \<forall>a ms. busy c ! i = Some (a, ms) \<longrightarrow> set ms = {shared (atomic c)}"
    using assms(1-3) by (auto simp: access_inv_def)
  have acc: "open_access ?c j = (if j = i then None else open_access c j)" if "j < length hs" for j
    using that i len by (cases "busy c ! j") (auto simp: open_access_def ended_def)
  have "\<forall>j < length hs. call_ok (hs ! j) (handlers (atomic ?c) ! j) (open_access ?c j)"
  proof (intro allI impI)
    fix j assume j: "j < length hs"
    have t: "handlers (atomic ?c) ! j = (if j = i then t else handlers (atomic c) ! j)" using i len by (simp add: stepped_def)
    show "call_ok (hs ! j) (handlers (atomic ?c) ! j) (open_access ?c j)"
      using ok j call_ok_step [OF assms(5)] unfolding acc [OF j] t by auto
  qed
  moreover have "\<forall>k < length hs. \<forall>j < length hs. k \<noteq> j \<longrightarrow> \<not> clash (open_access ?c k) (open_access ?c j)"
    using apart by (simp add: acc) (simp add: clash_def)
  moreover have "set ms = {shared (atomic ?c)}" if j: "j < length hs" "busy ?c ! j = Some (b, ms)" for j b ms
  proof -
    have "j \<noteq> i" using j i len by (auto simp: ended_def)
    then obtain ms' where ms': "busy c ! j = Some (b, ms')" "ms = ms' @ [store_all (shared (atomic c)) xs]"
      using j len by (auto simp: ended_def)
    have "xs = []"
    proof (rule ccontr)
      assume "xs \<noteq> []"
      then have w: "next_access (handlers (atomic c) ! i) = Some Write_Access" using step_writes [OF assms(5)] by simp
      then have "open_access c i \<noteq> None" using assms(4) by (auto simp: finds_def open_access_def split: option.splits)
      then have "open_access c i = Some Write_Access" using ok i w by (auto simp: call_ok_def)
      then have "clash (open_access c i) (open_access c j)" using ms'(1) by (auto simp: clash_def open_access_def)
      then show False using apart i j(1) \<open>j \<noteq> i\<close> by blast
    qed
    then show ?thesis using now j(1) ms' by (auto simp: stepped_def)
  qed
  ultimately show ?thesis using len assms(2) by (auto simp: access_inv_def ended_def stepped_def)
qed

lemma access_inv_step: "access_step f it pbtext c c' \<Longrightarrow> access_inv hs c \<Longrightarrow> access_inv hs c'"
  by (induction rule: access_step.induct) (blast intro: access_inv_begins access_inv_steps)+

lemma access_inv_start: "access_inv hs (open_start orders hs)"
  by (auto simp: access_inv_def open_start_def server_start_def open_access_def call_ok_def clash_def)

lemma access_inv_reaches: "open_reaches f it pbtext (open_start orders hs) c \<Longrightarrow> access_inv hs c"
  by (induction rule: rtranclp_induct) (auto intro: access_inv_start access_inv_step)

section \<open>Without time\<close>

lemma open_atomic:
  "open_reaches f it pbtext (open_start orders hs) c \<Longrightarrow> reaches f it pbtext (server_start orders hs) (atomic c)"
proof (induction rule: rtranclp_induct)
  case base
  show ?case by (simp add: open_start_def)
next
  case (step c c')
  from step.hyps(2) show ?case
  proof cases
    case (steps i m xs t)
    have inv: "access_inv hs c" by (rule access_inv_reaches [OF step.hyps(1)])
    then have "m = shared (atomic c)" using steps finds_now by blast
    moreover have "i < length (handlers (atomic c))" using inv steps(4) by (simp add: access_inv_def)
    ultimately have "server_step f it pbtext (atomic c) (stepped i xs t (atomic c))"
      using server_step.step [of "atomic c" i f it pbtext xs t] steps by (simp add: stepped_def)
    then show ?thesis using step.IH steps(1) by simp
  qed (use step.IH in simp)
qed

definition at_rest :: "conf \<Rightarrow> open_conf" where
  "at_rest c = \<lparr>atomic = c, busy = replicate (length (handlers c)) None, raced = False\<rparr>"

lemma nobody_met: "\<not> meets a (at_rest c)"
  by (simp add: meets_def list_ex_iff clash_def at_rest_def)

lemma step_at_rest:
  assumes "server_step f it pbtext c c'"
  shows "open_reaches f it pbtext (at_rest c) (at_rest c')"
  using assms
proof (induction rule: server_step.induct)
  case (step c i xs t)
  let ?c = "stepped i xs t c" and ?idle = "replicate (length (handlers c)) (None :: (access \<times> orders list) option)"
  have idle: "ended i m ?idle = ?idle" "ended i m (?idle[i := b]) = ?idle" for m b
    using list_update_id [of ?idle i] step.hyps(2) by (simp_all add: ended_def)
  have same: "length (handlers ?c) = length (handlers c)" by (simp add: stepped_def)
  show ?case
  proof (cases "next_access (handlers c ! i)")
    case None
    then have "access_step f it pbtext (at_rest c) (at_rest ?c)"
      using access_step.steps [of "at_rest c" i "shared c" f it pbtext xs t] step.hyps idle(1)
      by (simp add: same at_rest_def finds_def)
    then show ?thesis by (simp add: stepped_def r_into_rtranclp)
  next
    case (Some a)
    let ?b = "(at_rest c)\<lparr>busy := ?idle[i := Some (a, [shared c])]\<rparr>"
    have "access_step f it pbtext (at_rest c) ?b"
      using access_step.begins [of "at_rest c" i a f it pbtext] step.hyps Some nobody_met
      by (simp add: at_rest_def)
    moreover have "access_step f it pbtext ?b (at_rest ?c)"
      using access_step.steps [of ?b i "shared c" f it pbtext xs t] step.hyps idle(2)
      by (simp add: same at_rest_def finds_def)
    ultimately have "open_reaches f it pbtext (at_rest c) (at_rest ?c)" by (meson converse_rtranclp_into_rtranclp r_into_rtranclp)
    then show ?thesis by (simp add: stepped_def)
  qed
qed

lemma reaches_at_rest: "reaches f it pbtext c c' \<Longrightarrow> open_reaches f it pbtext (at_rest c) (at_rest c')"
  by (induction rule: rtranclp_induct) (auto intro: rtranclp_trans step_at_rest)

lemma open_start_at_rest: "open_start orders hs = at_rest (server_start orders hs)"
  by (simp add: open_start_def at_rest_def server_start_def)

section \<open>The property\<close>

text \<open>A call that is done, or has only to answer.\<close>

fun answering :: "handler \<Rightarrow> bool" where
  "answering (Updating _ stream) = (pending stream = [])"
| "answering (Processing _ _ stream _) = (pending stream = [])"
| "answering t = finished t"

lemma next_access_simps:
  "next_access t = Some Write_Access \<longleftrightarrow> to_store t \<noteq> []"
  "next_access t = None \<longleftrightarrow> answering t"
  by (induction t rule: next_access.induct) auto

text \<open>C4: When a request can meet another in the map: some run of the given calls has a write that overlaps
  another access exactly when one of them is an \<open>AddOrder\<close> or an \<open>UpdateOrders\<close> with something to store
  and a second one, of any kind, has not yet come to its answer. The runs in which no accesses meet
  lead to exactly the configurations of the server with instantaneous accesses, although a look-up may
  find any map that there was while it went on. The accesses are those of the steps: the steps that
  store are those that are to write, and a step without an access goes the same way on every map.\<close>

theorem races_exactly_when:
  "((\<exists>c. open_reaches f it pbtext (open_start orders hs) c \<and> raced c)
      \<longleftrightarrow> (\<exists>i < length hs. \<exists>j < length hs. i \<noteq> j \<and> to_store (hs ! i) \<noteq> [] \<and> \<not> answering (hs ! j)))
   \<and> ((\<exists>c'. open_reaches f it pbtext (open_start orders hs) c' \<and> atomic c' = c \<and> \<not> raced c')
      \<longleftrightarrow> reaches f it pbtext (server_start orders hs) c)
   \<and> {t. \<exists>m xs t'. handler_step (f i) (it i) pbtext m t xs t' \<and> xs \<noteq> []} = {t. next_access t = Some Write_Access}
   \<and> {t. next_access t = None} \<subseteq> {t. \<forall>m m'. handler_step (f i) (it i) pbtext m t = handler_step (f i) (it i) pbtext m' t}"
proof (intro conjI)
  let ?start = "open_start orders hs"
  show "(\<exists>c. open_reaches f it pbtext ?start c \<and> raced c)
      \<longleftrightarrow> (\<exists>i < length hs. \<exists>j < length hs. i \<noteq> j \<and> to_store (hs ! i) \<noteq> [] \<and> \<not> answering (hs ! j))"
    (is "?race \<longleftrightarrow> ?pair")
  proof
    assume ?race
    then obtain c where "open_reaches f it pbtext ?start c" "raced c" by blast
    then show ?pair
      using access_inv_reaches [of f it pbtext orders hs c] unfolding access_inv_def clash_def next_access_simps [symmetric] by auto
  next
    assume ?pair
    then obtain i j b where ij: "i < length hs" "j < length hs" "i \<noteq> j"
      and a: "next_access (hs ! i) = Some Write_Access" and b: "next_access (hs ! j) = Some b"
      unfolding next_access_simps [symmetric] by blast
    let ?c = "?start\<lparr>busy := (busy ?start)[i := Some (Write_Access, [orders])]\<rparr>"
    let ?d = "?c\<lparr>busy := (busy ?c)[j := Some (b, [orders])], raced := meets b ?c\<rparr>"
    have "access_step f it pbtext ?start ?c"
      using access_step.begins [of ?start i Write_Access f it pbtext] ij a nobody_met
      by (simp add: open_start_at_rest) (simp add: at_rest_def server_start_def)
    moreover have "access_step f it pbtext ?c ?d"
      using access_step.begins [of ?c j b f it pbtext] ij b
      by (simp add: open_start_def server_start_def)
    moreover have "meets b ?c"
      using ij by (auto simp: open_start_def meets_def list_ex_length clash_def intro!: exI [of _ i])
    ultimately show ?race
      by (intro exI [of _ ?d]) (auto intro: converse_rtranclp_into_rtranclp)
  qed
  show "(\<exists>c'. open_reaches f it pbtext ?start c' \<and> atomic c' = c \<and> \<not> raced c')
      \<longleftrightarrow> reaches f it pbtext (server_start orders hs) c"
  proof
    assume "\<exists>c'. open_reaches f it pbtext ?start c' \<and> atomic c' = c \<and> \<not> raced c'"
    then show "reaches f it pbtext (server_start orders hs) c" using open_atomic by blast
  next
    assume "reaches f it pbtext (server_start orders hs) c"
    then have "open_reaches f it pbtext ?start (at_rest c)"
      unfolding open_start_at_rest by (rule reaches_at_rest)
    then show "\<exists>c'. open_reaches f it pbtext ?start c' \<and> atomic c' = c \<and> \<not> raced c'"
      by (intro exI [of _ "at_rest c"]) (simp add: at_rest_def)
  qed
  show "{t. \<exists>m xs t'. handler_step (f i) (it i) pbtext m t xs t' \<and> xs \<noteq> []} = {t. next_access t = Some Write_Access}"
    using step_writes step_can_write by blast
  show "{t. next_access t = None} \<subseteq> {t. \<forall>m m'. handler_step (f i) (it i) pbtext m t = handler_step (f i) (it i) pbtext m' t}"
    by (auto simp: fun_eq_iff intro: step_blind)
qed

end
