(* ===== verification/Proxy_Wasm.thy ===== *)
theory Proxy_Wasm
  imports Go_Stdlib
begin

text \<open>
  The Proxy-Wasm host as the plugins of \<^verbatim>\<open>istio/envoy/wasm-go\<close> see it. The SDK and the proxy
  are not part of the repository, so the host is a parameter: a record of host calls over a host
  state of any type \<open>'h\<close>. A call that only reads has the type \<open>'h \<Rightarrow> _\<close>, a call with an effect
  returns the new host state as well. What a theorem needs to know of the host is a locale over
  this record whose laws state the behaviour that the repository's copy of the SDK guide
  (\<^verbatim>\<open>wasm-go/doc/OVERVIEW.md\<close>) and its tests describe.
\<close>

section \<open>Values of the SDK\<close>

datatype host_error = ErrorStatusNotFound | ErrorStatusEmpty | ErrorStatusCasMismatch
  | ErrorStatus string

type_synonym err = "host_error option"

datatype action = ActionContinue | ActionPause

datatype start_status = StatusOK | StatusFailed

datatype log_level = LogDebug | LogInfo | LogWarn | LogError | LogCritical

fun log_severity :: "log_level \<Rightarrow> nat" where
  "log_severity LogDebug = 1"
| "log_severity LogInfo = 2"
| "log_severity LogWarn = 3"
| "log_severity LogError = 4"
| "log_severity LogCritical = 5"

lemma log_severity_inj: "log_severity a = log_severity b \<Longrightarrow> a = b"
  by (cases a; cases b) simp_all

text \<open>Log levels are ordered by severity, as a host's log threshold needs them.\<close>

instantiation log_level :: linorder
begin

definition less_eq_log_level :: "log_level \<Rightarrow> log_level \<Rightarrow> bool" where
  "less_eq_log_level a b \<longleftrightarrow> log_severity a \<le> log_severity b"

definition less_log_level :: "log_level \<Rightarrow> log_level \<Rightarrow> bool" where
  "less_log_level a b \<longleftrightarrow> log_severity a < log_severity b"

instance
  by standard (auto simp: less_eq_log_level_def less_log_level_def dest: log_severity_inj)

end

section \<open>The host calls\<close>

record 'h host =
  ErrorString :: "host_error \<Rightarrow> string"
  Log :: "log_level \<Rightarrow> string \<Rightarrow> 'h \<Rightarrow> 'h"
  GetVMConfiguration :: "'h \<Rightarrow> string option \<times> err"
  GetPluginConfiguration :: "'h \<Rightarrow> string option \<times> err"
  SetTickPeriodMilliSeconds :: "uint32 \<Rightarrow> 'h \<Rightarrow> err \<times> 'h"
  SetEffectiveContext :: "uint32 \<Rightarrow> 'h \<Rightarrow> err \<times> 'h"
  GetHttpRequestHeader :: "string \<Rightarrow> 'h \<Rightarrow> string \<times> err"
  GetHttpRequestHeaders :: "'h \<Rightarrow> headers \<times> err"
  RemoveHttpRequestHeader :: "string \<Rightarrow> 'h \<Rightarrow> err \<times> 'h"
  ReplaceHttpRequestHeader :: "string \<Rightarrow> string \<Rightarrow> 'h \<Rightarrow> err \<times> 'h"
  GetHttpResponseHeaders :: "'h \<Rightarrow> headers \<times> err"
  RemoveHttpResponseHeader :: "string \<Rightarrow> 'h \<Rightarrow> err \<times> 'h"
  AddHttpResponseHeader :: "string \<Rightarrow> string \<Rightarrow> 'h \<Rightarrow> err \<times> 'h"
  GetHttpRequestBody :: "goint \<Rightarrow> goint \<Rightarrow> 'h \<Rightarrow> string \<times> err"
  AppendHttpRequestBody :: "string \<Rightarrow> 'h \<Rightarrow> err \<times> 'h"
  PrependHttpRequestBody :: "string \<Rightarrow> 'h \<Rightarrow> err \<times> 'h"
  ReplaceHttpRequestBody :: "string \<Rightarrow> 'h \<Rightarrow> err \<times> 'h"
  GetHttpResponseBody :: "goint \<Rightarrow> goint \<Rightarrow> 'h \<Rightarrow> string \<times> err"
  AppendHttpResponseBody :: "string \<Rightarrow> 'h \<Rightarrow> err \<times> 'h"
  PrependHttpResponseBody :: "string \<Rightarrow> 'h \<Rightarrow> err \<times> 'h"
  ReplaceHttpResponseBody :: "string \<Rightarrow> 'h \<Rightarrow> err \<times> 'h"
  SendHttpResponse :: "uint32 \<Rightarrow> headers \<Rightarrow> string \<Rightarrow> int32 \<Rightarrow> 'h \<Rightarrow> err \<times> 'h"
  ResumeHttpRequest :: "'h \<Rightarrow> err \<times> 'h"
  ResumeHttpResponse :: "'h \<Rightarrow> err \<times> 'h"
  DispatchHttpCall :: "string \<Rightarrow> headers \<Rightarrow> string \<Rightarrow> headers \<Rightarrow> uint32 \<Rightarrow> 'h \<Rightarrow> (uint32 \<times> err) \<times> 'h"
  GetHttpCallResponseHeaders :: "'h \<Rightarrow> headers \<times> err"
  GetHttpCallResponseBody :: "goint \<Rightarrow> goint \<Rightarrow> 'h \<Rightarrow> string \<times> err"
  GetHttpCallResponseTrailers :: "'h \<Rightarrow> headers \<times> err"
  GetProperty :: "string list \<Rightarrow> 'h \<Rightarrow> string \<times> err"
  GetPropertyMap :: "string list \<Rightarrow> 'h \<Rightarrow> headers \<times> err"
  GetDownstreamData :: "goint \<Rightarrow> goint \<Rightarrow> 'h \<Rightarrow> string \<times> err"
  GetUpstreamData :: "goint \<Rightarrow> goint \<Rightarrow> 'h \<Rightarrow> string \<times> err"
  GetSharedData :: "string \<Rightarrow> 'h \<Rightarrow> (string \<times> uint32) \<times> err"
  SetSharedData :: "string \<Rightarrow> string \<Rightarrow> uint32 \<Rightarrow> 'h \<Rightarrow> err \<times> 'h"
  RegisterSharedQueue :: "string \<Rightarrow> 'h \<Rightarrow> (uint32 \<times> err) \<times> 'h"
  ResolveSharedQueue :: "string \<Rightarrow> string \<Rightarrow> 'h \<Rightarrow> uint32 \<times> err"
  EnqueueSharedQueue :: "uint32 \<Rightarrow> string \<Rightarrow> 'h \<Rightarrow> err \<times> 'h"
  DequeueSharedQueue :: "uint32 \<Rightarrow> 'h \<Rightarrow> (string \<times> err) \<times> 'h"
  DefineCounterMetric :: "string \<Rightarrow> 'h \<Rightarrow> uint32 \<times> 'h"
  CounterIncrement :: "uint32 \<Rightarrow> uint64 \<Rightarrow> 'h \<Rightarrow> 'h"
  CallForeignFunction :: "string \<Rightarrow> string \<Rightarrow> 'h \<Rightarrow> (string \<times> err) \<times> 'h"
  RandRead :: "nat \<Rightarrow> 'h \<Rightarrow> string \<times> 'h"

text \<open>Logging one line per header, as several plugins do in a loop.\<close>

definition log_headers :: "'h host \<Rightarrow> string \<Rightarrow> headers \<Rightarrow> 'h \<Rightarrow> 'h" where
  "log_headers H before hs h =
     foldl (\<lambda>h kv. Log H LogInfo (before @ fst kv @ '': '' @ snd kv) h) h hs"

section \<open>A body delivered in frames\<close>

text \<open>
  The proxy hands a body over in frames: it adds the frame to the buffered body (\<open>deliver\<close>) and
  calls the context's body handler with the size of the frame, with \<open>endOfStream\<close> on the last.
\<close>

definition frame_size :: "string \<Rightarrow> goint" where
  "frame_size d = word_of_nat (length d)"

fun feed_frames :: "('c \<Rightarrow> goint \<Rightarrow> bool \<Rightarrow> 'h \<Rightarrow> action outcome \<times> 'c \<times> 'h) \<Rightarrow> (string \<Rightarrow> 'h \<Rightarrow> 'h)
    \<Rightarrow> string list \<Rightarrow> 'c \<Rightarrow> 'h \<Rightarrow> action outcome list \<times> 'c \<times> 'h" where
  "feed_frames on_body deliver [] c h = ([], c, h)"
| "feed_frames on_body deliver (d # ds) c h =
     (let (a, c1, h1) = on_body c (frame_size d) False (deliver d h);
          (as, c2, h2) = feed_frames on_body deliver ds c1 h1
      in (a # as, c2, h2))"

definition stream_body :: "('c \<Rightarrow> goint \<Rightarrow> bool \<Rightarrow> 'h \<Rightarrow> action outcome \<times> 'c \<times> 'h) \<Rightarrow> (string \<Rightarrow> 'h \<Rightarrow> 'h)
    \<Rightarrow> string list \<Rightarrow> string \<Rightarrow> 'c \<Rightarrow> 'h \<Rightarrow> action outcome list \<times> 'c \<times> 'h" where
  "stream_body on_body deliver ds d c h =
     (let (as, c1, h1) = feed_frames on_body deliver ds c h;
          (a, c2, h2) = on_body c1 (frame_size d) True (deliver d h1)
      in (as @ [a], c2, h2))"

lemma sum_frame_sizes:
  "sum_list (map frame_size ds) = word_of_nat (length (concat ds))"
  by (induction ds) (simp_all add: frame_size_def)

lemma sint_frame_sizes:
  assumes "length (concat ds) < 2 ^ 31"
  shows "sint (word_of_nat (length (concat ds)) :: goint) = int (length (concat ds))"
  using assms by (rule sint_nat)

text \<open>
  The contract of the handlers that wait for the whole body: until the end of the stream they only
  add the size of the frame to their total and pause. \<open>ready\<close> is the state in which they do so.
\<close>

locale body_buffering =
  fixes on_body :: "'c \<Rightarrow> goint \<Rightarrow> bool \<Rightarrow> 'h \<Rightarrow> action outcome \<times> 'c \<times> 'h"
    and ready :: "'c \<Rightarrow> bool"
    and total :: "'c \<Rightarrow> goint"
    and grow :: "goint \<Rightarrow> 'c \<Rightarrow> 'c"
  assumes hold: "ready c \<Longrightarrow> on_body c n False h = (Return ActionPause, grow n c, h)"
    and total_grow: "total (grow n c) = total c + n"
    and ready_grow: "ready (grow n c) = ready c"
    and grow_0: "grow 0 c = c"
    and grow_add: "grow m (grow n c) = grow (n + m) c"
begin

lemma feed_holds:
  "ready c \<Longrightarrow> feed_frames on_body deliver ds c h =
     (replicate (length ds) (Return ActionPause), grow (sum_list (map frame_size ds)) c,
      foldl (\<lambda>h d. deliver d h) h ds)"
  by (induction ds arbitrary: c h) (simp_all add: hold ready_grow grow_0 grow_add)

text \<open>At the end of the stream the handler sees the whole body in the host and its size in the total.\<close>

lemma stream_body_last:
  "ready c \<Longrightarrow> stream_body on_body deliver ds d c h =
     (let (a, c', h') = on_body (grow (word_of_nat (length (concat ds))) c) (frame_size d) True
            (foldl (\<lambda>h d. deliver d h) h (ds @ [d]))
      in (replicate (length ds) (Return ActionPause) @ [a], c', h'))"
  by (simp add: stream_body_def feed_holds sum_frame_sizes)

end

section \<open>The body of a request or of a response in the host\<close>

text \<open>
  What a plugin that edits a body relies on: a body that is not empty is read whole when at least
  its length is asked for; append, prepend and replace succeed and do what they say; a log line
  leaves the body alone.
\<close>

locale body_channel =
  fixes H :: "'h host"
    and get :: "goint \<Rightarrow> goint \<Rightarrow> 'h \<Rightarrow> string \<times> err"
    and append prepend replace :: "string \<Rightarrow> 'h \<Rightarrow> err \<times> 'h"
    and body :: "'h \<Rightarrow> string"
    and deliver :: "string \<Rightarrow> 'h \<Rightarrow> 'h"
  assumes body_log: "body (Log H l m h) = body h"
    and body_deliver: "body (deliver d h) = body h @ d"
    and get_whole: "body h \<noteq> [] \<Longrightarrow> int (length (body h)) \<le> sint n \<Longrightarrow> get 0 n h = (body h, None)"
    and append_ok: "fst (append d h) = None" "body (snd (append d h)) = body h @ d"
    and prepend_ok: "fst (prepend d h) = None" "body (snd (prepend d h)) = d @ body h"
    and replace_ok: "fst (replace d h) = None" "body (snd (replace d h)) = d"
begin

lemma body_deliver_all: "body (foldl (\<lambda>h d. deliver d h) h ds) = body h @ concat ds"
  by (induction ds arbitrary: h) (simp_all add: body_deliver)

lemma get_delivered:
  assumes "body h = []" and "concat ds \<noteq> []" and "length (concat ds) < 2 ^ 31"
  shows "get 0 (word_of_nat (length (concat ds))) (foldl (\<lambda>h d. deliver d h) h ds) = (concat ds, None)"
  using assms get_whole [of "foldl (\<lambda>h d. deliver d h) h ds" "word_of_nat (length (concat ds))"]
  by (simp add: body_deliver_all sint_frame_sizes)

end

section \<open>Shared data\<close>

text \<open>
  The key-value store that all the VMs with one \<open>vm_id\<close> share. \<open>view\<close> is its contents: each
  key's value and version. A read returns them; a write with the version read succeeds if nobody
  wrote in between, and the version is then incremented; with an older one it fails with
  \<open>ErrorStatusCasMismatch\<close> and changes nothing; with 0 it always succeeds.
\<close>

locale cas_store =
  fixes H :: "'h host"
    and view :: "'h \<Rightarrow> string \<Rightarrow> (string \<times> uint32) option"
  assumes view_log: "view (Log H l m h) = view h"
    and get_present: "view h k = Some (d, c) \<Longrightarrow> GetSharedData H k h = ((d, c), None)"
    and set_current: "view h k = Some (d0, c) \<Longrightarrow> c \<noteq> 0 \<Longrightarrow> unat c + 1 < 2 ^ 32 \<Longrightarrow>
      \<exists>h'. SetSharedData H k d c h = (None, h') \<and> view h' k = Some (d, c + 1)"
    and set_stale: "view h k = Some (d0, c) \<Longrightarrow> cas \<noteq> 0 \<Longrightarrow> cas \<noteq> c \<Longrightarrow>
      \<exists>h'. SetSharedData H k d cas h = (Some ErrorStatusCasMismatch, h') \<and> view h' k = view h k"
    and set_always: "\<exists>h' c. SetSharedData H k d 0 h = (None, h') \<and> view h' k = Some (d, c) \<and> c \<noteq> 0"

section \<open>Paused requests and responses\<close>

text \<open>
  Resuming requests: \<open>SetEffectiveContext\<close> chooses the request, \<open>ResumeHttpRequest\<close> lets it go.
  \<open>resumed\<close> is the history of the requests resumed.
\<close>

locale resume_host =
  fixes H :: "'h host"
    and effective :: "'h \<Rightarrow> uint32"
    and resumed :: "'h \<Rightarrow> uint32 list"
  assumes resumed_log: "resumed (Log H l m h) = resumed h"
    and set_effective: "\<exists>h'. SetEffectiveContext H c h = (None, h') \<and> effective h' = c \<and> resumed h' = resumed h"
    and resume: "\<exists>h'. ResumeHttpRequest H h = (None, h') \<and> resumed h' = resumed h @ [effective h]"

text \<open>
  A response that waits for callouts: what was added to its headers, how often it was resumed, and
  how many callouts were accepted. A callout that is refused leaves all of it alone.
\<close>

locale response_host =
  fixes H :: "'h host"
    and response_headers :: "'h \<Rightarrow> headers"
    and resumptions :: "'h \<Rightarrow> nat"
    and callouts :: "'h \<Rightarrow> nat"
  assumes response_log: "response_headers (Log H l m h) = response_headers h"
      "resumptions (Log H l m h) = resumptions h" "callouts (Log H l m h) = callouts h"
    and callout: "DispatchHttpCall H cluster hs b ts timeout h = ((i, e), h') \<Longrightarrow>
      response_headers h' = response_headers h \<and> resumptions h' = resumptions h
      \<and> callouts h' = callouts h + (if e = None then 1 else 0)"
    and add_header: "\<exists>h'. AddHttpResponseHeader H k v h = (None, h')
      \<and> response_headers h' = response_headers h @ [(k, v)]
      \<and> resumptions h' = resumptions h \<and> callouts h' = callouts h"
    and resume_response: "\<exists>h'. ResumeHttpResponse H h = (None, h')
      \<and> response_headers h' = response_headers h
      \<and> resumptions h' = Suc (resumptions h) \<and> callouts h' = callouts h"

text \<open>A request that may also be answered by a local response, \<open>answered\<close>.\<close>

locale request_gate = resume_host H effective resumed
  for H :: "'h host" and effective :: "'h \<Rightarrow> uint32" and resumed :: "'h \<Rightarrow> uint32 list" +
  fixes answered :: "'h \<Rightarrow> (uint32 \<times> headers \<times> string \<times> int32) list"
  assumes effective_log: "effective (Log H l m h) = effective h"
    and answered_log: "answered (Log H l m h) = answered h"
    and answered_resume: "answered (snd (ResumeHttpRequest H h)) = answered h"
    and send_response: "SendHttpResponse H code hs b g h = (e, h') \<Longrightarrow>
      resumed h' = resumed h \<and> effective h' = effective h
      \<and> answered h' = answered h @ (if e = None then [(code, hs, b, g)] else [])"
begin

lemma resumed_resume: "resumed (snd (ResumeHttpRequest H h)) = resumed h @ [effective h]"
  using resume [of h] by auto

lemma gate_log_headers:
  "resumed (log_headers H p hs h) = resumed h"
  "effective (log_headers H p hs h) = effective h"
  "answered (log_headers H p hs h) = answered h"
  unfolding log_headers_def
  by (induction hs arbitrary: h) (simp_all add: resumed_log effective_log answered_log)

lemmas gate_simps = resumed_log effective_log answered_log resumed_resume answered_resume gate_log_headers

end

section \<open>Request headers\<close>

text \<open>Reading and replacing one header; drawing random bytes leaves the headers alone.\<close>

locale header_store =
  fixes H :: "'h host"
    and request_header :: "'h \<Rightarrow> string \<Rightarrow> string option"
  assumes header_log: "request_header (Log H l m h) = request_header h"
    and header_get: "GetHttpRequestHeader H k h =
      (case request_header h k of Some v \<Rightarrow> (v, None) | None \<Rightarrow> ('''', Some ErrorStatusNotFound))"
    and header_replace: "\<exists>h'. ReplaceHttpRequestHeader H k v h = (None, h')
      \<and> request_header h' = (request_header h)(k \<mapsto> v)"
    and random_bytes: "length (fst (RandRead H n h)) = n"
    and header_random: "request_header (snd (RandRead H n h)) = request_header h"

section \<open>Shared queues\<close>

text \<open>
  A queue is known by the pair of the VM that registered it and its name, and used by the id
  assigned to the pair. \<open>vm\<close> is the VM that makes the call (\<open>enter\<close> switches to another one),
  \<open>logged\<close> the lines logged so far, and \<open>arrive\<close> the arrival of a request with its headers.
\<close>

locale shared_queues =
  fixes H :: "'h host"
    and vm :: "'h \<Rightarrow> string"
    and enter :: "string \<Rightarrow> 'h \<Rightarrow> 'h"
    and arrive :: "headers \<Rightarrow> 'h \<Rightarrow> 'h"
    and id_of :: "'h \<Rightarrow> string \<times> string \<Rightarrow> uint32 option"
    and queue :: "'h \<Rightarrow> uint32 \<Rightarrow> string list option"
    and logged :: "'h \<Rightarrow> (log_level \<times> string) list"
  assumes queue_log: "queue (Log H l m h) = queue h" "id_of (Log H l m h) = id_of h"
      "logged (Log H l m h) = logged h @ [(l, m)]"
    and queue_enter: "id_of (enter v h) = id_of h" "vm (enter v h) = v"
    and queue_arrive: "queue (arrive hs h) = queue h" "logged (arrive hs h) = logged h"
      "GetHttpRequestHeaders H (arrive hs h) = (hs, None)"
    and register: "RegisterSharedQueue H name h = ((q, None), h') \<Longrightarrow> id_of h' (vm h, name) = Some q"
    and resolve: "id_of h (v, name) = Some q \<Longrightarrow> ResolveSharedQueue H v name h = (q, None)"
    and enqueue: "queue h q = Some items \<Longrightarrow>
      \<exists>h'. EnqueueSharedQueue H q d h = (None, h') \<and> queue h' = (queue h)(q \<mapsto> items @ [d]) \<and> logged h' = logged h"
    and dequeue: "queue h q = Some (d # items) \<Longrightarrow>
      \<exists>h'. DequeueSharedQueue H q h = ((d, None), h') \<and> queue h' = (queue h)(q \<mapsto> items) \<and> logged h' = logged h"
    and dequeue_empty: "queue h q = Some [] \<Longrightarrow>
      \<exists>d h'. DequeueSharedQueue H q h = ((d, Some ErrorStatusEmpty), h') \<and> queue h' = queue h \<and> logged h' = logged h"

section \<open>Metrics\<close>

text \<open>
  Counters: \<open>metric\<close> is the value under a name (0 when there is none), \<open>bound\<close> the name that an id
  stands for, \<open>defined\<close> the number of metrics defined, which ids can tell apart up to \<open>2 ^ 32\<close>.
  \<open>arrive\<close> is the arrival of a request with or without a given header.
\<close>

locale metrics_host =
  fixes H :: "'h host"
    and metric :: "'h \<Rightarrow> string \<Rightarrow> uint64"
    and bound :: "'h \<Rightarrow> uint32 \<Rightarrow> string option"
    and defined :: "'h \<Rightarrow> nat"
    and arrive :: "string \<Rightarrow> string option \<Rightarrow> 'h \<Rightarrow> 'h"
  assumes metric_log: "metric (Log H l m h) = metric h" "bound (Log H l m h) = bound h"
    and metric_arrive: "metric (arrive k v h) = metric h" "bound (arrive k v h) = bound h"
      "defined (arrive k v h) = defined h"
    and arrive_header: "GetHttpRequestHeader H k (arrive k v h) =
      (case v of Some s \<Rightarrow> (s, None) | None \<Rightarrow> ('''', Some ErrorStatusNotFound))"
    and define_counter: "DefineCounterMetric H n h = (i, h') \<Longrightarrow> defined h + 1 < 2 ^ 32 \<Longrightarrow>
      bound h' i = Some n \<and> bound h \<subseteq>\<^sub>m bound h' \<and> metric h' = metric h \<and> defined h' \<le> defined h + 1"
    and increment: "bound h i = Some n \<Longrightarrow>
      metric (CounterIncrement H i amount h) = (metric h)(n := metric h n + amount)
      \<and> bound (CounterIncrement H i amount h) = bound h \<and> defined (CounterIncrement H i amount h) = defined h"

end
