(* ===== verification/Reference_Host.thy ===== *)
theory Reference_Host
  imports Proxy_Wasm
begin

text \<open>
  A host that keeps all the laws of \<open>Proxy_Wasm\<close>: an executable one, as the emulator that the
  plugins' tests run against. The properties of the plugins hold for every host with the laws;
  this one shows that the laws can hold together, and it is the host of the witnesses.
  Headers are association lists, a body is the bytes delivered so far, shared data carry a
  version number, a queue or a metric is named by its position in a list.
\<close>

record emulator =
  em_logs :: "(log_level \<times> string) list"
  em_vm_config :: "string option"
  em_plugin_config :: "string option"
  em_tick :: uint32
  em_context :: uint32
  em_request_headers :: headers
  em_response_headers :: headers
  em_request_body :: string
  em_response_body :: string
  em_local_responses :: "(uint32 \<times> headers \<times> string \<times> int32) list"
  em_resumed_requests :: "uint32 list"
  em_resumed_responses :: "uint32 list"
  em_callouts :: "(string \<times> headers \<times> string \<times> headers \<times> uint32) list"
  em_call_headers :: headers
  em_call_body :: string
  em_call_trailers :: headers
  em_properties :: "(string list \<times> string) list"
  em_property_maps :: "(string list \<times> headers) list"
  em_downstream :: string
  em_upstream :: string
  em_shared :: "string \<Rightarrow> (string \<times> uint32) option"
  em_vm_id :: string
  em_queues :: "((string \<times> string) \<times> string list) list"
  em_metrics :: "(string \<times> uint64) list"
  em_random :: string

definition emulator_init :: emulator where
  "emulator_init = \<lparr>em_logs = [], em_vm_config = None, em_plugin_config = None, em_tick = 0,
     em_context = 0, em_request_headers = [], em_response_headers = [], em_request_body = [],
     em_response_body = [], em_local_responses = [], em_resumed_requests = [],
     em_resumed_responses = [], em_callouts = [], em_call_headers = [], em_call_body = [],
     em_call_trailers = [], em_properties = [], em_property_maps = [], em_downstream = [],
     em_upstream = [], em_shared = (\<lambda>_. None), em_vm_id = '''', em_queues = [], em_metrics = [],
     em_random = []\<rparr>"

definition not_found_string :: "string option \<Rightarrow> string \<times> err" where
  "not_found_string r = (case r of Some v \<Rightarrow> (v, None) | None \<Rightarrow> ('''', Some ErrorStatusNotFound))"

definition read_slice :: "string \<Rightarrow> goint \<Rightarrow> goint \<Rightarrow> string \<times> err" where
  "read_slice b start n =
     (if b = [] then ('''', Some ErrorStatusNotFound)
      else (take (nat (sint n)) (drop (nat (sint start)) b), None))"

definition remove_header :: "string \<Rightarrow> headers \<Rightarrow> headers" where
  "remove_header k hs = filter (\<lambda>kv. fst kv \<noteq> k) hs"

definition replace_header :: "string \<Rightarrow> string \<Rightarrow> headers \<Rightarrow> headers" where
  "replace_header k v hs = remove_header k hs @ [(k, v)]"

definition next_version :: "(string \<times> uint32) option \<Rightarrow> uint32" where
  "next_version e = (case e of None \<Rightarrow> 1 | Some (_, c) \<Rightarrow> if c + 1 = 0 then 1 else c + 1)"

definition em_set_shared :: "string \<Rightarrow> string \<Rightarrow> uint32 \<Rightarrow> emulator \<Rightarrow> err \<times> emulator" where
  "em_set_shared k d cas h =
     (if cas = 0 \<or> map_option snd (em_shared h k) = Some cas
      then (None, h\<lparr>em_shared := (em_shared h)(k \<mapsto> (d, next_version (em_shared h k)))\<rparr>)
      else (Some ErrorStatusCasMismatch, h))"

text \<open>A position in a list as an id: ids start at 1.\<close>

definition position :: "'a \<Rightarrow> 'a list \<Rightarrow> nat option" where
  "position x xs = find (\<lambda>i. xs ! i = x) [0..<length xs]"

definition em_register :: "string \<Rightarrow> emulator \<Rightarrow> (uint32 \<times> err) \<times> emulator" where
  "em_register name h =
     (case position (em_vm_id h, name) (map fst (em_queues h)) of
        Some i \<Rightarrow> ((word_of_nat (Suc i), None), h)
      | None \<Rightarrow> ((word_of_nat (Suc (length (em_queues h))), None),
                h\<lparr>em_queues := em_queues h @ [((em_vm_id h, name), [])]\<rparr>))"

definition em_resolve :: "string \<Rightarrow> string \<Rightarrow> emulator \<Rightarrow> uint32 \<times> err" where
  "em_resolve vm name h =
     (case position (vm, name) (map fst (em_queues h)) of
        Some i \<Rightarrow> (word_of_nat (Suc i), None)
      | None \<Rightarrow> (0, Some ErrorStatusNotFound))"

definition em_queue :: "emulator \<Rightarrow> uint32 \<Rightarrow> string list option" where
  "em_queue h q =
     (if 0 < unat q \<and> unat q \<le> length (em_queues h) then Some (snd (em_queues h ! (unat q - 1))) else None)"

definition em_set_queue :: "uint32 \<Rightarrow> string list \<Rightarrow> emulator \<Rightarrow> emulator" where
  "em_set_queue q items h =
     h\<lparr>em_queues := (em_queues h)[unat q - 1 := (fst (em_queues h ! (unat q - 1)), items)]\<rparr>"

definition em_enqueue :: "uint32 \<Rightarrow> string \<Rightarrow> emulator \<Rightarrow> err \<times> emulator" where
  "em_enqueue q d h =
     (case em_queue h q of
        Some items \<Rightarrow> (None, em_set_queue q (items @ [d]) h)
      | None \<Rightarrow> (Some ErrorStatusNotFound, h))"

definition em_dequeue :: "uint32 \<Rightarrow> emulator \<Rightarrow> (string \<times> err) \<times> emulator" where
  "em_dequeue q h =
     (case em_queue h q of
        Some (x # xs) \<Rightarrow> ((x, None), em_set_queue q xs h)
      | Some [] \<Rightarrow> (('''', Some ErrorStatusEmpty), h)
      | None \<Rightarrow> (('''', Some ErrorStatusNotFound), h))"

definition em_define_metric :: "string \<Rightarrow> emulator \<Rightarrow> uint32 \<times> emulator" where
  "em_define_metric name h =
     (case position name (map fst (em_metrics h)) of
        Some i \<Rightarrow> (word_of_nat i, h)
      | None \<Rightarrow> (word_of_nat (length (em_metrics h)), h\<lparr>em_metrics := em_metrics h @ [(name, 0)]\<rparr>))"

definition em_increment :: "uint32 \<Rightarrow> uint64 \<Rightarrow> emulator \<Rightarrow> emulator" where
  "em_increment c n h =
     (if unat c < length (em_metrics h)
      then h\<lparr>em_metrics := (em_metrics h)[unat c := (fst (em_metrics h ! unat c), snd (em_metrics h ! unat c) + n)]\<rparr>
      else h)"

definition reference_host :: "emulator host" where
  "reference_host = \<lparr>
     ErrorString = (\<lambda>e. case e of ErrorStatusNotFound \<Rightarrow> ''not found'' | ErrorStatusEmpty \<Rightarrow> ''empty''
                      | ErrorStatusCasMismatch \<Rightarrow> ''cas mismatch'' | ErrorStatus s \<Rightarrow> s),
     Log = (\<lambda>l s h. h\<lparr>em_logs := em_logs h @ [(l, s)]\<rparr>),
     GetVMConfiguration = (\<lambda>h. (em_vm_config h,
        if em_vm_config h = None then Some ErrorStatusNotFound else None)),
     GetPluginConfiguration = (\<lambda>h. (em_plugin_config h,
        if em_plugin_config h = None then Some ErrorStatusNotFound else None)),
     SetTickPeriodMilliSeconds = (\<lambda>t h. (None, h\<lparr>em_tick := t\<rparr>)),
     SetEffectiveContext = (\<lambda>c h. (None, h\<lparr>em_context := c\<rparr>)),
     GetHttpRequestHeader = (\<lambda>k h. not_found_string (map_of (em_request_headers h) k)),
     GetHttpRequestHeaders = (\<lambda>h. (em_request_headers h, None)),
     RemoveHttpRequestHeader = (\<lambda>k h. (None, h\<lparr>em_request_headers := remove_header k (em_request_headers h)\<rparr>)),
     ReplaceHttpRequestHeader = (\<lambda>k v h. (None, h\<lparr>em_request_headers := replace_header k v (em_request_headers h)\<rparr>)),
     GetHttpResponseHeaders = (\<lambda>h. (em_response_headers h, None)),
     RemoveHttpResponseHeader = (\<lambda>k h. (None, h\<lparr>em_response_headers := remove_header k (em_response_headers h)\<rparr>)),
     AddHttpResponseHeader = (\<lambda>k v h. (None, h\<lparr>em_response_headers := em_response_headers h @ [(k, v)]\<rparr>)),
     GetHttpRequestBody = (\<lambda>s n h. read_slice (em_request_body h) s n),
     AppendHttpRequestBody = (\<lambda>d h. (None, h\<lparr>em_request_body := em_request_body h @ d\<rparr>)),
     PrependHttpRequestBody = (\<lambda>d h. (None, h\<lparr>em_request_body := d @ em_request_body h\<rparr>)),
     ReplaceHttpRequestBody = (\<lambda>d h. (None, h\<lparr>em_request_body := d\<rparr>)),
     GetHttpResponseBody = (\<lambda>s n h. read_slice (em_response_body h) s n),
     AppendHttpResponseBody = (\<lambda>d h. (None, h\<lparr>em_response_body := em_response_body h @ d\<rparr>)),
     PrependHttpResponseBody = (\<lambda>d h. (None, h\<lparr>em_response_body := d @ em_response_body h\<rparr>)),
     ReplaceHttpResponseBody = (\<lambda>d h. (None, h\<lparr>em_response_body := d\<rparr>)),
     SendHttpResponse = (\<lambda>code hs b g h. (None, h\<lparr>em_local_responses := em_local_responses h @ [(code, hs, b, g)]\<rparr>)),
     ResumeHttpRequest = (\<lambda>h. (None, h\<lparr>em_resumed_requests := em_resumed_requests h @ [em_context h]\<rparr>)),
     ResumeHttpResponse = (\<lambda>h. (None, h\<lparr>em_resumed_responses := em_resumed_responses h @ [em_context h]\<rparr>)),
     DispatchHttpCall = (\<lambda>cl hs b ts t h. ((word_of_nat (length (em_callouts h)), None),
        h\<lparr>em_callouts := em_callouts h @ [(cl, hs, b, ts, t)]\<rparr>)),
     GetHttpCallResponseHeaders = (\<lambda>h. (em_call_headers h, None)),
     GetHttpCallResponseBody = (\<lambda>s n h. read_slice (em_call_body h) s n),
     GetHttpCallResponseTrailers = (\<lambda>h. (em_call_trailers h, None)),
     GetProperty = (\<lambda>p h. not_found_string (map_of (em_properties h) p)),
     GetPropertyMap = (\<lambda>p h. case map_of (em_property_maps h) p of Some m \<Rightarrow> (m, None)
        | None \<Rightarrow> ([], Some ErrorStatusNotFound)),
     GetDownstreamData = (\<lambda>s n h. read_slice (em_downstream h) s n),
     GetUpstreamData = (\<lambda>s n h. read_slice (em_upstream h) s n),
     GetSharedData = (\<lambda>k h. case em_shared h k of Some vc \<Rightarrow> (vc, None)
        | None \<Rightarrow> (('''', 0), Some ErrorStatusNotFound)),
     SetSharedData = em_set_shared,
     RegisterSharedQueue = em_register,
     ResolveSharedQueue = em_resolve,
     EnqueueSharedQueue = em_enqueue,
     DequeueSharedQueue = em_dequeue,
     DefineCounterMetric = em_define_metric,
     CounterIncrement = em_increment,
     CallForeignFunction = (\<lambda>f d h. ((d, None), h)),
     RandRead = (\<lambda>n h. (take n (em_random h @ replicate n (CHR 0x00)), h\<lparr>em_random := drop n (em_random h)\<rparr>))
   \<rparr>"

section \<open>The laws\<close>

lemmas reference_simps =
  reference_host_def read_slice_def not_found_string_def remove_header_def replace_header_def

definition em_deliver_request :: "string \<Rightarrow> emulator \<Rightarrow> emulator" where
  "em_deliver_request d h = h\<lparr>em_request_body := em_request_body h @ d\<rparr>"

definition em_deliver_response :: "string \<Rightarrow> emulator \<Rightarrow> emulator" where
  "em_deliver_response d h = h\<lparr>em_response_body := em_response_body h @ d\<rparr>"

interpretation reference_request: body_channel reference_host
    "GetHttpRequestBody reference_host" "AppendHttpRequestBody reference_host"
    "PrependHttpRequestBody reference_host" "ReplaceHttpRequestBody reference_host"
    em_request_body em_deliver_request
  by unfold_locales (auto simp: reference_simps em_deliver_request_def)

interpretation reference_response: body_channel reference_host
    "GetHttpResponseBody reference_host" "AppendHttpResponseBody reference_host"
    "PrependHttpResponseBody reference_host" "ReplaceHttpResponseBody reference_host"
    em_response_body em_deliver_response
  by unfold_locales (auto simp: reference_simps em_deliver_response_def)

interpretation reference_store: cas_store reference_host em_shared
proof (unfold_locales, goal_cases)
  case (3 h k d0 c d)
  then show ?case
    by (auto simp: reference_host_def em_set_shared_def next_version_def unat_eq_0 [symmetric] unat_word_ariths)
next
  case (5 k d h)
  then show ?case
    by (auto simp: reference_host_def em_set_shared_def next_version_def split: option.splits)
qed (auto simp: reference_host_def em_set_shared_def)

interpretation reference_resume: resume_host reference_host em_context em_resumed_requests
  by unfold_locales (simp_all add: reference_host_def)

interpretation reference_callouts: response_host reference_host em_response_headers
    "\<lambda>h. length (em_resumed_responses h)" "\<lambda>h. length (em_callouts h)"
  by unfold_locales (auto simp: reference_host_def)

interpretation reference_gate: request_gate reference_host em_context em_resumed_requests em_local_responses
  by unfold_locales (auto simp: reference_host_def)

lemma map_of_remove_header: "map_of (remove_header k hs) = (map_of hs)(k := None)"
  by (induction hs) (auto simp: remove_header_def fun_eq_iff)

lemma map_of_replace_header: "map_of (replace_header k v hs) = (map_of hs)(k \<mapsto> v)"
  by (auto simp: replace_header_def map_of_remove_header fun_eq_iff map_add_def split: option.split)

interpretation reference_headers: header_store reference_host "\<lambda>h. map_of (em_request_headers h)"
  by unfold_locales (auto simp: reference_host_def map_of_replace_header not_found_string_def split: option.splits)

definition em_enter :: "string \<Rightarrow> emulator \<Rightarrow> emulator" where
  "em_enter v h = h\<lparr>em_vm_id := v\<rparr>"

definition em_arrive :: "headers \<Rightarrow> emulator \<Rightarrow> emulator" where
  "em_arrive hs h = h\<lparr>em_request_headers := hs\<rparr>"

definition em_queue_id :: "emulator \<Rightarrow> string \<times> string \<Rightarrow> uint32 option" where
  "em_queue_id h key = map_option (\<lambda>i. word_of_nat (Suc i)) (position key (map fst (em_queues h)))"

lemma position_append:
  "position x ys = None \<Longrightarrow> position x (ys @ [x]) = Some (length ys)"
proof -
  assume "position x ys = None"
  then have "find (\<lambda>i. (ys @ [x]) ! i = x) [0..<length ys] = None"
    by (auto simp: position_def find_None_iff nth_append)
  moreover have "find P (is @ js) = (case find P is of None \<Rightarrow> find P js | Some i \<Rightarrow> Some i)" for P :: "nat \<Rightarrow> bool" and "is" js
    by (induction "is") auto
  ultimately show ?thesis by (simp add: position_def)
qed

lemma em_queue_set:
  "em_queue h q = Some items \<Longrightarrow> em_queue (em_set_queue q items' h) = (em_queue h)(q \<mapsto> items')"
proof (rule ext)
  fix p
  assume "em_queue h q = Some items"
  then have q: "0 < unat q" "unat q \<le> length (em_queues h)"
    by (auto simp: em_queue_def split: if_splits)
  show "em_queue (em_set_queue q items' h) p = ((em_queue h)(q \<mapsto> items')) p"
  proof (cases "p = q")
    case True
    with q show ?thesis by (simp add: em_queue_def em_set_queue_def)
  next
    case False
    then have "0 < unat p \<Longrightarrow> unat p - 1 \<noteq> unat q - 1"
      using q by (metis Suc_pred' diff_Suc_1 unsigned_word_eqI)
    with False show ?thesis by (auto simp: em_queue_def em_set_queue_def)
  qed
qed

interpretation reference_queues: shared_queues reference_host em_vm_id em_enter em_arrive em_queue_id em_queue em_logs
proof (unfold_locales, goal_cases)
  case (9 name h q h')
  then show ?case
    by (auto simp: reference_host_def em_register_def em_queue_id_def position_append split: option.splits)
next
  case (10 h v name q)
  then show ?case
    by (auto simp: reference_host_def em_resolve_def em_queue_id_def)
next
  case (11 h q items d)
  then show ?case
    using em_queue_set [of h q items "items @ [d]"]
    by (simp add: reference_host_def em_enqueue_def) (simp add: em_set_queue_def)
next
  case (12 h q d items)
  then show ?case
    using em_queue_set [of h q "d # items" items]
    by (simp add: reference_host_def em_dequeue_def) (simp add: em_set_queue_def)
next
  case (13 h q)
  then show ?case by (auto simp: reference_host_def em_dequeue_def)
qed (auto simp: reference_host_def em_enter_def em_arrive_def em_queue_def em_queue_id_def)

definition em_metric :: "emulator \<Rightarrow> string \<Rightarrow> uint64" where
  "em_metric h n = (case map_of (em_metrics h) n of None \<Rightarrow> 0 | Some c \<Rightarrow> c)"

definition em_bound :: "emulator \<Rightarrow> uint32 \<Rightarrow> string option" where
  "em_bound h i =
     (if unat i < length (em_metrics h)
         \<and> position (fst (em_metrics h ! unat i)) (map fst (em_metrics h)) = Some (unat i)
      then Some (fst (em_metrics h ! unat i)) else None)"

definition em_defined :: "emulator \<Rightarrow> nat" where
  "em_defined h = length (em_metrics h)"

definition em_arrive_with :: "string \<Rightarrow> string option \<Rightarrow> emulator \<Rightarrow> emulator" where
  "em_arrive_with k v h = h\<lparr>em_request_headers := (case v of None \<Rightarrow> [] | Some s \<Rightarrow> [(k, s)])\<rparr>"

lemma position_Some:
  "position x xs = Some i \<longleftrightarrow> i < length xs \<and> xs ! i = x \<and> (\<forall>j < i. xs ! j \<noteq> x)"
  by (auto simp: position_def find_Some_iff)

lemma position_None: "position x xs = None \<longleftrightarrow> x \<notin> set xs"
  by (auto simp: position_def find_None_iff in_set_conv_nth)

lemma map_of_first_update:
  "i < length xs \<Longrightarrow> fst (xs ! i) = k \<Longrightarrow> (\<forall>j < i. fst (xs ! j) \<noteq> k) \<Longrightarrow>
     map_of (xs[i := (k, v)]) = (map_of xs)(k \<mapsto> v)"
proof (induction xs arbitrary: i)
  case (Cons x xs)
  show ?case
  proof (cases i)
    case 0
    with Cons.prems show ?thesis by (cases x) auto
  next
    case (Suc n)
    then have "fst x \<noteq> k" and "\<forall>j < n. fst (xs ! j) \<noteq> k"
      using Cons.prems(3) by (metis nth_Cons_0 zero_less_Suc, metis Suc_less_eq nth_Cons_Suc)
    with Suc Cons show ?thesis by (cases x) (auto simp: fun_upd_twist)
  qed
qed simp

lemma map_of_first:
  "i < length xs \<Longrightarrow> fst (xs ! i) = k \<Longrightarrow> (\<forall>j < i. fst (xs ! j) \<noteq> k) \<Longrightarrow> map_of xs k = Some (snd (xs ! i))"
  using map_of_first_update [of i xs k "snd (xs ! i)"]
  by (metis fun_upd_same list_update_id prod.collapse)

interpretation reference_metrics: metrics_host reference_host em_metric em_bound em_defined em_arrive_with
proof (unfold_locales, goal_cases)
  case (7 n h i h')
  show ?case
  proof (cases "position n (map fst (em_metrics h))")
    case None
    then have "h' = h\<lparr>em_metrics := em_metrics h @ [(n, 0)]\<rparr>" and "i = word_of_nat (length (em_metrics h))"
      using 7(1) by (auto simp: reference_host_def em_define_metric_def)
    moreover have "n \<notin> set (map fst (em_metrics h))" using None position_None by metis
    ultimately show ?thesis
      using 7(2)
      by (auto simp: em_bound_def em_defined_def em_metric_def map_le_def fun_eq_iff position_Some nth_append
          unat_of_nat take_bit_nat_eq_self map_add_def dest: map_of_SomeD split: option.splits if_splits)
  next
    case (Some j)
    then have same: "h' = h" "i = word_of_nat j"
      using 7(1) by (auto simp: reference_host_def em_define_metric_def)
    have "j < length (em_metrics h)" "fst (em_metrics h ! j) = n"
      using Some by (auto simp: position_Some)
    then show ?thesis
      using Some 7(2) by (simp add: same em_bound_def em_defined_def unat_of_nat take_bit_nat_eq_self)
  qed
next
  case (8 h i n amount)
  then show ?case
    using map_of_first [of "unat i" "em_metrics h" n] map_of_first_update [of "unat i" "em_metrics h" n]
    by (auto simp: reference_host_def em_increment_def em_bound_def em_defined_def em_metric_def position_Some
        fun_eq_iff nth_list_update split: if_splits)
qed (auto simp: reference_host_def em_metric_def em_bound_def em_defined_def em_arrive_with_def not_found_string_def
      split: option.splits)

end
