(* ===== verification/Plugin_Vm.thy ===== *)
theory Plugin_Vm
  imports Reference_Host
begin

text \<open>
  A program and its VM (\<^verbatim>\<open>wasm-go/doc/OVERVIEW.md\<close>, Contexts). \<open>main\<close> hands the SDK a VM context,
  from which plugin contexts, HTTP contexts and TCP contexts are made; a program is the record of
  their constructors and methods. The VM keeps the contexts by their ids and calls the methods as
  the proxy's events come. The second half is about many HTTP streams in one VM: the contract
  \<open>stream_program\<close> of a program whose callbacks keep to the current stream, under which every stream
  is served as if it had the VM for itself, as long as no callback panics.
\<close>

section \<open>Programs\<close>

datatype http_phase = OnRequestHeaders | OnRequestBody | OnResponseHeaders | OnResponseBody

text \<open>
  \<open>'p\<close>, \<open>'c\<close> and \<open>'t\<close> are the plugin, HTTP and TCP contexts, \<open>'w\<close> is all that they share: the host
  and, where the program has some, its package variables. A constructor gives no context when the
  code returns nil. An HTTP callback may change the plugin context, to which its context may hold a
  pointer; it is \<open>None\<close> when it does not return. The callbacks of HTTP calls are fields of
  their own, since each program has at most one.
\<close>

record ('p, 'c, 't, 'w) wasm_program =
  OnVMStart :: "goint \<Rightarrow> 'w \<Rightarrow> start_status \<times> 'w"
  NewPluginContext :: "uint32 \<Rightarrow> 'w \<Rightarrow> 'p \<times> 'w"
  OnPluginStart :: "'p \<Rightarrow> goint \<Rightarrow> 'w \<Rightarrow> start_status outcome \<times> 'p \<times> 'w"
  OnTick :: "'p \<Rightarrow> 'w \<Rightarrow> 'p \<times> 'w"
  OnQueueReady :: "'p \<Rightarrow> uint32 \<Rightarrow> 'w \<Rightarrow> 'w"
  PluginCallback :: "'p \<Rightarrow> goint \<Rightarrow> goint \<Rightarrow> goint \<Rightarrow> 'w \<Rightarrow> unit outcome \<times> 'p \<times> 'w"
  NewHttpContext :: "'p \<Rightarrow> uint32 \<Rightarrow> 'w \<Rightarrow> 'c option \<times> 'w"
  OnHttp :: "http_phase \<Rightarrow> 'p \<Rightarrow> 'c \<Rightarrow> goint \<Rightarrow> bool \<Rightarrow> 'w \<Rightarrow> (action outcome \<times> 'p \<times> 'c \<times> 'w) option"
  HttpCallback :: "'c \<Rightarrow> goint \<Rightarrow> goint \<Rightarrow> goint \<Rightarrow> 'w \<Rightarrow> 'c \<times> 'w"
  OnHttpStreamDone :: "'c \<Rightarrow> 'w \<Rightarrow> 'w"
  NewTcpContext :: "'p \<Rightarrow> uint32 \<Rightarrow> 'w \<Rightarrow> 't option \<times> 'w"
  OnNewConnection :: "'t \<Rightarrow> 'w \<Rightarrow> action \<times> 'w"
  OnDownstreamData :: "'t \<Rightarrow> goint \<Rightarrow> bool \<Rightarrow> 'w \<Rightarrow> action \<times> 'w"
  OnUpstreamData :: "'t \<Rightarrow> goint \<Rightarrow> bool \<Rightarrow> 'w \<Rightarrow> action \<times> 'w"
  OnDownstreamClose :: "'t \<Rightarrow> 'w \<Rightarrow> 'w"
  OnStreamDone :: "'t \<Rightarrow> 'w \<Rightarrow> 'w"

text \<open>
  The default contexts of the SDK, which the programs embed so that they need not implement every
  method. Their methods are parameters.
\<close>

record 'w default_contexts =
  Default_OnVMStart :: "goint \<Rightarrow> 'w \<Rightarrow> start_status \<times> 'w"
  Default_OnPluginStart :: "goint \<Rightarrow> 'w \<Rightarrow> start_status \<times> 'w"
  Default_OnTick :: "'w \<Rightarrow> 'w"
  Default_OnQueueReady :: "uint32 \<Rightarrow> 'w \<Rightarrow> 'w"
  Default_OnHttp :: "http_phase \<Rightarrow> goint \<Rightarrow> bool \<Rightarrow> 'w \<Rightarrow> action \<times> 'w"
  Default_OnHttpStreamDone :: "'w \<Rightarrow> 'w"
  Default_OnNewConnection :: "'w \<Rightarrow> action \<times> 'w"
  Default_OnDownstreamData :: "goint \<Rightarrow> bool \<Rightarrow> 'w \<Rightarrow> action \<times> 'w"
  Default_OnUpstreamData :: "goint \<Rightarrow> bool \<Rightarrow> 'w \<Rightarrow> action \<times> 'w"
  Default_OnDownstreamClose :: "'w \<Rightarrow> 'w"
  Default_OnStreamDone :: "'w \<Rightarrow> 'w"

text \<open>
  A program all of whose contexts embed the defaults; a program of the repository is an update of
  it by the methods that it overrides. A constructor of streams that a program does not override
  is not called, since the program is not configured for such streams.
\<close>

definition embed :: "'w default_contexts \<Rightarrow> (uint32 \<Rightarrow> 'w \<Rightarrow> 'p \<times> 'w) \<Rightarrow> ('p, 'c, 't, 'w) wasm_program" where
  "embed D new = \<lparr>
     OnVMStart = Default_OnVMStart D,
     NewPluginContext = new,
     OnPluginStart = (\<lambda>p n w. case Default_OnPluginStart D n w of (s, w) \<Rightarrow> (Return s, p, w)),
     OnTick = (\<lambda>p w. (p, Default_OnTick D w)),
     OnQueueReady = (\<lambda>p. Default_OnQueueReady D),
     PluginCallback = (\<lambda>p _ _ _ w. (Return (), p, w)),
     NewHttpContext = (\<lambda>p i w. (None, w)),
     OnHttp = (\<lambda>ph p c n e w. case Default_OnHttp D ph n e w of (a, w) \<Rightarrow> Some (Return a, p, c, w)),
     HttpCallback = (\<lambda>c _ _ _ w. (c, w)),
     OnHttpStreamDone = (\<lambda>c. Default_OnHttpStreamDone D),
     NewTcpContext = (\<lambda>p i w. (None, w)),
     OnNewConnection = (\<lambda>t. Default_OnNewConnection D),
     OnDownstreamData = (\<lambda>t. Default_OnDownstreamData D),
     OnUpstreamData = (\<lambda>t. Default_OnUpstreamData D),
     OnDownstreamClose = (\<lambda>t. Default_OnDownstreamClose D),
     OnStreamDone = (\<lambda>t. Default_OnStreamDone D)\<rparr>"

text \<open>The shapes of the callbacks: one that keeps its context, one that may panic, one that changes the context.\<close>

definition keeps :: "'p \<Rightarrow> 'c \<Rightarrow> action \<times> 'w \<Rightarrow> (action outcome \<times> 'p \<times> 'c \<times> 'w) option" where
  "keeps p c = (\<lambda>(a, w). Some (Return a, p, c, w))"

definition panics :: "'p \<Rightarrow> 'c \<Rightarrow> action outcome \<times> 'w \<Rightarrow> (action outcome \<times> 'p \<times> 'c \<times> 'w) option" where
  "panics p c = (\<lambda>(r, w). Some (r, p, c, w))"

definition changes :: "'p \<Rightarrow> ('c \<Rightarrow> 'd) \<Rightarrow> action outcome \<times> 'c \<times> 'w \<Rightarrow> (action outcome \<times> 'p \<times> 'd \<times> 'w) option" where
  "changes p C = (\<lambda>(r, c, w). Some (r, p, C c, w))"

definition starts :: "start_status \<times> 'p \<times> 'w \<Rightarrow> start_status outcome \<times> 'p \<times> 'w" where
  "starts = (\<lambda>(s, p, w). (Return s, p, w))"

lemmas callback_shapes = keeps_def panics_def changes_def starts_def

section \<open>The VM\<close>

text \<open>
  What the proxy tells the VM of a context: that it is made, for a stream with the id of its plugin
  context, and what happens to it.
\<close>

datatype vm_event_kind =
    PluginCreated | PluginStarted goint | Ticked | QueueReady uint32 | PluginAnswered goint goint goint
  | HttpCreated uint32 | HttpPhase http_phase goint bool | HttpAnswered goint goint goint | HttpDone
  | TcpCreated uint32 | TcpConnected | TcpDownstream goint bool | TcpUpstream goint bool
  | TcpDownstreamClosed | TcpDone

text \<open>
  An event of a context comes with what the proxy itself does to the context's state before: headers
  arrive, a frame is added to a body.
\<close>

type_synonym 's vm_event = "uint32 \<times> ('s \<Rightarrow> 's) \<times> vm_event_kind"

text \<open>A panic that nobody recovers ends the program; a callback that does not return holds its only thread.\<close>

datatype vm_status = Running | Trapped string | Hung

datatype vm_reply = Started start_status | Acted action

record ('p, 'c, 't, 'w) vm =
  plugins :: "uint32 \<Rightarrow> 'p option"
  https :: "uint32 \<Rightarrow> (uint32 \<times> 'c) option"
  tcps :: "uint32 \<Rightarrow> 't option"
  world :: 'w
  replies :: "(uint32 \<times> vm_reply) list"
  status :: vm_status

definition reply :: "uint32 \<Rightarrow> ('a \<Rightarrow> vm_reply) \<Rightarrow> 'a outcome \<Rightarrow> ('p, 'c, 't, 'w) vm \<Rightarrow> ('p, 'c, 't, 'w) vm" where
  "reply i f r v = (case r of Return a \<Rightarrow> v\<lparr>replies := replies v @ [(i, f a)]\<rparr>
     | Panic m \<Rightarrow> v\<lparr>status := Trapped m\<rparr>)"

text \<open>
  An event for a context that is not there does not occur; it changes nothing, like a second
  creation of a context.
\<close>

fun on_plugin :: "('p, 'c, 't, 'w) wasm_program \<Rightarrow> uint32 \<Rightarrow> vm_event_kind \<Rightarrow> 'p
    \<Rightarrow> ('p, 'c, 't, 'w) vm \<Rightarrow> ('p, 'c, 't, 'w) vm" where
  "on_plugin P i (PluginStarted n) p v =
     (case OnPluginStart P p n (world v) of (r, p, w) \<Rightarrow>
        reply i Started r (v\<lparr>plugins := (plugins v)(i \<mapsto> p), world := w\<rparr>))"
| "on_plugin P i Ticked p v =
     (case OnTick P p (world v) of (p, w) \<Rightarrow> v\<lparr>plugins := (plugins v)(i \<mapsto> p), world := w\<rparr>)"
| "on_plugin P i (QueueReady q) p v = v\<lparr>world := OnQueueReady P p q (world v)\<rparr>"
| "on_plugin P i (PluginAnswered a b c) p v =
     (case PluginCallback P p a b c (world v) of (r, p, w) \<Rightarrow>
        (let v = v\<lparr>plugins := (plugins v)(i \<mapsto> p), world := w\<rparr>
         in case r of Return _ \<Rightarrow> v | Panic m \<Rightarrow> v\<lparr>status := Trapped m\<rparr>))"
| "on_plugin P i _ p v = v"

fun on_http :: "('p, 'c, 't, 'w) wasm_program \<Rightarrow> uint32 \<Rightarrow> vm_event_kind \<Rightarrow> uint32 \<Rightarrow> 'p \<Rightarrow> 'c
    \<Rightarrow> ('p, 'c, 't, 'w) vm \<Rightarrow> ('p, 'c, 't, 'w) vm" where
  "on_http P i (HttpPhase ph n e) j p c v =
     (case OnHttp P ph p c n e (world v) of
        None \<Rightarrow> v\<lparr>status := Hung\<rparr>
      | Some (r, p, c, w) \<Rightarrow>
          reply i Acted r (v\<lparr>plugins := (plugins v)(j \<mapsto> p), https := (https v)(i \<mapsto> (j, c)), world := w\<rparr>))"
| "on_http P i (HttpAnswered n b t) j p c v =
     (case HttpCallback P c n b t (world v) of (c, w) \<Rightarrow> v\<lparr>https := (https v)(i \<mapsto> (j, c)), world := w\<rparr>)"
| "on_http P i HttpDone j p c v = v\<lparr>https := (https v)(i := None), world := OnHttpStreamDone P c (world v)\<rparr>"
| "on_http P i _ j p c v = v"

fun on_tcp :: "('p, 'c, 't, 'w) wasm_program \<Rightarrow> uint32 \<Rightarrow> vm_event_kind \<Rightarrow> 't
    \<Rightarrow> ('p, 'c, 't, 'w) vm \<Rightarrow> ('p, 'c, 't, 'w) vm" where
  "on_tcp P i TcpConnected t v =
     (case OnNewConnection P t (world v) of (a, w) \<Rightarrow> reply i Acted (Return a) (v\<lparr>world := w\<rparr>))"
| "on_tcp P i (TcpDownstream n e) t v =
     (case OnDownstreamData P t n e (world v) of (a, w) \<Rightarrow> reply i Acted (Return a) (v\<lparr>world := w\<rparr>))"
| "on_tcp P i (TcpUpstream n e) t v =
     (case OnUpstreamData P t n e (world v) of (a, w) \<Rightarrow> reply i Acted (Return a) (v\<lparr>world := w\<rparr>))"
| "on_tcp P i TcpDownstreamClosed t v = v\<lparr>world := OnDownstreamClose P t (world v)\<rparr>"
| "on_tcp P i TcpDone t v = v\<lparr>tcps := (tcps v)(i := None), world := OnStreamDone P t (world v)\<rparr>"
| "on_tcp P i _ t v = v"

definition fresh :: "('p, 'c, 't, 'w) vm \<Rightarrow> uint32 \<Rightarrow> bool" where
  "fresh v i \<longleftrightarrow> plugins v i = None \<and> https v i = None \<and> tcps v i = None"

fun on_event :: "('p, 'c, 't, 'w) wasm_program \<Rightarrow> uint32 \<Rightarrow> vm_event_kind
    \<Rightarrow> ('p, 'c, 't, 'w) vm \<Rightarrow> ('p, 'c, 't, 'w) vm" where
  "on_event P i PluginCreated v =
     (if \<not> fresh v i then v
      else case NewPluginContext P i (world v) of (p, w) \<Rightarrow> v\<lparr>plugins := (plugins v)(i \<mapsto> p), world := w\<rparr>)"
| "on_event P i (HttpCreated j) v =
     (case plugins v j of None \<Rightarrow> v
      | Some p \<Rightarrow> if \<not> fresh v i then v
          else case NewHttpContext P p i (world v) of (c, w) \<Rightarrow>
            v\<lparr>https := (https v)(i := map_option (Pair j) c), world := w\<rparr>)"
| "on_event P i (TcpCreated j) v =
     (case plugins v j of None \<Rightarrow> v
      | Some p \<Rightarrow> if \<not> fresh v i then v
          else case NewTcpContext P p i (world v) of (t, w) \<Rightarrow> v\<lparr>tcps := (tcps v)(i := t), world := w\<rparr>)"
| "on_event P i k v =
     (case plugins v i of Some p \<Rightarrow> on_plugin P i k p v
      | None \<Rightarrow> (case https v i of
          Some (j, c) \<Rightarrow> (case plugins v j of Some p \<Rightarrow> on_http P i k j p c v | None \<Rightarrow> v)
        | None \<Rightarrow> (case tcps v i of Some t \<Rightarrow> on_tcp P i k t v | None \<Rightarrow> v)))"

text \<open>\<open>enter i d\<close> makes \<open>i\<close> the current context and has the proxy do \<open>d\<close> to its state.\<close>

definition vm_step :: "('p, 'c, 't, 'w) wasm_program \<Rightarrow> (uint32 \<Rightarrow> ('s \<Rightarrow> 's) \<Rightarrow> 'w \<Rightarrow> 'w)
    \<Rightarrow> 's vm_event \<Rightarrow> ('p, 'c, 't, 'w) vm \<Rightarrow> ('p, 'c, 't, 'w) vm" where
  "vm_step P enter = (\<lambda>(i, d, k) v.
     if status v = Running then on_event P i k (v\<lparr>world := enter i d (world v)\<rparr>) else v)"

definition vm_run :: "('p, 'c, 't, 'w) wasm_program \<Rightarrow> (uint32 \<Rightarrow> ('s \<Rightarrow> 's) \<Rightarrow> 'w \<Rightarrow> 'w)
    \<Rightarrow> 's vm_event list \<Rightarrow> ('p, 'c, 't, 'w) vm \<Rightarrow> ('p, 'c, 't, 'w) vm" where
  "vm_run P enter es v = foldl (\<lambda>v e. vm_step P enter e v) v es"

text \<open>The VM is created, \<open>main\<close> has run, and the VM context is started.\<close>

definition vm_boot :: "('p, 'c, 't, 'w) wasm_program \<Rightarrow> goint \<Rightarrow> 'w \<Rightarrow> ('p, 'c, 't, 'w) vm" where
  "vm_boot P n w = (case OnVMStart P n w of (s, w) \<Rightarrow>
     \<lparr>plugins = (\<lambda>_. None), https = (\<lambda>_. None), tcps = (\<lambda>_. None), world = w, replies = [(0, Started s)],
      status = Running\<rparr>)"

lemma vm_run_simps [simp]:
  "vm_run P enter [] v = v"
  "vm_run P enter (e # es) v = vm_run P enter es (vm_step P enter e v)"
  "vm_run P enter (es @ fs) v = vm_run P enter fs (vm_run P enter es v)"
  by (simp_all add: vm_run_def)

lemma vm_step_stopped [simp]: "status v \<noteq> Running \<Longrightarrow> vm_step P enter e v = v"
  by (cases e) (simp add: vm_step_def)

lemma vm_run_stopped: "status v \<noteq> Running \<Longrightarrow> vm_run P enter es v = v"
  by (induction es) auto

section \<open>A host of many streams\<close>

text \<open>The stream whose callback runs, and the host's state of each stream.\<close>

type_synonym 's streams = "uint32 \<times> (uint32 \<Rightarrow> 's)"

text \<open>The state in which one stream has the state s and the others are as they were.\<close>

definition at_stream :: "uint32 \<Rightarrow> (uint32 \<Rightarrow> 's) \<Rightarrow> 's \<Rightarrow> 's streams" where
  "at_stream i m s = (i, m(i := s))"

text \<open>All streams in one VM, and one stream with a VM of its own.\<close>

definition enter_stream :: "uint32 \<Rightarrow> ('s \<Rightarrow> 's) \<Rightarrow> 's streams \<Rightarrow> 's streams" where
  "enter_stream i d h = at_stream i (snd h) (d (snd h i))"

definition enter_alone :: "uint32 \<Rightarrow> ('s \<Rightarrow> 's) \<Rightarrow> 's \<Rightarrow> 's" where
  "enter_alone i d = d"

definition of_stream :: "uint32 \<Rightarrow> (uint32 \<times> 'e) list \<Rightarrow> (uint32 \<times> 'e) list" where
  "of_stream i = filter (\<lambda>e. fst e = i)"

lemma of_stream_simps [simp]:
  "of_stream i [] = []"
  "of_stream i (es @ fs) = of_stream i es @ of_stream i fs"
  "of_stream i (e # es) = (if fst e = i then e # of_stream i es else of_stream i es)"
  by (simp_all add: of_stream_def)

lemma at_stream_sel [simp]: "snd (at_stream i m s) j = (if j = i then s else m j)"
  by (simp add: at_stream_def)

definition alone :: "uint32 \<Rightarrow> ('p, 'c, 't, 's streams) vm \<Rightarrow> ('p, 'c, 't, 's) vm" where
  "alone i v = \<lparr>plugins = plugins v, https = (\<lambda>j. if j = i then https v i else None), tcps = tcps v,
     world = snd (world v) i, replies = of_stream i (replies v), status = status v\<rparr>"

text \<open>The events of HTTP streams; the others belong to the plugin contexts and to TCP.\<close>

fun http_event :: "'s vm_event \<Rightarrow> bool" where
  "http_event (i, d, HttpCreated j) = True"
| "http_event (i, d, HttpPhase ph n e) = True"
| "http_event (i, d, HttpAnswered n b t) = True"
| "http_event (i, d, HttpDone) = True"
| "http_event _ = False"

text \<open>A callback over many streams, seen from its effect on one: it keeps its plugin context.\<close>

definition local_call :: "'p \<Rightarrow> ('s \<Rightarrow> 'w) \<Rightarrow> ('a \<times> 'p \<times> 'c \<times> 's) option \<Rightarrow> ('a \<times> 'p \<times> 'c \<times> 'w) option \<Rightarrow> bool" where
  "local_call p f x y \<longleftrightarrow> y = map_option (\<lambda>(r, p, c, s). (r, p, c, f s)) x
     \<and> (case x of None \<Rightarrow> True | Some (r, p', c, s) \<Rightarrow> p' = p)"

definition lift2 :: "('s \<Rightarrow> 't) \<Rightarrow> 'a \<times> 's \<Rightarrow> 'a \<times> 't" where
  "lift2 f = (\<lambda>(a, s). (a, f s))"

definition lift3 :: "('s \<Rightarrow> 't) \<Rightarrow> 'a \<times> 'c \<times> 's \<Rightarrow> 'a \<times> 'c \<times> 't" where
  "lift3 f = (\<lambda>(a, c, s). (a, c, f s))"

lemma lift_simps [simp]:
  "lift2 f (a, s) = (a, f s)"
  "lift3 f (a, c, s) = (a, c, f s)"
  by (simp_all add: lift2_def lift3_def)

lemma local_call_shapes [simp]:
  "local_call p f (keeps p c x) (keeps p c (lift2 f x))"
  "local_call p f (panics p c y) (panics p c (lift2 f y))"
  "local_call p f (changes p C z) (changes p C (lift3 f z))"
  by (simp_all add: local_call_def callback_shapes lift2_def lift3_def split: prod.split)

text \<open>
  The contract: \<open>Q\<close> is the program over the host of many streams, \<open>P\<close> over the host of one; a
  callback of \<open>Q\<close> does to the current stream what \<open>P\<close> does, nothing to the other streams, and
  nothing to its plugin context.
\<close>

locale stream_program =
  fixes P :: "('p, 'c, 't, 's) wasm_program" and Q :: "('p, 'c, 't, 's streams) wasm_program"
  assumes new_local: "NewHttpContext Q p i (at_stream j m s) = lift2 (at_stream j m) (NewHttpContext P p i s)"
    and call_local: "local_call p (at_stream j m) (OnHttp P ph p c n e s) (OnHttp Q ph p c n e (at_stream j m s))"
    and answer_local: "HttpCallback Q c n b t (at_stream j m s) = lift2 (at_stream j m) (HttpCallback P c n b t s)"
    and done_local: "OnHttpStreamDone Q c (at_stream j m s) = at_stream j m (OnHttpStreamDone P c s)"
begin

lemma http_local:
  "OnHttp Q ph p c n e (at_stream j m s) = map_option (\<lambda>(r, p, c, s). (r, p, c, at_stream j m s)) (OnHttp P ph p c n e s)"
  using call_local [of p j m ph c n e s] by (simp add: local_call_def)

lemma http_keeps: "OnHttp P ph p c n e s = Some (r, p', c', s') \<Longrightarrow> p' = p"
  using call_local [of p j m ph c n e s] by (simp add: local_call_def)

lemma step_alone:
  assumes "http_event (i, d, k)" and "status v = Running"
  shows "alone i (vm_step Q enter_stream (i, d, k) v) = vm_step P enter_alone (i, d, k) (alone i v)"
      (is "?same")
    and "j \<noteq> i \<Longrightarrow> alone j (vm_step Q enter_stream (i, d, k) v)
      = (alone j v)\<lparr>status := status (vm_step Q enter_stream (i, d, k) v)\<rparr>" (is "_ \<Longrightarrow> ?other")
proof -
  let ?s = "d (snd (world v) i)"
  let ?m = "snd (world v)"
  note simps = vm_step_def alone_def fresh_def enter_stream_def enter_alone_def assms(2) reply_def fun_eq_iff fun_upd_idem
  have "?same \<and> (j \<noteq> i \<longrightarrow> ?other)"
  proof (cases "fresh v i \<or> plugins v i \<noteq> None")
    case True
    then show ?thesis
    proof (cases k)
      case (HttpCreated l)
      obtain c s where n: "\<And>p. plugins v l = Some p \<Longrightarrow> NewHttpContext P p i ?s = (c, s)"
        by (cases "plugins v l") (auto, metis prod.exhaust)
      then show ?thesis using True HttpCreated by (cases "plugins v l") (auto simp: simps new_local)
    qed (use assms(1) True in \<open>auto simp: simps\<close>)
  next
    case False
    show ?thesis
    proof (cases "https v i")
      case None
      then show ?thesis using False assms(1) by (cases k) (auto simp: simps split: option.split)
    next
      case (Some lc)
      obtain l c where lc: "lc = (l, c)" by fastforce
      show ?thesis
      proof (cases "plugins v l")
        case None
        then show ?thesis using False assms(1) Some lc by (cases k) (auto simp: simps split: option.split)
      next
        case p: (Some p)
        show ?thesis
        proof (cases k)
          case (HttpPhase ph n e)
          show ?thesis
          proof (cases "OnHttp P ph p c n e ?s")
            case None
            then show ?thesis using False Some lc p HttpPhase by (auto simp: simps http_local)
          next
            case (Some a)
            obtain r c' s where a: "OnHttp P ph p c n e ?s = Some (r, p, c', s)"
              using Some http_keeps by (cases a) blast
            then show ?thesis using False \<open>https v i = Some lc\<close> lc p HttpPhase
              by (cases r) (auto simp: simps http_local)
          qed
        next
          case (HttpAnswered n b t)
          then show ?thesis using False Some lc p
            by (cases "HttpCallback P c n b t ?s") (auto simp: simps answer_local)
        qed (use False assms(1) Some lc p in \<open>auto simp: simps done_local split: option.split\<close>)
      qed
    qed
  qed
  then show ?same and "j \<noteq> i \<Longrightarrow> ?other" by blast+
qed

lemma stopped_alone: "status v \<noteq> Running \<Longrightarrow> status (alone i v) \<noteq> Running"
  by (simp add: alone_def)

lemma isolated:
  assumes "list_all http_event es" and "status v = Running"
  shows "(status (vm_run Q enter_stream es v) = Running
      \<longleftrightarrow> (\<forall>i. status (vm_run P enter_alone (of_stream i es) (alone i v)) = Running))
    \<and> (status (vm_run Q enter_stream es v) = Running \<longrightarrow>
        (\<forall>i. alone i (vm_run Q enter_stream es v) = vm_run P enter_alone (of_stream i es) (alone i v)))"
  using assms
proof (induction es arbitrary: v)
  case Nil
  then show ?case by (simp add: alone_def)
next
  case (Cons e es)
  obtain i d k where e: "e = (i, d, k)" by (cases e)
  let ?v = "vm_step Q enter_stream e v"
  have i: "alone i ?v = vm_step P enter_alone e (alone i v)"
    using step_alone(1) [of i d k v] Cons.prems by (simp add: e)
  have j: "alone j ?v = (alone j v)\<lparr>status := status ?v\<rparr>" if "j \<noteq> i" for j
    using step_alone(2) [of i d k v j] Cons.prems that by (simp add: e)
  show ?case
  proof (cases "status ?v = Running")
    case True
    have "alone j ?v = alone j v" if "j \<noteq> i" for j
      using j [OF that] True Cons.prems by (simp add: alone_def)
    then have "vm_run P enter_alone (of_stream j es) (alone j ?v) = vm_run P enter_alone (of_stream j (e # es)) (alone j v)" for j
      using i by (cases "j = i") (simp_all add: e)
    then show ?thesis using Cons.IH [OF _ True] Cons.prems(1) by simp
  next
    case False
    then have "status (vm_step P enter_alone e (alone i v)) \<noteq> Running"
      using i stopped_alone by metis
    then have "status (vm_run P enter_alone (of_stream i (e # es)) (alone i v)) \<noteq> Running"
      by (simp add: e vm_run_stopped)
    moreover have "status (vm_run Q enter_stream (e # es) v) \<noteq> Running" using False by (simp add: vm_run_stopped)
    ultimately show ?thesis by blast
  qed
qed

text \<open>What a run with one stream says of that stream in a run with all of them.\<close>

lemma among:
  assumes "list_all http_event es" and "status v = Running" and "status (vm_run Q enter_stream es v) = Running"
  shows "https (vm_run Q enter_stream es v) i = https (vm_run P enter_alone (of_stream i es) (alone i v)) i"
    and "snd (world (vm_run Q enter_stream es v)) i = world (vm_run P enter_alone (of_stream i es) (alone i v))"
    and "of_stream i (replies (vm_run Q enter_stream es v)) = replies (vm_run P enter_alone (of_stream i es) (alone i v))"
proof -
  have "alone i (vm_run Q enter_stream es v) = vm_run P enter_alone (of_stream i es) (alone i v)"
    using isolated [OF assms(1,2)] assms(3) by simp
  from this [symmetric] show "https (vm_run Q enter_stream es v) i = https (vm_run P enter_alone (of_stream i es) (alone i v)) i"
    and "snd (world (vm_run Q enter_stream es v)) i = world (vm_run P enter_alone (of_stream i es) (alone i v))"
    and "of_stream i (replies (vm_run Q enter_stream es v)) = replies (vm_run P enter_alone (of_stream i es) (alone i v))"
    by (simp_all add: alone_def)
qed

end

end
