(* ===== verification/Http_Body.thy ===== *)
theory Http_Body
  imports Reference_Host
begin

text \<open>
  The plugin \<^verbatim>\<open>istio/envoy/wasm-go/http_body/main.go\<close>: a context that edits the request or the
  response body (\<open>setBodyContext\<close>) and one that echoes the request body (\<open>echoBodyContext\<close>), chosen
  by the plugin configuration. Both wait for the whole body; they interpret the contract
  \<open>body_buffering\<close>, and their properties follow from it and from the laws of \<open>body_channel\<close>.
\<close>

definition bufferOperationAppend :: string where
  "bufferOperationAppend = ''append''"

definition bufferOperationPrepend :: string where
  "bufferOperationPrepend = ''prepend''"

definition bufferOperationReplace :: string where
  "bufferOperationReplace = ''replace''"

lemmas buffer_operations =
  bufferOperationAppend_def bufferOperationPrepend_def bufferOperationReplace_def

section \<open>The plugin context\<close>

record body_pluginContext =
  shouldEchoBody :: bool

record setBodyContext =
  modifyResponse :: bool
  totalRequestBodySize :: goint
  totalResponseBodySize :: goint
  bufferOperation :: string

record echoBodyContext =
  echo_totalRequestBodySize :: goint

datatype body_HttpContext = EchoBody echoBodyContext | SetBody setBodyContext

definition body_NewPluginContext :: "uint32 \<Rightarrow> body_pluginContext" where
  "body_NewPluginContext contextID = \<lparr>shouldEchoBody = False\<rparr>"

definition body_OnPluginStart :: "'h host \<Rightarrow> body_pluginContext \<Rightarrow> goint \<Rightarrow> 'h
    \<Rightarrow> start_status \<times> body_pluginContext \<times> 'h" where
  "body_OnPluginStart H ctx pluginConfigurationSize h =
     (let (data, err) = GetPluginConfiguration H h;
          h = (case err of
                 Some e \<Rightarrow> Log H LogCritical (''error reading plugin configuration: '' @ ErrorString H e) h
               | None \<Rightarrow> h)
      in (StatusOK, ctx\<lparr>shouldEchoBody := (go_string data = ''echo'')\<rparr>, h))"

definition body_NewHttpContext :: "body_pluginContext \<Rightarrow> uint32 \<Rightarrow> body_HttpContext" where
  "body_NewHttpContext ctx contextID =
     (if shouldEchoBody ctx then EchoBody \<lparr>echo_totalRequestBodySize = 0\<rparr>
      else SetBody \<lparr>modifyResponse = False, totalRequestBodySize = 0, totalResponseBodySize = 0,
                     bufferOperation = ''''\<rparr>)"

section \<open>setBodyContext\<close>

definition setBody_OnHttpRequestHeaders :: "'h host \<Rightarrow> setBodyContext \<Rightarrow> goint \<Rightarrow> bool \<Rightarrow> 'h
    \<Rightarrow> action outcome \<times> setBodyContext \<times> 'h" where
  "setBody_OnHttpRequestHeaders H ctx numHeaders endOfStream h =
     (let (mode, err) = GetHttpRequestHeader H ''buffer-replace-at'' h;
          ctx = (if mode = ''response'' then ctx\<lparr>modifyResponse := True\<rparr> else ctx)
      in if snd (GetHttpRequestHeader H ''content-length'' h) \<noteq> None
         then (case SendHttpResponse H 400 [] ''content must be provided'' (-1) h of
                 (Some e, h) \<Rightarrow> (Panic (ErrorString H e), ctx, h)
               | (None, h) \<Rightarrow> (Return ActionPause, ctx, h))
         else (case RemoveHttpRequestHeader H ''content-length'' h of
                 (Some e, h) \<Rightarrow> (Panic (ErrorString H e), ctx, h)
               | (None, h) \<Rightarrow>
                   (let (op, err) = GetHttpRequestHeader H ''buffer-operation'' h;
                        op = (if err \<noteq> None \<or> (op \<noteq> bufferOperationAppend
                                \<and> op \<noteq> bufferOperationPrepend \<and> op \<noteq> bufferOperationReplace)
                              then bufferOperationReplace else op)
                    in (Return ActionContinue, ctx\<lparr>bufferOperation := op\<rparr>, h))))"

definition setBody_OnHttpRequestBody :: "'h host \<Rightarrow> setBodyContext \<Rightarrow> goint \<Rightarrow> bool \<Rightarrow> 'h
    \<Rightarrow> action outcome \<times> setBodyContext \<times> 'h" where
  "setBody_OnHttpRequestBody H ctx bodySize endOfStream h =
     (if modifyResponse ctx then (Return ActionContinue, ctx, h)
      else
        (let ctx = ctx\<lparr>totalRequestBodySize := totalRequestBodySize ctx + bodySize\<rparr>
         in if \<not> endOfStream then (Return ActionPause, ctx, h)
            else (case GetHttpRequestBody H 0 (totalRequestBodySize ctx) h of
              (_, Some e) \<Rightarrow>
                (Return ActionContinue, ctx, Log H LogError (''failed to get request body: '' @ ErrorString H e) h)
            | (originalBody, None) \<Rightarrow>
                (let h = Log H LogInfo (''original request body: '' @ originalBody) h;
                     (err, h) =
                       (if bufferOperation ctx = bufferOperationAppend
                        then AppendHttpRequestBody H ''[this is appended body]'' h
                        else if bufferOperation ctx = bufferOperationPrepend
                        then PrependHttpRequestBody H ''[this is prepended body]'' h
                        else if bufferOperation ctx = bufferOperationReplace
                        then ReplaceHttpRequestBody H ''[this is replaced body]'' h
                        else (None, h))
                 in case err of
                      Some e \<Rightarrow> (Return ActionContinue, ctx, Log H LogError
                        (''failed to '' @ bufferOperation ctx @ '' request body: '' @ ErrorString H e) h)
                    | None \<Rightarrow> (Return ActionContinue, ctx, h)))))"

definition setBody_OnHttpResponseHeaders :: "'h host \<Rightarrow> setBodyContext \<Rightarrow> goint \<Rightarrow> bool \<Rightarrow> 'h
    \<Rightarrow> action outcome \<times> setBodyContext \<times> 'h" where
  "setBody_OnHttpResponseHeaders H ctx numHeaders endOfStream h =
     (if \<not> modifyResponse ctx then (Return ActionContinue, ctx, h)
      else (case RemoveHttpResponseHeader H ''content-length'' h of
              (Some e, h) \<Rightarrow> (Panic (ErrorString H e), ctx, h)
            | (None, h) \<Rightarrow> (Return ActionContinue, ctx, h)))"

definition setBody_OnHttpResponseBody :: "'h host \<Rightarrow> setBodyContext \<Rightarrow> goint \<Rightarrow> bool \<Rightarrow> 'h
    \<Rightarrow> action outcome \<times> setBodyContext \<times> 'h" where
  "setBody_OnHttpResponseBody H ctx bodySize endOfStream h =
     (if \<not> modifyResponse ctx then (Return ActionContinue, ctx, h)
      else
        (let ctx = ctx\<lparr>totalResponseBodySize := totalResponseBodySize ctx + bodySize\<rparr>
         in if \<not> endOfStream then (Return ActionPause, ctx, h)
            else (case GetHttpResponseBody H 0 (totalResponseBodySize ctx) h of
              (_, Some e) \<Rightarrow>
                (Return ActionContinue, ctx, Log H LogError (''failed to get response body: '' @ ErrorString H e) h)
            | (originalBody, None) \<Rightarrow>
                (let h = Log H LogInfo (''original response body: '' @ originalBody) h;
                     (err, h) =
                       (if bufferOperation ctx = bufferOperationAppend
                        then AppendHttpResponseBody H ''[this is appended body]'' h
                        else if bufferOperation ctx = bufferOperationPrepend
                        then PrependHttpResponseBody H ''[this is prepended body]'' h
                        else if bufferOperation ctx = bufferOperationReplace
                        then ReplaceHttpResponseBody H ''[this is replaced body]'' h
                        else (None, h))
                 in case err of
                      Some e \<Rightarrow> (Return ActionContinue, ctx, Log H LogError
                        (''failed to '' @ bufferOperation ctx @ '' response body: '' @ ErrorString H e) h)
                    | None \<Rightarrow> (Return ActionContinue, ctx, h)))))"

section \<open>echoBodyContext\<close>

definition echoBody_OnHttpRequestBody :: "'h host \<Rightarrow> echoBodyContext \<Rightarrow> goint \<Rightarrow> bool \<Rightarrow> 'h
    \<Rightarrow> action outcome \<times> echoBodyContext \<times> 'h" where
  "echoBody_OnHttpRequestBody H ctx bodySize endOfStream h =
     (let ctx = ctx\<lparr>echo_totalRequestBodySize := echo_totalRequestBodySize ctx + bodySize\<rparr>
      in if \<not> endOfStream then (Return ActionPause, ctx, h)
         else (let (body, _) = GetHttpRequestBody H 0 (echo_totalRequestBodySize ctx) h
               in case SendHttpResponse H 200 [] body (-1) h of
                    (Some e, h) \<Rightarrow> (Panic (ErrorString H e), ctx, h)
                  | (None, h) \<Rightarrow> (Return ActionPause, ctx, h)))"

section \<open>Both wait for the whole body\<close>

interpretation request: body_buffering "setBody_OnHttpRequestBody H" "\<lambda>c. \<not> modifyResponse c"
    totalRequestBodySize "\<lambda>n c. c\<lparr>totalRequestBodySize := totalRequestBodySize c + n\<rparr>" for H
  by unfold_locales (simp_all add: setBody_OnHttpRequestBody_def)

interpretation response: body_buffering "setBody_OnHttpResponseBody H" modifyResponse
    totalResponseBodySize "\<lambda>n c. c\<lparr>totalResponseBodySize := totalResponseBodySize c + n\<rparr>" for H
  by unfold_locales (simp_all add: setBody_OnHttpResponseBody_def)

interpretation echo: body_buffering "echoBody_OnHttpRequestBody H" "\<lambda>_. True"
    echo_totalRequestBodySize "\<lambda>n c. c\<lparr>echo_totalRequestBodySize := echo_totalRequestBodySize c + n\<rparr>" for H
  by unfold_locales (simp_all add: echoBody_OnHttpRequestBody_def)

text \<open>What each operation makes of a body.\<close>

definition edited :: "string \<Rightarrow> string \<Rightarrow> string" where
  "edited op b =
     (if op = bufferOperationAppend then b @ ''[this is appended body]''
      else if op = bufferOperationPrepend then ''[this is prepended body]'' @ b
      else if op = bufferOperationReplace then ''[this is replaced body]'' else b)"

context body_channel
begin

lemma edit_body:
  "\<exists>h'. (if op = bufferOperationAppend then append ''[this is appended body]'' h
         else if op = bufferOperationPrepend then prepend ''[this is prepended body]'' h
         else if op = bufferOperationReplace then replace ''[this is replaced body]'' h
         else (None, h)) = (None, h')
      \<and> body h' = edited op (body h)"
  by (auto simp: edited_def append_ok prepend_ok replace_ok prod_eq_iff)

end

text \<open>The end of the stream, for the request and for the response.\<close>

lemma request_end:
  assumes "body_channel H (GetHttpRequestBody H) (AppendHttpRequestBody H) (PrependHttpRequestBody H)
      (ReplaceHttpRequestBody H) body deliver"
    and "\<not> modifyResponse ctx"
    and "GetHttpRequestBody H 0 (totalRequestBodySize ctx + n) h = (b, None)" and "body h = b"
  shows "\<exists>h'. setBody_OnHttpRequestBody H ctx n True h
      = (Return ActionContinue, ctx\<lparr>totalRequestBodySize := totalRequestBodySize ctx + n\<rparr>, h')
    \<and> body h' = edited (bufferOperation ctx) b"
proof -
  let ?h = "Log H LogInfo (''original request body: '' @ b) h"
  obtain h' where edit: "(if bufferOperation ctx = bufferOperationAppend then AppendHttpRequestBody H ''[this is appended body]'' ?h
        else if bufferOperation ctx = bufferOperationPrepend then PrependHttpRequestBody H ''[this is prepended body]'' ?h
        else if bufferOperation ctx = bufferOperationReplace then ReplaceHttpRequestBody H ''[this is replaced body]'' ?h
        else (None, ?h)) = (None, h')" and "body h' = edited (bufferOperation ctx) (body ?h)"
    using body_channel.edit_body [OF assms(1)] by blast
  then have "body h' = edited (bufferOperation ctx) b"
    using assms(4) by (simp add: body_channel.body_log [OF assms(1)])
  then show ?thesis
    using assms(2,3) edit by (simp add: setBody_OnHttpRequestBody_def Let_def split del: if_split cong: if_cong)
qed

lemma response_end:
  assumes "body_channel H (GetHttpResponseBody H) (AppendHttpResponseBody H) (PrependHttpResponseBody H)
      (ReplaceHttpResponseBody H) body deliver"
    and "modifyResponse ctx"
    and "GetHttpResponseBody H 0 (totalResponseBodySize ctx + n) h = (b, None)" and "body h = b"
  shows "\<exists>h'. setBody_OnHttpResponseBody H ctx n True h
      = (Return ActionContinue, ctx\<lparr>totalResponseBodySize := totalResponseBodySize ctx + n\<rparr>, h')
    \<and> body h' = edited (bufferOperation ctx) b"
proof -
  let ?h = "Log H LogInfo (''original response body: '' @ b) h"
  obtain h' where edit: "(if bufferOperation ctx = bufferOperationAppend then AppendHttpResponseBody H ''[this is appended body]'' ?h
        else if bufferOperation ctx = bufferOperationPrepend then PrependHttpResponseBody H ''[this is prepended body]'' ?h
        else if bufferOperation ctx = bufferOperationReplace then ReplaceHttpResponseBody H ''[this is replaced body]'' ?h
        else (None, ?h)) = (None, h')" and "body h' = edited (bufferOperation ctx) (body ?h)"
    using body_channel.edit_body [OF assms(1)] by blast
  then have "body h' = edited (bufferOperation ctx) b"
    using assms(4) by (simp add: body_channel.body_log [OF assms(1)])
  then show ?thesis
    using assms(2,3) edit by (simp add: setBody_OnHttpResponseBody_def Let_def split del: if_split cong: if_cong)
qed

lemma frame_size_concat:
  "word_of_nat (length (concat ds)) + frame_size d = word_of_nat (length (concat (ds @ [d])))"
  by (simp add: frame_size_def)

section \<open>Properties\<close>

definition fresh_setBody :: "bool \<Rightarrow> string \<Rightarrow> setBodyContext" where
  "fresh_setBody m op = \<lparr>modifyResponse = m, totalRequestBodySize = 0, totalResponseBodySize = 0,
     bufferOperation = op\<rparr>"

text \<open>A request body that \<open>setBodyContext\<close> edits is edited as the header phase chose, however
  the proxy cuts it into frames: the context pauses on every frame but the last, continues on the
  last, and the body in the host is then the whole original body with the text appended, with the
  text prepended, or replaced. The body has fewer than 2 GiB, the range of the 32-bit total.\<close>

theorem setBody_request_edited:
  assumes "body_channel H (GetHttpRequestBody H) (AppendHttpRequestBody H) (PrependHttpRequestBody H)
      (ReplaceHttpRequestBody H) body deliver"
    and "body h = []" and "concat (ds @ [d]) \<noteq> []" and "length (concat (ds @ [d])) < 2 ^ 31"
  shows "\<exists>ctx' h'. stream_body (setBody_OnHttpRequestBody H) deliver ds d (fresh_setBody False op) h
      = (replicate (length ds) (Return ActionPause) @ [Return ActionContinue], ctx', h')
    \<and> body h' = edited op (concat (ds @ [d]))"
proof -
  let ?c = "(fresh_setBody False op)\<lparr>totalRequestBodySize := word_of_nat (length (concat ds))\<rparr>"
  let ?h = "foldl (\<lambda>h d. deliver d h) h (ds @ [d])"
  have "body ?h = concat (ds @ [d])"
    using assms(2) by (simp only: body_channel.body_deliver_all [OF assms(1)] append_Nil)
  moreover have "GetHttpRequestBody H 0 (totalRequestBodySize ?c + frame_size d) ?h = (concat (ds @ [d]), None)"
    using body_channel.get_delivered [OF assms] frame_size_concat [of ds d] by simp
  ultimately obtain h' where "setBody_OnHttpRequestBody H ?c (frame_size d) True ?h
      = (Return ActionContinue, ?c\<lparr>totalRequestBodySize := totalRequestBodySize ?c + frame_size d\<rparr>, h')"
    and "body h' = edited op (concat (ds @ [d]))"
    using request_end [OF assms(1), of ?c "frame_size d" ?h "concat (ds @ [d])"]
    by (simp add: fresh_setBody_def del: foldl_append concat_append) blast
  then show ?thesis
    using request.stream_body_last [of "fresh_setBody False op" H deliver ds d h]
    by (simp add: fresh_setBody_def)
qed

theorem setBody_request_edited_witness:
  "\<exists>ctx' h'. stream_body (setBody_OnHttpRequestBody reference_host) em_deliver_request
       [''[original ''] ''body]'' (fresh_setBody False ''append'') emulator_init
      = (replicate (length [''[original '']) (Return ActionPause) @ [Return ActionContinue], ctx', h')
    \<and> em_request_body h' = edited ''append'' (concat ([''[original ''] @ [''body]'']))"
  by (rule setBody_request_edited [OF reference_request.body_channel_axioms])
     (simp_all add: emulator_init_def)

text \<open>The same for a response body, when the request asked for the response to be edited.\<close>

theorem setBody_response_edited:
  assumes "body_channel H (GetHttpResponseBody H) (AppendHttpResponseBody H) (PrependHttpResponseBody H)
      (ReplaceHttpResponseBody H) body deliver"
    and "body h = []" and "concat (ds @ [d]) \<noteq> []" and "length (concat (ds @ [d])) < 2 ^ 31"
  shows "\<exists>ctx' h'. stream_body (setBody_OnHttpResponseBody H) deliver ds d (fresh_setBody True op) h
      = (replicate (length ds) (Return ActionPause) @ [Return ActionContinue], ctx', h')
    \<and> body h' = edited op (concat (ds @ [d]))"
proof -
  let ?c = "(fresh_setBody True op)\<lparr>totalResponseBodySize := word_of_nat (length (concat ds))\<rparr>"
  let ?h = "foldl (\<lambda>h d. deliver d h) h (ds @ [d])"
  have "body ?h = concat (ds @ [d])"
    using assms(2) by (simp only: body_channel.body_deliver_all [OF assms(1)] append_Nil)
  moreover have "GetHttpResponseBody H 0 (totalResponseBodySize ?c + frame_size d) ?h = (concat (ds @ [d]), None)"
    using body_channel.get_delivered [OF assms] frame_size_concat [of ds d] by simp
  ultimately obtain h' where "setBody_OnHttpResponseBody H ?c (frame_size d) True ?h
      = (Return ActionContinue, ?c\<lparr>totalResponseBodySize := totalResponseBodySize ?c + frame_size d\<rparr>, h')"
    and "body h' = edited op (concat (ds @ [d]))"
    using response_end [OF assms(1), of ?c "frame_size d" ?h "concat (ds @ [d])"]
    by (simp add: fresh_setBody_def del: foldl_append concat_append) blast
  then show ?thesis
    using response.stream_body_last [of "fresh_setBody True op" H deliver ds d h]
    by (simp add: fresh_setBody_def)
qed

theorem setBody_response_edited_witness:
  "\<exists>ctx' h'. stream_body (setBody_OnHttpResponseBody reference_host) em_deliver_response
       [''[original ''] ''body]'' (fresh_setBody True ''prepend'') emulator_init
      = (replicate (length [''[original '']) (Return ActionPause) @ [Return ActionContinue], ctx', h')
    \<and> em_response_body h' = edited ''prepend'' (concat ([''[original ''] @ [''body]'']))"
  by (rule setBody_response_edited [OF reference_response.body_channel_axioms])
     (simp_all add: emulator_init_def)

text \<open>C38: The header phase of \<open>setBodyContext\<close>, on every host. It continues only on a request with a
  content-length, which it has removed, and then the operation is append, prepend or replace: the
  one the header names, or replace. It pauses exactly when there is no content-length and the 400
  response could be sent; a host call that fails is a panic. The response is edited from then on
  exactly when it was before or the header says so.\<close>

theorem setBody_headers_phase:
  "case setBody_OnHttpRequestHeaders H ctx n eos h of (r, ctx', h') \<Rightarrow>
     (modifyResponse ctx' \<longleftrightarrow> modifyResponse ctx \<or> fst (GetHttpRequestHeader H ''buffer-replace-at'' h) = ''response'')
     \<and> (case r of
          Return ActionContinue \<Rightarrow>
            snd (GetHttpRequestHeader H ''content-length'' h) = None
            \<and> RemoveHttpRequestHeader H ''content-length'' h = (None, h')
            \<and> bufferOperation ctx' =
                (case GetHttpRequestHeader H ''buffer-operation'' h' of
                   (op, None) \<Rightarrow> if op = ''append'' \<or> op = ''prepend'' then op else ''replace''
                 | (_, Some _) \<Rightarrow> ''replace'')
        | Return ActionPause \<Rightarrow>
            snd (GetHttpRequestHeader H ''content-length'' h) \<noteq> None
            \<and> SendHttpResponse H 400 [] ''content must be provided'' (-1) h = (None, h')
            \<and> bufferOperation ctx' = bufferOperation ctx
        | Panic msg \<Rightarrow> \<exists>e. msg = ErrorString H e
            \<and> (SendHttpResponse H 400 [] ''content must be provided'' (-1) h = (Some e, h')
               \<or> RemoveHttpRequestHeader H ''content-length'' h = (Some e, h')))"
proof (cases "snd (GetHttpRequestHeader H ''content-length'' h)")
  case None
  obtain e h1 where rm: "RemoveHttpRequestHeader H ''content-length'' h = (e, h1)" by fastforce
  obtain op e2 where op: "GetHttpRequestHeader H ''buffer-operation'' h1 = (op, e2)" by fastforce
  show ?thesis
    by (cases e; cases e2)
       (simp_all add: setBody_OnHttpRequestHeaders_def buffer_operations Let_def case_prod_beta None rm op,
        blast+)
next
  case (Some e)
  obtain e h1 where "SendHttpResponse H 400 [] ''content must be provided'' (-1) h = (e, h1)" by fastforce
  then show ?thesis
    by (cases e) (auto simp: setBody_OnHttpRequestHeaders_def Let_def case_prod_beta Some)
qed

text \<open>\<open>echoBodyContext\<close> answers with the request body: however the body is cut into frames, it
  pauses on each of them and on the last sends, as a local response with status 200, exactly the
  bytes that were delivered; it panics only if that response cannot be sent.\<close>

theorem echoBody_echoes:
  assumes "body_channel H (GetHttpRequestBody H) app pre rep body deliver"
    and "body h = []" and "concat (ds @ [d]) \<noteq> []" and "length (concat (ds @ [d])) < 2 ^ 31"
  shows "\<exists>ctx'. stream_body (echoBody_OnHttpRequestBody H) deliver ds d \<lparr>echo_totalRequestBodySize = 0\<rparr> h
      = (case SendHttpResponse H 200 [] (concat (ds @ [d])) (-1) (foldl (\<lambda>h d. deliver d h) h (ds @ [d])) of
           (None, h') \<Rightarrow> (replicate (length ds) (Return ActionPause) @ [Return ActionPause], ctx', h')
         | (Some e, h') \<Rightarrow> (replicate (length ds) (Return ActionPause) @ [Panic (ErrorString H e)], ctx', h'))"
  using echo.stream_body_last [where c = "\<lparr>echo_totalRequestBodySize = 0\<rparr>" and H = H and deliver = deliver and ds = ds and d = d and h = h]
    body_channel.get_delivered [OF assms] frame_size_concat [of ds d]
  by (auto simp: echoBody_OnHttpRequestBody_def split: prod.split option.split)

theorem echoBody_echoes_witness:
  "\<exists>ctx'. stream_body (echoBody_OnHttpRequestBody reference_host) em_deliver_request
        [''frame1...'', ''frame2...''] '''' \<lparr>echo_totalRequestBodySize = 0\<rparr> emulator_init
      = (case SendHttpResponse reference_host 200 [] (concat ([''frame1...'', ''frame2...''] @ [''''])) (-1)
            (foldl (\<lambda>h d. em_deliver_request d h) emulator_init ([''frame1...'', ''frame2...''] @ [''''])) of
           (None, h') \<Rightarrow> (replicate (length [''frame1...'', ''frame2...'']) (Return ActionPause) @ [Return ActionPause], ctx', h')
         | (Some e, h') \<Rightarrow> (replicate (length [''frame1...'', ''frame2...'']) (Return ActionPause)
                               @ [Panic (ErrorString reference_host e)], ctx', h'))"
  by (rule echoBody_echoes [OF reference_request.body_channel_axioms])
     (simp_all add: emulator_init_def)

end
