(* ===== verification/Json_Validation.thy ===== *)
theory Json_Validation
  imports Reference_Host
begin

text \<open>
  The plugin \<^verbatim>\<open>istio/envoy/wasm-go/json_validation/main.go\<close>: it lets a request pass only if it
  says that it is JSON, is JSON, and has the keys that the plugin configuration lists. JSON itself
  is parsed by the package gjson, which is not part of the repository: its functions are a record
  of parameters over a type \<open>'v\<close> of its results, without any law. The verb \<open>%q\<close>, which needs
  Unicode tables, is the parameter \<open>Quote\<close>; it occurs in messages only.
\<close>

record 'v gjson =
  ValidBytes :: "string \<Rightarrow> bool"
  ParseBytes :: "string \<Rightarrow> 'v"
  Get :: "'v \<Rightarrow> string \<Rightarrow> 'v"
  Array :: "'v \<Rightarrow> 'v list"
  Str :: "'v \<Rightarrow> string"
  Exists :: "'v \<Rightarrow> bool"
  String :: "'v \<Rightarrow> string"
  Quote :: "string \<Rightarrow> string"

record pluginConfiguration =
  requiredKeys :: "string list"

record json_pluginContext =
  configuration :: pluginConfiguration

record payloadValidationContext =
  json_totalRequestBodySize :: goint
  context_requiredKeys :: "string list"

definition json_NewPluginContext :: "uint32 \<Rightarrow> json_pluginContext" where
  "json_NewPluginContext contextID = \<lparr>configuration = \<lparr>requiredKeys = []\<rparr>\<rparr>"

definition parsePluginConfiguration :: "'v gjson \<Rightarrow> string \<Rightarrow> string + pluginConfiguration" where
  "parsePluginConfiguration G data =
     (if length data = 0 then Inr \<lparr>requiredKeys = []\<rparr>
      else if \<not> ValidBytes G data
      then Inl (''the plugin configuration is not a valid json: '' @ Quote G data)
      else (let jsonData = ParseBytes G data;
                keys = Array G (Get G jsonData ''requiredKeys'')
            in Inr (foldl (\<lambda>config key. config\<lparr>requiredKeys := requiredKeys config @ [Str G key]\<rparr>)
                      \<lparr>requiredKeys = []\<rparr> keys)))"

definition json_OnPluginStart :: "'h host \<Rightarrow> 'v gjson \<Rightarrow> json_pluginContext \<Rightarrow> goint \<Rightarrow> 'h
    \<Rightarrow> start_status \<times> json_pluginContext \<times> 'h" where
  "json_OnPluginStart H G ctx pluginConfigurationSize h =
     (case GetPluginConfiguration H h of (data, err) \<Rightarrow>
        if err \<noteq> None \<and> err \<noteq> Some ErrorStatusNotFound
        then (StatusFailed, ctx,
              Log H LogCritical (''error reading plugin configuration: '' @ ErrorString H (the err)) h)
        else (case parsePluginConfiguration G (go_string data) of
                Inl e \<Rightarrow> (StatusFailed, ctx, Log H LogCritical (''error parsing plugin configuration: '' @ e) h)
              | Inr config \<Rightarrow> (StatusOK, ctx\<lparr>configuration := config\<rparr>, h)))"

definition json_NewHttpContext :: "json_pluginContext \<Rightarrow> uint32 \<Rightarrow> payloadValidationContext" where
  "json_NewHttpContext ctx contextID =
     \<lparr>json_totalRequestBodySize = 0, context_requiredKeys = requiredKeys (configuration ctx)\<rparr>"

definition json_OnHttpRequestHeaders :: "'h host \<Rightarrow> payloadValidationContext \<Rightarrow> goint \<Rightarrow> bool \<Rightarrow> 'h
    \<Rightarrow> action outcome \<times> payloadValidationContext \<times> 'h" where
  "json_OnHttpRequestHeaders H ctx numHeaders endOfStream h =
     (case GetHttpRequestHeader H ''content-type'' h of (contentType, err) \<Rightarrow>
        if err \<noteq> None \<or> contentType \<noteq> ''application/json''
        then (case SendHttpResponse H 403 [] ''content-type must be provided'' (-1) h of
                (Some e, h) \<Rightarrow> (Panic (ErrorString H e), ctx, h)
              | (None, h) \<Rightarrow> (Return ActionPause, ctx, h))
        else (Return ActionContinue, ctx, h))"

fun missing_key_loop :: "'h host \<Rightarrow> 'v gjson \<Rightarrow> 'v \<Rightarrow> string list \<Rightarrow> 'h \<Rightarrow> bool \<times> 'h" where
  "missing_key_loop H G jsonData [] h = (True, h)"
| "missing_key_loop H G jsonData (key # keys) h =
     (if \<not> Exists G (Get G jsonData key)
      then (False, Log H LogError (''required key ('' @ key @ '') is missing: '' @ String G jsonData) h)
      else missing_key_loop H G jsonData keys h)"

definition validatePayload :: "'h host \<Rightarrow> 'v gjson \<Rightarrow> payloadValidationContext \<Rightarrow> string \<Rightarrow> 'h \<Rightarrow> bool \<times> 'h" where
  "validatePayload H G ctx body h =
     (if \<not> ValidBytes G body
      then (False, Log H LogError (''body is not a valid json: '' @ Quote G body) h)
      else missing_key_loop H G (ParseBytes G body) (context_requiredKeys ctx) h)"

definition json_OnHttpRequestBody :: "'h host \<Rightarrow> 'v gjson \<Rightarrow> payloadValidationContext \<Rightarrow> goint \<Rightarrow> bool \<Rightarrow> 'h
    \<Rightarrow> action outcome \<times> payloadValidationContext \<times> 'h" where
  "json_OnHttpRequestBody H G ctx bodySize endOfStream h =
     (let ctx = ctx\<lparr>json_totalRequestBodySize := json_totalRequestBodySize ctx + bodySize\<rparr>
      in if \<not> endOfStream then (Return ActionPause, ctx, h)
         else (case GetHttpRequestBody H 0 (json_totalRequestBodySize ctx) h of
                 (_, Some e) \<Rightarrow> (Return ActionContinue, ctx,
                    Log H LogError (''failed to get request body: '' @ ErrorString H e) h)
               | (body, None) \<Rightarrow>
                   (case validatePayload H G ctx body h of
                      (True, h) \<Rightarrow> (Return ActionContinue, ctx, h)
                    | (False, h) \<Rightarrow>
                        (case SendHttpResponse H 403 [] ''invalid payload'' (-1) h of
                           (Some e, h) \<Rightarrow> (Return ActionPause, ctx,
                              Log H LogError (''failed to send the 403 response: '' @ ErrorString H e) h)
                         | (None, h) \<Rightarrow> (Return ActionPause, ctx, h)))))"

interpretation validation: body_buffering "json_OnHttpRequestBody H G" "\<lambda>_. True"
    json_totalRequestBodySize
    "\<lambda>n c. c\<lparr>json_totalRequestBodySize := json_totalRequestBodySize c + n\<rparr>" for H G
  by unfold_locales (simp_all add: json_OnHttpRequestBody_def)

section \<open>What is validated\<close>

text \<open>The payloads the plugin means to accept, given the configuration's keys.\<close>

definition acceptable :: "'v gjson \<Rightarrow> string list \<Rightarrow> string \<Rightarrow> bool" where
  "acceptable G keys body \<longleftrightarrow>
     ValidBytes G body \<and> list_all (\<lambda>key. Exists G (Get G (ParseBytes G body) key)) keys"

lemma missing_key_loop_result:
  "fst (missing_key_loop H G v keys h) = list_all (\<lambda>key. Exists G (Get G v key)) keys"
  by (induction keys) auto

lemma missing_key_loop_silent:
  "fst (missing_key_loop H G v keys h) \<Longrightarrow> snd (missing_key_loop H G v keys h) = h"
  by (induction keys) (auto split: if_splits)

lemma validatePayload_result:
  "fst (validatePayload H G ctx body h) = acceptable G (context_requiredKeys ctx) body"
  by (simp add: validatePayload_def acceptable_def missing_key_loop_result)

lemma validatePayload_silent:
  "fst (validatePayload H G ctx body h) \<Longrightarrow> snd (validatePayload H G ctx body h) = h"
  by (auto simp: validatePayload_def missing_key_loop_silent)

lemma config_keys:
  "requiredKeys (foldl (\<lambda>config key. config\<lparr>requiredKeys := requiredKeys config @ [f key]\<rparr>) c ks)
     = requiredKeys c @ map f ks"
  by (induction ks arbitrary: c) auto

context request_gate
begin

lemma missing_key_loop_gate:
  "answered (snd (missing_key_loop H G v keys h)) = answered h"
  "resumed (snd (missing_key_loop H G v keys h)) = resumed h"
  by (induction keys) (simp_all add: gate_simps)

lemma validatePayload_gate:
  "answered (snd (validatePayload H G ctx body h)) = answered h"
  "resumed (snd (validatePayload H G ctx body h)) = resumed h"
  by (simp_all add: validatePayload_def missing_key_loop_gate gate_simps)

lemma json_body_end:
  assumes "GetHttpRequestBody H 0 (json_totalRequestBodySize ctx + n) h = (b, None)"
  shows "\<exists>h'. json_OnHttpRequestBody H G ctx n True h
      = (Return (if acceptable G (context_requiredKeys ctx) b then ActionContinue else ActionPause),
         ctx\<lparr>json_totalRequestBodySize := json_totalRequestBodySize ctx + n\<rparr>, h')
    \<and> resumed h' = resumed h
    \<and> (answered h' = answered h \<or> \<not> acceptable G (context_requiredKeys ctx) b
         \<and> answered h' = answered h @ [(403, [], ''invalid payload'', -1)])"
proof -
  let ?ctx = "ctx\<lparr>json_totalRequestBodySize := json_totalRequestBodySize ctx + n\<rparr>"
  obtain ok h1 where v: "validatePayload H G ?ctx b h = (ok, h1)" by fastforce
  have ok: "acceptable G (context_requiredKeys ctx) b = ok"
    using validatePayload_result [of H G ?ctx b h] v by simp
  have h1: "answered h1 = answered h" "resumed h1 = resumed h"
    using validatePayload_gate [of G ?ctx b h] v by simp_all
  obtain e h2 where s: "SendHttpResponse H 403 [] ''invalid payload'' (-1) h1 = (e, h2)" by fastforce
  show ?thesis
    using v s ok h1 send_response [OF s]
    by (cases ok; cases e) (simp_all add: json_OnHttpRequestBody_def Let_def assms gate_simps)
qed

end

section \<open>Properties\<close>

text \<open>A request body is let through exactly when it is valid JSON with every configured key: the
  plugin pauses on each frame but the last, sees the whole body at the last however it was cut,
  and then continues if it is acceptable, or pauses after trying to answer with 403. It never
  resumes a request by itself and never answers an acceptable one.\<close>

theorem json_validation_enforced:
  assumes "body_channel H (GetHttpRequestBody H) app pre rep body deliver"
    and "request_gate H effective resumed answered"
    and "\<And>d h. answered (deliver d h) = answered h \<and> resumed (deliver d h) = resumed h"
    and "body h = []" and "concat (ds @ [d]) \<noteq> []" and "length (concat (ds @ [d])) < 2 ^ 31"
  shows "case stream_body (json_OnHttpRequestBody H G) deliver ds d (json_NewHttpContext ctx c) h of (as, ctx', h') \<Rightarrow>
      let ok = acceptable G (requiredKeys (configuration ctx)) (concat (ds @ [d])) in
        as = replicate (length ds) (Return ActionPause) @ [Return (if ok then ActionContinue else ActionPause)]
        \<and> resumed h' = resumed h
        \<and> (answered h' = answered h \<or> \<not> ok \<and> answered h' = answered h @ [(403, [], ''invalid payload'', -1)])"
proof -
  let ?ctx = "(json_NewHttpContext ctx c)\<lparr>json_totalRequestBodySize := word_of_nat (length (concat ds))\<rparr>"
  let ?ctx' = "?ctx\<lparr>json_totalRequestBodySize := json_totalRequestBodySize ?ctx + frame_size d\<rparr>"
  let ?h = "foldl (\<lambda>h d. deliver d h) h (ds @ [d])"
  let ?b = "concat (ds @ [d])"
  let ?ok = "acceptable G (requiredKeys (configuration ctx)) ?b"
  have kept: "answered (foldl (\<lambda>h d. deliver d h) h fs) = answered h
      \<and> resumed (foldl (\<lambda>h d. deliver d h) h fs) = resumed h" for fs
    using assms(3) by (induction fs arbitrary: h) simp_all
  have get: "GetHttpRequestBody H 0 (json_totalRequestBodySize ?ctx + frame_size d) ?h = (?b, None)"
    using body_channel.get_delivered [OF assms(1,4,5,6)] by (simp add: frame_size_def)
  obtain h2 where last: "json_OnHttpRequestBody H G ?ctx (frame_size d) True ?h
      = (Return (if ?ok then ActionContinue else ActionPause), ?ctx', h2)"
    and "resumed h2 = resumed ?h"
      "answered h2 = answered ?h \<or> \<not> ?ok \<and> answered h2 = answered ?h @ [(403, [], ''invalid payload'', -1)]"
    using request_gate.json_body_end [OF assms(2) get, of G] by (auto simp: json_NewHttpContext_def)
  note a = this(2,3) [unfolded kept [of "ds @ [d]", THEN conjunct1] kept [of "ds @ [d]", THEN conjunct2]]
  show ?thesis
    using validation.stream_body_last [where c = "json_NewHttpContext ctx c" and H = H and G = G
        and deliver = deliver and ds = ds and d = d and h = h] last a
    by (simp add: json_NewHttpContext_def Let_def del: foldl_append concat_append)
qed

text \<open>A stand-in for gjson: an object is a text in braces, a key is there if its name occurs in quotes.\<close>

definition braces_gjson :: "string gjson" where
  "braces_gjson = \<lparr>ValidBytes = (\<lambda>b. b \<noteq> [] \<and> hd b = CHR ''{'' \<and> last b = CHR ''}''),
     ParseBytes = (\<lambda>b. b),
     Get = (\<lambda>v k. if strings_Contains v ([CHR 0x22] @ k @ [CHR 0x22]) then k else ''''),
     Array = (\<lambda>v. if v = '''' then [] else [v]), Str = (\<lambda>v. v), Exists = (\<lambda>v. v \<noteq> ''''),
     String = (\<lambda>v. v), Quote = (\<lambda>b. b)\<rparr>"

theorem json_validation_enforced_witness:
  "case stream_body (json_OnHttpRequestBody reference_host braces_gjson) em_deliver_request
        [''{'', [CHR 0x22] @ ''id'' @ [CHR 0x22]] '': 1}''
        (json_NewHttpContext \<lparr>configuration = \<lparr>requiredKeys = [''id'']\<rparr>\<rparr> 2) emulator_init of (as, ctx', h') \<Rightarrow>
      let ok = acceptable braces_gjson (requiredKeys (configuration \<lparr>configuration = \<lparr>requiredKeys = [''id'']\<rparr>\<rparr>))
            (concat ([''{'', [CHR 0x22] @ ''id'' @ [CHR 0x22]] @ ['': 1}''])) in
        as = replicate (length [''{'', [CHR 0x22] @ ''id'' @ [CHR 0x22]]) (Return ActionPause)
              @ [Return (if ok then ActionContinue else ActionPause)]
        \<and> em_resumed_requests h' = em_resumed_requests emulator_init
        \<and> (em_local_responses h' = em_local_responses emulator_init
           \<or> \<not> ok \<and> em_local_responses h' = em_local_responses emulator_init @ [(403, [], ''invalid payload'', -1)])"
  by (rule json_validation_enforced [OF reference_request.body_channel_axioms reference_gate.request_gate_axioms])
     (simp_all add: emulator_init_def em_deliver_request_def)

text \<open>The plugin starts exactly when there is no configuration, an empty one, or one that is valid
  JSON; its requests are then checked for exactly the strings of the array \<open>requiredKeys\<close> of the
  configuration, in that order, and for no key without one. A failed start keeps the old keys.\<close>

theorem json_start:
  "case json_OnPluginStart H G ctx n h of (status, ctx', h') \<Rightarrow>
    case GetPluginConfiguration H h of (data, err) \<Rightarrow>
      (status = StatusOK \<longleftrightarrow> (err = None \<or> err = Some ErrorStatusNotFound)
          \<and> (go_string data = '''' \<or> ValidBytes G (go_string data)))
      \<and> context_requiredKeys (json_NewHttpContext ctx' c) =
          (if status = StatusFailed then context_requiredKeys (json_NewHttpContext ctx c)
           else if go_string data = '''' then []
           else map (Str G) (Array G (Get G (ParseBytes G (go_string data)) ''requiredKeys'')))"
  by (auto simp: json_OnPluginStart_def parsePluginConfiguration_def json_NewHttpContext_def config_keys
      split: prod.split)

text \<open>A request whose body the host does not hand over passes unvalidated, and so does one of the
  declared content type without a body, for which no other callback is made: the header phase
  continues exactly when the content type is \<open>application/json\<close>, byte for byte.\<close>

theorem json_gaps:
  "(case GetHttpRequestBody H 0 (json_totalRequestBodySize ctx + n) h of
      (b, Some e) \<Rightarrow> fst (json_OnHttpRequestBody H G ctx n True h) = Return ActionContinue
    | (b, None) \<Rightarrow> fst (json_OnHttpRequestBody H G ctx n True h)
        = Return (if acceptable G (context_requiredKeys ctx) b then ActionContinue else ActionPause))
   \<and> (fst (json_OnHttpRequestHeaders H ctx k True h) = Return ActionContinue
      \<longleftrightarrow> GetHttpRequestHeader H ''content-type'' h = (''application/json'', None))"
proof -
  let ?ctx = "ctx\<lparr>json_totalRequestBodySize := json_totalRequestBodySize ctx + n\<rparr>"
  obtain b e where get: "GetHttpRequestBody H 0 (json_totalRequestBodySize ctx + n) h = (b, e)" by fastforce
  obtain ok h1 where v: "validatePayload H G ?ctx b h = (ok, h1)" by fastforce
  then have "ok = acceptable G (context_requiredKeys ctx) b"
    using validatePayload_result [of H G ?ctx b h] by simp
  then have "case e of Some e \<Rightarrow> fst (json_OnHttpRequestBody H G ctx n True h) = Return ActionContinue
    | None \<Rightarrow> fst (json_OnHttpRequestBody H G ctx n True h)
        = Return (if acceptable G (context_requiredKeys ctx) b then ActionContinue else ActionPause)"
    using v get by (auto simp: json_OnHttpRequestBody_def Let_def split: option.split prod.split bool.split)
  moreover have "fst (json_OnHttpRequestHeaders H ctx k True h) = Return ActionContinue
      \<longleftrightarrow> GetHttpRequestHeader H ''content-type'' h = (''application/json'', None)"
    by (auto simp: json_OnHttpRequestHeaders_def split: prod.split option.split)
  ultimately show ?thesis using get by (simp split: option.split)
qed

end
