(* ===== verification/Http_Auth.thy ===== *)
theory Http_Auth
  imports Reference_Host
begin

text \<open>
  The two plugins that grant or refuse access: \<^verbatim>\<open>istio/envoy/wasm-go/http_auth_random/main.go\<close>,
  which asks a cluster and decides on the hash of the answer, and
  \<^verbatim>\<open>istio/envoy/wasm-go/properties/main.go\<close>, which requires the header that the route's
  metadata name. Their properties rest on the contract \<open>request_gate\<close>.
\<close>

section \<open>http_auth_random\<close>

definition auth_clusterName :: string where
  "auth_clusterName = ''httpbin''"

record httpAuthRandom =
  auth_contextID :: uint32

definition auth_NewHttpContext :: "uint32 \<Rightarrow> httpAuthRandom" where
  "auth_NewHttpContext contextID = \<lparr>auth_contextID = contextID\<rparr>"

definition auth_OnHttpRequestHeaders :: "'h host \<Rightarrow> httpAuthRandom \<Rightarrow> goint \<Rightarrow> bool \<Rightarrow> 'h \<Rightarrow> action \<times> 'h" where
  "auth_OnHttpRequestHeaders H ctx numHeaders endOfStream h =
     (case GetHttpRequestHeaders H h of
        (_, Some e) \<Rightarrow> (ActionContinue,
           Log H LogCritical (''failed to get request headers: '' @ ErrorString H e) h)
      | (hs, None) \<Rightarrow>
          (let h = log_headers H ''request header: '' hs h
           in case DispatchHttpCall H auth_clusterName hs '''' [] 50000 h of
                ((_, Some e), h) \<Rightarrow> (ActionContinue,
                   Log H LogCritical (''dipatch httpcall failed: '' @ ErrorString H e) h)
              | ((_, None), h) \<Rightarrow> (ActionPause,
                   Log H LogInfo (''http call dispatched to '' @ auth_clusterName) h)))"

text \<open>The callback. \<open>Write\<close> of the hash never fails, so its error branch is not there.\<close>

definition httpCallResponseCallback :: "'h host \<Rightarrow> goint \<Rightarrow> goint \<Rightarrow> goint \<Rightarrow> 'h \<Rightarrow> 'h" where
  "httpCallResponseCallback H numHeaders bodySize numTrailers h =
     (case GetHttpCallResponseHeaders H h of
        (_, Some e) \<Rightarrow> Log H LogCritical (''failed to get response body: '' @ ErrorString H e) h
      | (hs, None) \<Rightarrow>
          (let h = log_headers H (''response header from '' @ auth_clusterName @ '': '') hs h
           in case GetHttpCallResponseBody H 0 bodySize h of
                (_, Some e) \<Rightarrow>
                  snd (ResumeHttpRequest H
                    (Log H LogCritical (''failed to get response body: '' @ ErrorString H e) h))
              | (b, None) \<Rightarrow>
                  if fnv32a b mod 2 = 0
                  then snd (ResumeHttpRequest H (Log H LogInfo ''access granted'' h))
                  else (let body = ''access forbidden''; h = Log H LogInfo body h
                        in case SendHttpResponse H 403 [(''powered-by'', ''proxy-wasm-go-sdk!!'')] body (-1) h of
                             (Some e, h) \<Rightarrow>
                               snd (ResumeHttpRequest H
                                 (Log H LogError (''failed to send local response: '' @ ErrorString H e) h))
                           | (None, h) \<Rightarrow> h)))"

section \<open>properties\<close>

record properties_httpContext =
  properties_contextID :: uint32

definition properties_NewHttpContext :: "uint32 \<Rightarrow> properties_httpContext" where
  "properties_NewHttpContext contextID = \<lparr>properties_contextID = contextID\<rparr>"

definition propertyPrefix :: "string list" where
  "propertyPrefix = [''route_metadata'', ''filter_metadata'', ''envoy.filters.http.wasm'']"

fun authHeader_loop :: "string \<Rightarrow> headers \<Rightarrow> bool" where
  "authHeader_loop auth [] = False"
| "authHeader_loop auth (h # hs) = (if fst h = auth then True else authHeader_loop auth hs)"

text \<open>An error other than \<open>ErrorStatusNotFound\<close> is logged and the code goes on with what it got.\<close>

definition properties_OnHttpRequestHeaders :: "'h host \<Rightarrow> properties_httpContext \<Rightarrow> goint \<Rightarrow> bool \<Rightarrow> 'h
    \<Rightarrow> action \<times> 'h" where
  "properties_OnHttpRequestHeaders H ctx numHeaders endOfStream h =
     (case GetProperty H (propertyPrefix @ [''auth'']) h of (auth, err) \<Rightarrow>
        if err = Some ErrorStatusNotFound
        then (ActionContinue, Log H LogInfo ''no auth header for route'' h)
        else
          (let h = (case err of None \<Rightarrow> h
                    | Some e \<Rightarrow> Log H LogCritical (''failed to read properties: '' @ ErrorString H e) h);
               h = Log H LogInfo (''auth header is '' @ [CHR 0x22] @ auth @ [CHR 0x22]) h;
               (hs, err) = GetHttpRequestHeaders H h;
               h = (case err of None \<Rightarrow> h
                    | Some e \<Rightarrow> Log H LogCritical (''failed to get request headers: '' @ ErrorString H e) h)
           in if \<not> authHeader_loop auth hs
              then (ActionPause, snd (SendHttpResponse H 401 [] '''' 16 h))
              else (ActionContinue, h)))"

definition properties_OnHttpStreamDone :: "'h host \<Rightarrow> properties_httpContext \<Rightarrow> 'h \<Rightarrow> 'h" where
  "properties_OnHttpStreamDone H ctx h = Log H LogInfo (dec_word (properties_contextID ctx) @ '' finished'') h"

lemma authHeader_loop_iff: "authHeader_loop auth hs \<longleftrightarrow> auth \<in> set (map fst hs)"
  by (induction hs) auto

lemma mod_2_even: "(w :: uint32) mod 2 = 0 \<longleftrightarrow> even w"
  by (simp add: even_iff_mod_2_eq_zero)

section \<open>Properties\<close>

text \<open>C17: The callback decides on the parity of the number of odd bytes in the answer: if it is odd
  the request is resumed, once, and not answered; if it is even the request is answered with 403
  and not resumed, unless the answer cannot be sent, when it is resumed. An answer whose body
  cannot be read lets the request through.\<close>

theorem auth_decision:
  assumes "request_gate H effective resumed answered"
    and "GetHttpCallResponseHeaders H h = (hs, None)"
  shows "\<exists>b e. GetHttpCallResponseBody H 0 n (log_headers H ''response header from httpbin: '' hs h) = (b, e)
    \<and> (let h' = httpCallResponseCallback H k n m h;
           granted = (e \<noteq> None \<or> odd (length (filter (\<lambda>c. odd (byte c)) b))) in
         if resumed h' = resumed h @ [effective h]
         then answered h' = answered h \<and> (granted \<or> fst (SendHttpResponse H 403
                [(''powered-by'', ''proxy-wasm-go-sdk!!'')] ''access forbidden'' (-1)
                (Log H LogInfo ''access forbidden''
                  (log_headers H ''response header from httpbin: '' hs h))) \<noteq> None)
         else resumed h' = resumed h \<and> \<not> granted
              \<and> answered h' = answered h
                  @ [(403, [(''powered-by'', ''proxy-wasm-go-sdk!!'')], ''access forbidden'', -1)])"
proof -
  let ?h = "log_headers H ''response header from httpbin: '' hs h"
  obtain b e where body: "GetHttpCallResponseBody H 0 n ?h = (b, e)" by fastforce
  obtain r h1 where s: "SendHttpResponse H 403 [(''powered-by'', ''proxy-wasm-go-sdk!!'')] ''access forbidden'' (-1)
      (Log H LogInfo ''access forbidden'' ?h) = (r, h1)" by fastforce
  show ?thesis
    using request_gate.send_response [OF assms(1) s] request_gate.gate_simps [OF assms(1)] body s assms(2)
    by (cases e; cases r)
       (simp_all add: httpCallResponseCallback_def auth_clusterName_def Let_def mod_2_even even_fnv32a)
qed

theorem auth_decision_witness:
  "\<exists>b e. GetHttpCallResponseBody reference_host 0 2
        (log_headers reference_host ''response header from httpbin: '' [] (emulator_init\<lparr>em_call_body := ''ab''\<rparr>)) = (b, e)
    \<and> (let h' = httpCallResponseCallback reference_host 0 2 0 (emulator_init\<lparr>em_call_body := ''ab''\<rparr>);
           granted = (e \<noteq> None \<or> odd (length (filter (\<lambda>c. odd (byte c)) b))) in
         if em_resumed_requests h' = em_resumed_requests (emulator_init\<lparr>em_call_body := ''ab''\<rparr>)
              @ [em_context (emulator_init\<lparr>em_call_body := ''ab''\<rparr>)]
         then em_local_responses h' = em_local_responses (emulator_init\<lparr>em_call_body := ''ab''\<rparr>)
              \<and> (granted \<or> fst (SendHttpResponse reference_host 403
                [(''powered-by'', ''proxy-wasm-go-sdk!!'')] ''access forbidden'' (-1)
                (Log reference_host LogInfo ''access forbidden''
                  (log_headers reference_host ''response header from httpbin: '' []
                    (emulator_init\<lparr>em_call_body := ''ab''\<rparr>)))) \<noteq> None)
         else em_resumed_requests h' = em_resumed_requests (emulator_init\<lparr>em_call_body := ''ab''\<rparr>) \<and> \<not> granted
              \<and> em_local_responses h' = em_local_responses (emulator_init\<lparr>em_call_body := ''ab''\<rparr>)
                  @ [(403, [(''powered-by'', ''proxy-wasm-go-sdk!!'')], ''access forbidden'', -1)])"
  by (rule auth_decision [OF reference_gate.request_gate_axioms])
     (simp add: reference_host_def emulator_init_def)

text \<open>A request is paused exactly when the call was accepted; it is let through, unchecked, when its
  headers cannot be read or the call is refused. If the answer's headers cannot be read, the
  callback neither resumes the request nor answers it: it stays paused.\<close>

theorem auth_pause_and_stuck:
  assumes "request_gate H effective resumed answered"
  shows "(fst (auth_OnHttpRequestHeaders H ctx k eos h) = ActionPause \<longleftrightarrow>
      (case GetHttpRequestHeaders H h of (hs, e) \<Rightarrow> e = None
        \<and> snd (fst (DispatchHttpCall H ''httpbin'' hs '''' [] 50000
            (log_headers H ''request header: '' hs h))) = None))
    \<and> (case snd (GetHttpCallResponseHeaders H h) of
         None \<Rightarrow> True
       | Some e \<Rightarrow> resumed (httpCallResponseCallback H i j l h) = resumed h
                 \<and> answered (httpCallResponseCallback H i j l h) = answered h)"
  using request_gate.gate_simps [OF assms]
  by (auto simp: auth_OnHttpRequestHeaders_def httpCallResponseCallback_def auth_clusterName_def Let_def
      split: prod.splits option.splits)

text \<open>A host on which the headers of an answer cannot be read.\<close>

definition headless_host :: "emulator host" where
  "headless_host = reference_host\<lparr>GetHttpCallResponseHeaders := \<lambda>h. ([], Some ErrorStatusNotFound)\<rparr>"

interpretation headless: request_gate headless_host em_context em_resumed_requests em_local_responses
  by unfold_locales (auto simp: headless_host_def reference_host_def)

theorem auth_pause_and_stuck_witness:
  "(fst (auth_OnHttpRequestHeaders headless_host (auth_NewHttpContext 2) 0 True emulator_init) = ActionPause \<longleftrightarrow>
      (case GetHttpRequestHeaders headless_host emulator_init of (hs, e) \<Rightarrow> e = None
        \<and> snd (fst (DispatchHttpCall headless_host ''httpbin'' hs '''' [] 50000
            (log_headers headless_host ''request header: '' hs emulator_init))) = None))
    \<and> em_resumed_requests (httpCallResponseCallback headless_host 0 0 0 emulator_init)
        = em_resumed_requests emulator_init
    \<and> em_local_responses (httpCallResponseCallback headless_host 0 0 0 emulator_init)
        = em_local_responses emulator_init"
  using auth_pause_and_stuck [OF headless.request_gate_axioms, of "auth_NewHttpContext 2" 0 True emulator_init 0 0 0]
  by (simp add: headless_host_def)

text \<open>C25: Of the requests on a route whose metadata name an auth header exactly those that carry a
  header of that name pass. For every other one the plugin's last call is \<open>SendHttpResponse\<close> with
  401 (gRPC status 16): the request is answered so, unless the host refuses the call, and paused. On a
  route without the property every request passes and none is answered.\<close>

theorem properties_gate:
  assumes "request_gate H effective resumed answered"
    and "\<And>l m h. GetHttpRequestHeaders H (Log H l m h) = GetHttpRequestHeaders H h"
  shows "case properties_OnHttpRequestHeaders H ctx n eos h of (a, h') \<Rightarrow>
    case GetProperty H [''route_metadata'', ''filter_metadata'', ''envoy.filters.http.wasm'', ''auth''] h of
      (auth, err) \<Rightarrow>
        if err = Some ErrorStatusNotFound \<or> auth \<in> set (map fst (fst (GetHttpRequestHeaders H h)))
        then a = ActionContinue \<and> resumed h' = resumed h \<and> answered h' = answered h
        else a = ActionPause \<and> resumed h' = resumed h
          \<and> (\<exists>h1 e. SendHttpResponse H 401 [] '''' 16 h1 = (e, h') \<and> answered h1 = answered h
              \<and> answered h' = answered h @ (if e = None then [(401, [], '''', 16)] else []))"
proof -
  note gate = request_gate.gate_simps [OF assms(1)]
  obtain auth err where p: "GetProperty H [''route_metadata'', ''filter_metadata'', ''envoy.filters.http.wasm'', ''auth''] h
      = (auth, err)" by fastforce
  obtain hs err2 where hs: "GetHttpRequestHeaders H h = (hs, err2)" by fastforce
  have send: "resumed (snd (SendHttpResponse H 401 [] '''' 16 h1)) = resumed h1"
    "\<exists>h2 e. SendHttpResponse H 401 [] '''' 16 h2 = (e, snd (SendHttpResponse H 401 [] '''' 16 h1)) \<and> answered h2 = a
      \<and> answered (snd (SendHttpResponse H 401 [] '''' 16 h1)) = a @ (if e = None then [(401, [], '''', 16)] else [])"
    if "answered h1 = a" for h1 a
    using that request_gate.send_response [OF assms(1) surjective_pairing, of 401 "[]" "''''" 16 h1]
    by (auto simp: prod_eq_iff intro!: exI [of _ h1] exI [of _ "fst (SendHttpResponse H 401 [] '''' 16 h1)"])
  show ?thesis
    using p hs
    by (cases err; cases err2)
       (auto simp: properties_OnHttpRequestHeaders_def propertyPrefix_def authHeader_loop_iff Let_def gate send assms(2))
qed

definition guarded_route :: "headers \<Rightarrow> emulator" where
  "guarded_route hs = emulator_init\<lparr>em_request_headers := hs,
          em_properties := [(propertyPrefix @ [''auth''], ''cookie'')]\<rparr>"

lemma guarded:
  "GetProperty reference_host [''route_metadata'', ''filter_metadata'', ''envoy.filters.http.wasm'', ''auth''] (guarded_route hs)
    = (''cookie'', None)"
  "GetHttpRequestHeaders reference_host (guarded_route hs) = (hs, None)"
  "fst (SendHttpResponse reference_host code ks b g h) = None"
  "em_local_responses (guarded_route hs) = []"
  by (simp_all add: guarded_route_def emulator_init_def reference_host_def propertyPrefix_def not_found_string_def)

theorem properties_gate_witness:
  "(case properties_OnHttpRequestHeaders reference_host (properties_NewHttpContext 2) 1 True (guarded_route [(''cookie'', ''value'')])
      of (a, h') \<Rightarrow> a = ActionContinue \<and> em_local_responses h' = [])
   \<and> (case properties_OnHttpRequestHeaders reference_host (properties_NewHttpContext 2) 1 True (guarded_route [(''token'', ''value'')])
      of (a, h') \<Rightarrow> a = ActionPause \<and> em_local_responses h' = [(401, [], '''', 16)])"
proof -
  have log: "GetHttpRequestHeaders reference_host (Log reference_host l m h) = GetHttpRequestHeaders reference_host h"
    for l m and h :: emulator
    by (simp add: reference_host_def)
  note gate = properties_gate [OF reference_gate.request_gate_axioms log]
  show ?thesis
    using gate [of "guarded_route [(''cookie'', ''value'')]" "properties_NewHttpContext 2" 1 True]
      gate [of "guarded_route [(''token'', ''value'')]" "properties_NewHttpContext 2" 1 True]
    by (auto simp: guarded prod_eq_iff split: prod.splits)
qed

end
