(* ===== verification/Http_Routing.thy ===== *)
theory Http_Routing
  imports Reference_Host
begin

text \<open>
  The plugin \<^verbatim>\<open>istio/envoy/wasm-go/http_routing/main.go\<close>: a request is sent to the canary cluster,
  by a suffix of its authority, when a number is even; the number is random, or the first byte
  of the plugin configuration. Its property rests on the contract \<open>header_store\<close>.
\<close>

record routing_pluginContext =
  plugin_diceOverride :: uint32

record httpRouting =
  diceOverride :: uint32

definition routing_NewPluginContext :: "uint32 \<Rightarrow> routing_pluginContext" where
  "routing_NewPluginContext contextID = \<lparr>plugin_diceOverride = 0\<rparr>"

definition routing_OnPluginStart :: "'h host \<Rightarrow> routing_pluginContext \<Rightarrow> goint \<Rightarrow> 'h
    \<Rightarrow> start_status \<times> routing_pluginContext \<times> 'h" where
  "routing_OnPluginStart H ctx pluginConfigurationSize h =
     (case GetPluginConfiguration H h of (data, err) \<Rightarrow>
        if err \<noteq> None \<and> err \<noteq> Some ErrorStatusNotFound
        then (StatusFailed, ctx,
              Log H LogCritical (''error reading plugin configuration: '' @ ErrorString H (the err)) h)
        else (StatusOK,
              (case go_string data of [] \<Rightarrow> ctx | c # _ \<Rightarrow> ctx\<lparr>plugin_diceOverride := ucast (byte c)\<rparr>), h))"

definition routing_NewHttpContext :: "routing_pluginContext \<Rightarrow> uint32 \<Rightarrow> httpRouting" where
  "routing_NewHttpContext ctx contextID = \<lparr>diceOverride = plugin_diceOverride ctx\<rparr>"

text \<open>\<open>rand.Read\<close> fills the four bytes of the buffer.\<close>

definition dice :: "'h host \<Rightarrow> 'h \<Rightarrow> uint32 outcome \<times> 'h" where
  "dice H h = (let (buf, h) = RandRead H 4 h in (LittleEndian_Uint32 buf, h))"

definition routing_OnHttpRequestHeaders :: "'h host \<Rightarrow> httpRouting \<Rightarrow> goint \<Rightarrow> bool \<Rightarrow> 'h
    \<Rightarrow> action outcome \<times> 'h" where
  "routing_OnHttpRequestHeaders H ctx numHeaders endOfStream h =
     (case (if diceOverride ctx \<noteq> 0 then (Return (diceOverride ctx), h) else dice H h) of
        (Panic m, h) \<Rightarrow> (Panic m, h)
      | (Return value, h) \<Rightarrow>
          (let h = Log H LogInfo (''value: '' @ dec_word value @ [CHR 0x0A]) h
           in if value mod 2 = 0
              then (case GetHttpRequestHeader H '':authority'' h of
                      (_, Some e) \<Rightarrow> (Return ActionPause,
                         Log H LogCritical (''failed to get request header: '' @ [CHR 0x27] @ '':authority'' @ [CHR 0x27]) h)
                    | (value, None) \<Rightarrow>
                        (case ReplaceHttpRequestHeader H '':authority'' (value @ ''-canary'') h of
                           (Some e, h) \<Rightarrow> (Return ActionPause, Log H LogCritical ''failed to set request header: test'' h)
                         | (None, h) \<Rightarrow> (Return ActionContinue, h)))
              else (Return ActionContinue, h)))"

section \<open>The dice\<close>

lemma even_unat_byte: "even (unat (w :: uint8)) \<longleftrightarrow> even w"
  using even_of_nat [where 'a = "uint8", of "unat w"] by simp

lemma even_le_decode: "b \<noteq> [] \<Longrightarrow> even (le_decode b) \<longleftrightarrow> even (byte (hd b))"
  by (cases b) (simp_all add: even_unat_byte)

lemma even_word_of_nat: "even (word_of_nat n :: uint32) \<longleftrightarrow> even n"
  by simp

lemma even_ucast_byte: "even (ucast (byte c) :: uint32) \<longleftrightarrow> even (byte c)"
proof -
  have "bit (ucast (byte c) :: uint32) 0 \<longleftrightarrow> bit (byte c) 0" by (simp add: bit_ucast_iff del: bit_0)
  then show ?thesis by (simp add: bit_0)
qed

lemma ucast_byte_0: "ucast (b :: uint8) = (0 :: uint32) \<longleftrightarrow> b = 0"
  by transfer simp

text \<open>What the request handler decides: the override if there is one, else the first random byte.\<close>

definition goes_to_canary :: "'h host \<Rightarrow> httpRouting \<Rightarrow> 'h \<Rightarrow> bool" where
  "goes_to_canary H ctx h \<longleftrightarrow>
     (if diceOverride ctx \<noteq> 0 then even (diceOverride ctx) else even (byte (hd (fst (RandRead H 4 h)))))"

context header_store
begin

lemma dice_value:
  "\<exists>v. dice H h = (Return v, snd (RandRead H 4 h)) \<and> (even v \<longleftrightarrow> even (byte (hd (fst (RandRead H 4 h)))))"
proof -
  obtain buf h1 where r: "RandRead H 4 h = (buf, h1)" by fastforce
  with random_bytes [of 4 h] have buf: "length buf = 4" by simp
  then have "buf \<noteq> []" by auto
  with buf r show ?thesis
    by (simp add: dice_def LittleEndian_Uint32_def even_word_of_nat even_le_decode)
qed

end

section \<open>Properties\<close>

text \<open>C26: A request with an authority always goes on, and its authority gets the suffix exactly when
  it goes to the canary: when the override is even, or, without one, when the first of the four
  random bytes is even. No other header changes. A canary request without an authority is paused.\<close>

theorem routing_canary:
  assumes "header_store H request_header"
  shows "case routing_OnHttpRequestHeaders H ctx n eos h of (r, h') \<Rightarrow>
    r = Return (if goes_to_canary H ctx h \<and> request_header h '':authority'' = None then ActionPause else ActionContinue)
    \<and> request_header h' = (request_header h)('':authority'' :=
         (if goes_to_canary H ctx h then map_option (\<lambda>a. a @ ''-canary'') (request_header h '':authority'')
          else request_header h '':authority''))"
proof -
  note log = header_store.header_log [OF assms] and get = header_store.header_get [OF assms]
  obtain v h1 where v: "(if diceOverride ctx \<noteq> 0 then (Return (diceOverride ctx), h) else dice H h) = (Return v, h1)"
    and even: "even v \<longleftrightarrow> goes_to_canary H ctx h" and h1: "request_header h1 = request_header h"
    using header_store.dice_value [OF assms, of h] header_store.header_random [OF assms, of 4 h]
    by (cases "diceOverride ctx = 0") (auto simp: goes_to_canary_def)
  let ?h = "Log H LogInfo (''value: '' @ dec_word v @ [CHR 0x0A]) h1"
  have m: "v mod 2 = 0 \<longleftrightarrow> goes_to_canary H ctx h" using even by (simp add: even_iff_mod_2_eq_zero)
  show ?thesis
  proof (cases "request_header h '':authority''")
    case None
    then show ?thesis
      using v m h1 by (simp add: routing_OnHttpRequestHeaders_def Let_def get log fun_upd_idem)
  next
    case (Some a)
    obtain h2 where "ReplaceHttpRequestHeader H '':authority'' (a @ ''-canary'') ?h = (None, h2)"
      "request_header h2 = (request_header ?h)('':authority'' \<mapsto> a @ ''-canary'')"
      using header_store.header_replace [OF assms] by blast
    then show ?thesis
      using v m h1 Some by (simp add: routing_OnHttpRequestHeaders_def Let_def get log fun_upd_idem)
  qed
qed

theorem routing_canary_witness:
  "case routing_OnHttpRequestHeaders reference_host (routing_NewHttpContext \<lparr>plugin_diceOverride = 2\<rparr> 1) 1 True
      (emulator_init\<lparr>em_request_headers := [('':authority'', ''app'')]\<rparr>) of (r, h') \<Rightarrow>
    r = Return (if goes_to_canary reference_host (routing_NewHttpContext \<lparr>plugin_diceOverride = 2\<rparr> 1)
            (emulator_init\<lparr>em_request_headers := [('':authority'', ''app'')]\<rparr>)
          \<and> map_of (em_request_headers (emulator_init\<lparr>em_request_headers := [('':authority'', ''app'')]\<rparr>)) '':authority'' = None
        then ActionPause else ActionContinue)
    \<and> map_of (em_request_headers h') '':authority'' = Some ''app-canary''"
  using routing_canary [OF reference_headers.header_store_axioms,
      where ctx = "routing_NewHttpContext \<lparr>plugin_diceOverride = 2\<rparr> 1" and n = 1 and eos = True
      and h = "emulator_init\<lparr>em_request_headers := [('':authority'', ''app'')]\<rparr>"]
  by (simp add: case_prod_beta goes_to_canary_def routing_NewHttpContext_def)

text \<open>The override is the first byte of the configuration, if it is not zero: with such a
  configuration all requests go the same way, to the canary if the byte is even; without one, or
  with a first byte of zero, the dice decide. An unreadable configuration fails the start.\<close>

theorem routing_override:
  "case routing_OnPluginStart H (routing_NewPluginContext p) n h of (status, ctx, h') \<Rightarrow>
     case GetPluginConfiguration H h of (data, err) \<Rightarrow>
       (status = StatusFailed \<longleftrightarrow> err \<noteq> None \<and> err \<noteq> Some ErrorStatusNotFound)
       \<and> goes_to_canary H (routing_NewHttpContext ctx c) h1 =
           (if status = StatusOK \<and> go_string data \<noteq> '''' \<and> byte (hd (go_string data)) \<noteq> 0
            then even (byte (hd (go_string data)))
            else even (byte (hd (fst (RandRead H 4 h1)))))"
proof -
  show ?thesis
    by (auto simp: routing_OnPluginStart_def routing_NewPluginContext_def routing_NewHttpContext_def
        goes_to_canary_def even_ucast_byte ucast_byte_0 split: prod.split list.split)
qed

end
