(* ===== verification/Http_Headers.thy ===== *)
theory Http_Headers
  imports Json_Validation
begin

text \<open>
  The plugin \<^verbatim>\<open>istio/envoy/wasm-go/http_headers/main.go\<close>: it adds to every response a constant
  header and the one that the plugin configuration names. Of gjson it calls the two functions on
  texts, which extend the record of parameters of \<open>Json_Validation\<close>.
\<close>

record 'v gjson_text = "'v gjson" +
  Valid :: "string \<Rightarrow> bool"
  GetText :: "string \<Rightarrow> string \<Rightarrow> 'v"

record headers_pluginContext =
  plugin_headerName :: string
  plugin_headerValue :: string

record httpHeaders =
  headers_contextID :: uint32
  headerName :: string
  headerValue :: string

definition headers_NewPluginContext :: "uint32 \<Rightarrow> headers_pluginContext" where
  "headers_NewPluginContext contextID = \<lparr>plugin_headerName = '''', plugin_headerValue = ''''\<rparr>"

definition headers_NewHttpContext :: "headers_pluginContext \<Rightarrow> uint32 \<Rightarrow> httpHeaders" where
  "headers_NewHttpContext p contextID =
     \<lparr>headers_contextID = contextID, headerName = plugin_headerName p, headerValue = plugin_headerValue p\<rparr>"

definition invalid_format :: string where
  "invalid_format = ''invalid configuration format; expected {'' @ [CHR 0x22] @ ''header'' @ [CHR 0x22] @ '': ''
     @ [CHR 0x22] @ ''<header name>'' @ [CHR 0x22] @ '', '' @ [CHR 0x22] @ ''value'' @ [CHR 0x22] @ '': ''
     @ [CHR 0x22] @ ''<header value>'' @ [CHR 0x22] @ ''}''"

text \<open>The nil slice is looked at before the error.\<close>

definition headers_OnPluginStart :: "'h host \<Rightarrow> 'v gjson_text \<Rightarrow> headers_pluginContext \<Rightarrow> goint \<Rightarrow> 'h
    \<Rightarrow> start_status \<times> headers_pluginContext \<times> 'h" where
  "headers_OnPluginStart H G p pluginConfigurationSize h =
     (let h = Log H LogDebug ''loading plugin config'' h
      in case GetPluginConfiguration H h of
           (None, _) \<Rightarrow> (StatusOK, p, h)
         | (Some data, Some e) \<Rightarrow> (StatusFailed, p,
             Log H LogCritical (''error reading plugin configuration: '' @ ErrorString H e) h)
         | (Some data, None) \<Rightarrow>
             if \<not> Valid G data then (StatusFailed, p, Log H LogCritical invalid_format h)
             else
               (let p = p\<lparr>plugin_headerName := strings_TrimSpace (Str G (GetText G data ''header''))\<rparr>;
                    p = p\<lparr>plugin_headerValue := strings_TrimSpace (Str G (GetText G data ''value''))\<rparr>
                in if plugin_headerName p = '''' \<or> plugin_headerValue p = ''''
                   then (StatusFailed, p, Log H LogCritical invalid_format h)
                   else (StatusOK, p, Log H LogInfo (''header from config: '' @ plugin_headerName p @ '' = ''
                           @ plugin_headerValue p) h)))"

definition headers_OnHttpRequestHeaders :: "'h host \<Rightarrow> httpHeaders \<Rightarrow> goint \<Rightarrow> bool \<Rightarrow> 'h \<Rightarrow> action \<times> 'h" where
  "headers_OnHttpRequestHeaders H ctx numHeaders endOfStream h =
     (let (err, h) = ReplaceHttpRequestHeader H ''test'' ''best'' h;
          h = (if err \<noteq> None then Log H LogCritical ''failed to set request header: test'' h else h);
          (hs, err) = GetHttpRequestHeaders H h;
          h = (case err of None \<Rightarrow> h
               | Some e \<Rightarrow> Log H LogCritical (''failed to get request headers: '' @ ErrorString H e) h)
      in (ActionContinue, log_headers H ''request header --> '' hs h))"

definition headers_OnHttpResponseHeaders :: "'h host \<Rightarrow> httpHeaders \<Rightarrow> goint \<Rightarrow> bool \<Rightarrow> 'h \<Rightarrow> action \<times> 'h" where
  "headers_OnHttpResponseHeaders H ctx numHeaders endOfStream h =
     (let h = Log H LogInfo (''adding header: '' @ headerName ctx @ ''='' @ headerValue ctx) h;
          (err, h) = AddHttpResponseHeader H ''x-proxy-wasm-go-sdk-example'' ''http_headers'' h;
          h = (case err of None \<Rightarrow> h
               | Some e \<Rightarrow> Log H LogCritical (''failed to set response constant header: '' @ ErrorString H e) h);
          h = (if headerName ctx \<noteq> ''''
               then (case AddHttpResponseHeader H (headerName ctx) (headerValue ctx) h of
                       (Some e, h) \<Rightarrow> Log H LogCritical (''failed to set response headers: '' @ ErrorString H e) h
                     | (None, h) \<Rightarrow> h)
               else h);
          (hs, err) = GetHttpResponseHeaders H h;
          h = (case err of None \<Rightarrow> h
               | Some e \<Rightarrow> Log H LogCritical (''failed to get response headers: '' @ ErrorString H e) h)
      in (ActionContinue, log_headers H ''response header <-- '' hs h))"

definition headers_OnHttpStreamDone :: "'h host \<Rightarrow> httpHeaders \<Rightarrow> 'h \<Rightarrow> 'h" where
  "headers_OnHttpStreamDone H ctx h = Log H LogInfo (dec_word (headers_contextID ctx) @ '' finished'') h"

section \<open>White space\<close>

definition trimmed :: "string \<Rightarrow> bool" where
  "trimmed s \<longleftrightarrow> list_all (\<lambda>e. \<not> prefix e s \<and> \<not> suffix e s) space_encodings"

lemma space_encodings_nonempty: "e \<in> set space_encodings \<Longrightarrow> e \<noteq> []"
  by (auto simp: space_encodings_def)

lemma trimmed_TrimSpace: "trimmed (strings_TrimSpace s)"
proof -
  let ?t = "trim_prefixes space_encodings s"
  let ?r = "trim_prefixes (map rev space_encodings) (rev ?t)"
  have "\<not> prefix e (rev ?r) \<and> \<not> suffix e (rev ?r)" if e: "e \<in> set space_encodings" for e
  proof
    have "prefix (rev ?r) ?t"
      using trim_prefixes_suffix [of "map rev space_encodings" "rev ?t"] by (simp add: suffix_to_prefix)
    then show "\<not> prefix e (rev ?r)"
      using trim_prefixes_none [OF e space_encodings_nonempty [OF e], of s] prefix_order.trans by blast
    have "\<not> prefix (rev e) ?r"
      by (rule trim_prefixes_none) (use e space_encodings_nonempty [OF e] in auto)
    then show "\<not> suffix e (rev ?r)" by (simp add: suffix_to_prefix)
  qed
  then show ?thesis by (simp add: trimmed_def list_all_iff strings_TrimSpace_def)
qed

context response_host
begin

lemma log_headers_response: "response_headers (log_headers H p hs h) = response_headers h"
  unfolding log_headers_def by (induction hs arbitrary: h) (simp_all add: response_log)

lemma add_header_response:
  "fst (AddHttpResponseHeader H k v h) = None"
  "response_headers (snd (AddHttpResponseHeader H k v h)) = response_headers h @ [(k, v)]"
  using add_header [of k v h] by auto

lemma headers_added:
  "response_headers (snd (headers_OnHttpResponseHeaders H ctx n eos h)) = response_headers h
     @ [(''x-proxy-wasm-go-sdk-example'', ''http_headers'')]
     @ (if headerName ctx \<noteq> '''' then [(headerName ctx, headerValue ctx)] else [])"
  by (simp add: headers_OnHttpResponseHeaders_def Let_def case_prod_beta add_header_response response_log
      log_headers_response split: option.split)

end

section \<open>Properties\<close>

text \<open>C37: A plugin that starts either has no configuration, and then adds only its constant header to a
  response, or one that is valid JSON with a header and a value that are more than white space,
  and then adds the constant header and after it that header, both trimmed at either end. In every
  other case it fails to start. Responses always go on.\<close>

theorem headers_configured:
  assumes "response_host H response_headers resumptions callouts"
  shows "case headers_OnPluginStart H G (headers_NewPluginContext c) n h of (status, p, h1) \<Rightarrow>
    case headers_OnHttpResponseHeaders H (headers_NewHttpContext p k) m eos h2 of (a, h3) \<Rightarrow>
      a = ActionContinue
      \<and> (case GetPluginConfiguration H (Log H LogDebug ''loading plugin config'' h) of
           (None, _) \<Rightarrow> status = StatusOK
             \<and> response_headers h3 = response_headers h2 @ [(''x-proxy-wasm-go-sdk-example'', ''http_headers'')]
         | (Some data, err) \<Rightarrow>
             let name = strings_TrimSpace (Str G (GetText G data ''header''));
                 val = strings_TrimSpace (Str G (GetText G data ''value''))
             in (status = StatusOK \<longleftrightarrow> err = None \<and> Valid G data \<and> name \<noteq> '''' \<and> val \<noteq> '''')
                \<and> trimmed name \<and> trimmed val
                \<and> (if status = StatusFailed then True
                   else response_headers h3 = response_headers h2
                     @ [(''x-proxy-wasm-go-sdk-example'', ''http_headers''), (name, val)]))"
proof -
  obtain data err where g: "GetPluginConfiguration H (Log H LogDebug ''loading plugin config'' h) = (data, err)"
    by fastforce
  have continue: "fst (headers_OnHttpResponseHeaders H ctx m eos h2) = ActionContinue" for ctx
    by (simp add: headers_OnHttpResponseHeaders_def Let_def case_prod_beta)
  show ?thesis
    using response_host.headers_added [OF assms] continue
    by (cases data; cases err)
       (simp_all add: headers_OnPluginStart_def g headers_NewPluginContext_def headers_NewHttpContext_def
         trimmed_TrimSpace case_prod_beta Let_def)
qed

definition braces_text :: "string gjson_text" where
  "braces_text = gjson.extend braces_gjson \<lparr>Valid = ValidBytes braces_gjson, GetText = (\<lambda>t k. '' '' @ k @ '' '')\<rparr>"

theorem headers_configured_witness:
  "case headers_OnPluginStart reference_host braces_text (headers_NewPluginContext 1) 2
      (emulator_init\<lparr>em_plugin_config := Some ''{}''\<rparr>) of (status, p, h1) \<Rightarrow>
    case headers_OnHttpResponseHeaders reference_host (headers_NewHttpContext p 2) 1 True emulator_init of (a, h3) \<Rightarrow>
      a = ActionContinue
      \<and> (case GetPluginConfiguration reference_host (Log reference_host LogDebug ''loading plugin config''
            (emulator_init\<lparr>em_plugin_config := Some ''{}''\<rparr>)) of
           (None, _) \<Rightarrow> status = StatusOK
             \<and> em_response_headers h3 = em_response_headers emulator_init @ [(''x-proxy-wasm-go-sdk-example'', ''http_headers'')]
         | (Some data, err) \<Rightarrow>
             let name = strings_TrimSpace (Str braces_text (GetText braces_text data ''header''));
                 val = strings_TrimSpace (Str braces_text (GetText braces_text data ''value''))
             in (status = StatusOK \<longleftrightarrow> err = None \<and> Valid braces_text data \<and> name \<noteq> '''' \<and> val \<noteq> '''')
                \<and> trimmed name \<and> trimmed val
                \<and> (if status = StatusFailed then True
                   else em_response_headers h3 = em_response_headers emulator_init
                     @ [(''x-proxy-wasm-go-sdk-example'', ''http_headers''), (name, val)]))"
  by (rule headers_configured [OF reference_callouts.response_host_axioms])

end
