(* ===== verification/Shared_Data.thy ===== *)
theory Shared_Data
  imports Reference_Host
begin

text \<open>
  The plugin \<^verbatim>\<open>istio/envoy/wasm-go/shared_data/main.go\<close>: a request counter in the host's shared
  data, incremented by read and compare-and-swap with a retry loop. Between the read and the
  write other VMs may run, so \<open>incrementData\<close> is written as its two atomic halves, and the
  requests in flight are modelled as threads that a schedule interleaves.
\<close>

definition sharedDataKey :: string where
  "sharedDataKey = ''shared_data_key''"

definition sharedDataInitialValue :: uint64 where
  "sharedDataInitialValue = 10000000"

definition shared_OnVMStart :: "'h host \<Rightarrow> goint \<Rightarrow> 'h \<Rightarrow> start_status \<times> 'h" where
  "shared_OnVMStart H vmConfigurationSize h =
     (let initialValueBuf = LittleEndian_PutUint64 sharedDataInitialValue
      in case SetSharedData H sharedDataKey initialValueBuf 0 h of
           (Some e, h) \<Rightarrow> (StatusOK, Log H LogWarn (''error setting shared data on OnVMStart: '' @ ErrorString H e) h)
         | (None, h) \<Rightarrow> (StatusOK, h))"

section \<open>incrementData and the retry loop\<close>

text \<open>The first half: the read. It ends in an early return or a panic, or yields the value to write.\<close>

definition increment_fetch :: "'h host \<Rightarrow> 'h \<Rightarrow> ((uint64 \<times> err) outcome + uint64 \<times> uint32) \<times> 'h" where
  "increment_fetch H h =
     (case GetSharedData H sharedDataKey h of
        (_, Some e) \<Rightarrow> (Inl (Return (0, Some e)),
           Log H LogWarn (''error getting shared data on OnHttpRequestHeaders: '' @ ErrorString H e) h)
      | ((value, cas), None) \<Rightarrow>
          (case LittleEndian_Uint64 value of
             Panic m \<Rightarrow> (Inl (Panic m), h)
           | Return v \<Rightarrow> (Inr (v + 1, cas), h)))"

text \<open>The second half: the write, with the version that was read.\<close>

definition increment_commit :: "'h host \<Rightarrow> uint64 \<Rightarrow> uint32 \<Rightarrow> 'h \<Rightarrow> (uint64 \<times> err) outcome \<times> 'h" where
  "increment_commit H ret cas h =
     (case SetSharedData H sharedDataKey (LittleEndian_PutUint64 ret) cas h of
        (Some e, h) \<Rightarrow> (Return (0, Some e),
           Log H LogWarn (''error setting shared data on OnHttpRequestHeaders: '' @ ErrorString H e) h)
      | (None, h) \<Rightarrow> (Return (ret, None), h))"

definition incrementData :: "'h host \<Rightarrow> 'h \<Rightarrow> (uint64 \<times> err) outcome \<times> 'h" where
  "incrementData H h =
     (case increment_fetch H h of
        (Inl r, h) \<Rightarrow> (r, h)
      | (Inr (ret, cas), h) \<Rightarrow> increment_commit H ret cas h)"

text \<open>The loop retries for as long as another VM gets in between: not returning is \<open>None\<close>.\<close>

partial_function (option) shared_OnHttpRequestHeaders ::
    "'h host \<Rightarrow> goint \<Rightarrow> bool \<Rightarrow> 'h \<Rightarrow> (action outcome \<times> 'h) option" where
  "shared_OnHttpRequestHeaders H numHeaders endOfStream h =
     (case incrementData H h of
        (Panic m, h) \<Rightarrow> Some (Panic m, h)
      | (Return (value, err), h) \<Rightarrow>
          (case err of
             None \<Rightarrow> Some (Return ActionContinue, Log H LogInfo (''shared value: '' @ dec_word value) h)
           | Some e \<Rightarrow>
               if e = ErrorStatusCasMismatch
               then shared_OnHttpRequestHeaders H numHeaders endOfStream h
               else Some (Return ActionContinue, h)))"

section \<open>Requests in flight\<close>

text \<open>
  One request between two host calls: about to read, holding what it read, or out of the loop
  with the last result of \<open>incrementData\<close>.
\<close>

datatype attempt = Trying | Holding uint64 uint32 | Finished "(uint64 \<times> err) outcome"

definition after_increment :: "'h host \<Rightarrow> (uint64 \<times> err) outcome \<times> 'h \<Rightarrow> attempt \<times> 'h" where
  "after_increment H rh =
     (case rh of
        (Return (value, None), h) \<Rightarrow>
          (Finished (Return (value, None)), Log H LogInfo (''shared value: '' @ dec_word value) h)
      | (Return (value, Some e), h) \<Rightarrow>
          (if e = ErrorStatusCasMismatch then Trying else Finished (Return (value, Some e)), h)
      | (Panic m, h) \<Rightarrow> (Finished (Panic m), h))"

fun attempt_step :: "'h host \<Rightarrow> attempt \<Rightarrow> 'h \<Rightarrow> attempt \<times> 'h" where
  "attempt_step H Trying h =
     (case increment_fetch H h of
        (Inl r, h) \<Rightarrow> after_increment H (r, h)
      | (Inr (ret, cas), h) \<Rightarrow> (Holding ret cas, h))"
| "attempt_step H (Holding ret cas) h = after_increment H (increment_commit H ret cas h)"
| "attempt_step H (Finished r) h = (Finished r, h)"

text \<open>A schedule names the request that makes each next host call.\<close>

fun run_schedule :: "'h host \<Rightarrow> nat list \<Rightarrow> attempt list \<Rightarrow> 'h \<Rightarrow> attempt list \<times> 'h" where
  "run_schedule H [] ts h = (ts, h)"
| "run_schedule H (i # is) ts h =
     (if i < length ts
      then (let (t, h) = attempt_step H (ts ! i) h in run_schedule H is (ts[i := t]) h)
      else run_schedule H is ts h)"

fun returned_value :: "attempt \<Rightarrow> uint64 list" where
  "returned_value (Finished (Return (v, None))) = [v]"
| "returned_value _ = []"

definition returned :: "attempt list \<Rightarrow> uint64 list" where
  "returned ts = concat (map returned_value ts)"

lemma returned_value_le: "length (returned_value t) \<le> 1"
  by (cases t rule: returned_value.cases) auto

lemma length_returned_le: "length (returned ts) \<le> length ts"
  unfolding returned_def
proof (induction ts)
  case (Cons t ts)
  then show ?case using returned_value_le [of t] by simp
qed simp

lemma returned_update:
  assumes "i < length ts" and "returned_value (ts ! i) = []"
  shows "mset (returned (ts[i := t])) = mset (returned_value t) + mset (returned ts)"
proof -
  have "mset (returned ts) = mset (returned (take i ts)) + mset (returned (drop (Suc i) ts))"
    using assms by (subst id_take_nth_drop [OF assms(1)]) (simp add: returned_def)
  then show ?thesis
    using assms by (simp add: upd_conv_take_nth_drop returned_def)
qed

lemma length_returned_update:
  assumes "i < length ts" and "returned_value (ts ! i) = []"
  shows "length (returned (ts[i := t])) = length (returned_value t) + length (returned ts)"
  using arg_cong [OF returned_update [OF assms, of t], of size] by simp

lemma length_returned_less:
  assumes "i < length ts" and "returned_value (ts ! i) = []"
  shows "length (returned ts) < length ts"
proof -
  have "Suc (length (returned ts)) = length (returned (ts[i := Finished (Return (0, None))]))"
    using length_returned_update [OF assms] by simp
  also have "\<dots> \<le> length ts"
    using length_returned_le [of "ts[i := Finished (Return (0, None))]"] by simp
  finally show ?thesis by simp
qed

lemma Uint64_PutUint64 [simp]: "LittleEndian_Uint64 (LittleEndian_PutUint64 v) = Return v"
  by (rule LittleEndian_roundtrip)

lemma version_eq_iff:
  assumes "unat (c :: uint32) + n < 2 ^ 32" and "j \<le> n" and "k \<le> n"
  shows "c + word_of_nat j = c + word_of_nat k \<longleftrightarrow> j = k"
  using assms by (simp add: word_of_nat_eq_iff take_bit_nat_eq_self)

lemma version_nonzero:
  assumes "unat (c :: uint32) + n < 2 ^ 32" and "j \<le> n" and "c \<noteq> 0"
  shows "c + word_of_nat j \<noteq> 0"
proof -
  have "unat (c + word_of_nat j) = unat c + j"
    using assms(1,2) by (simp add: unat_word_ariths unat_of_nat take_bit_nat_eq_self)
  with assms(3) show ?thesis by (metis add_is_0 unat_0 unat_eq_0)
qed

section \<open>No increment is lost\<close>

text \<open>
  What holds between any two host calls: with \<open>k\<close> requests done, the store holds the initial
  value plus \<open>k\<close> under the initial version plus \<open>k\<close>, the values returned are the \<open>k\<close> values in
  between, and a request that holds what it read after \<open>j\<close> of them has made at most \<open>2 j + 1\<close>
  host calls so far.
\<close>

fun in_flight :: "uint64 \<Rightarrow> uint32 \<Rightarrow> nat \<Rightarrow> nat \<Rightarrow> attempt \<Rightarrow> bool" where
  "in_flight v0 c0 k steps Trying = (steps \<le> 2 * k)"
| "in_flight v0 c0 k steps (Holding r c) =
     (\<exists>j \<le> k. c = c0 + word_of_nat j \<and> r = v0 + word_of_nat (Suc j) \<and> steps \<le> 2 * j + 1)"
| "in_flight v0 c0 k steps (Finished r) = (\<exists>v. r = Return (v, None))"

lemma in_flight_mono: "in_flight v0 c0 k steps t \<Longrightarrow> k \<le> k' \<Longrightarrow> in_flight v0 c0 k' steps t"
  by (cases t) (auto intro: order_trans)

definition counting :: "('h \<Rightarrow> string \<Rightarrow> (string \<times> uint32) option) \<Rightarrow> uint64 \<Rightarrow> uint32
    \<Rightarrow> nat list \<Rightarrow> attempt list \<Rightarrow> 'h \<Rightarrow> bool" where
  "counting view v0 c0 past ts h \<longleftrightarrow>
     (let k = length (returned ts) in
        view h sharedDataKey = Some (LittleEndian_PutUint64 (v0 + word_of_nat k), c0 + word_of_nat k)
        \<and> mset (returned ts) = mset (map (\<lambda>i. v0 + word_of_nat (Suc i)) [0..<k])
        \<and> (\<forall>i < length ts. in_flight v0 c0 k (count_list past i) (ts ! i)))"

lemma counting_init:
  assumes "view h sharedDataKey = Some (LittleEndian_PutUint64 v0, c0)"
  shows "counting view v0 c0 [] (replicate n Trying) h"
proof -
  have "returned (replicate n Trying) = []" by (simp add: returned_def)
  then show ?thesis using assms by (simp add: counting_def)
qed

lemma counting_no_thread:
  assumes "counting view v0 c0 past ts h" and "\<not> i < length ts"
  shows "counting view v0 c0 (past @ [i]) ts h"
  using assms by (auto simp: counting_def Let_def)

text \<open>A step that finishes no request, and one that finishes a request.\<close>

lemma counting_update:
  assumes "counting view v0 c0 past ts h" and "i < length ts" and "returned_value (ts ! i) = []"
    and "returned_value t = []" and "view h' sharedDataKey = view h sharedDataKey"
    and "in_flight v0 c0 (length (returned ts)) (Suc (count_list past i)) t"
  shows "counting view v0 c0 (past @ [i]) (ts[i := t]) h'"
proof -
  have "mset (returned (ts[i := t])) = mset (returned ts)"
    and "length (returned (ts[i := t])) = length (returned ts)"
    using returned_update [OF assms(2,3), of t] length_returned_update [OF assms(2,3), of t] assms(4)
    by simp_all
  then show ?thesis
    using assms(1,5,6) by (simp add: counting_def Let_def nth_list_update)
qed

lemma counting_finish:
  fixes v0 :: uint64 and c0 :: uint32
  assumes "counting view v0 c0 past ts h" and "i < length ts" and "returned_value (ts ! i) = []"
    and "k = length (returned ts)" and "v = v0 + word_of_nat (Suc k)"
    and "view h' sharedDataKey = Some (LittleEndian_PutUint64 v, c0 + word_of_nat (Suc k))"
  shows "counting view v0 c0 (past @ [i]) (ts[i := Finished (Return (v, None))]) h'"
proof -
  let ?ts = "ts[i := Finished (Return (v, None))]"
  have "mset (returned ?ts) = add_mset v (mset (returned ts))" and k: "length (returned ?ts) = Suc k"
    using returned_update [OF assms(2,3)] length_returned_update [OF assms(2,3)] assms(4) by simp_all
  then have "mset (returned ?ts) = mset (map (\<lambda>i. v0 + word_of_nat (Suc i)) [0..<Suc k])"
    using assms(1,4,5) by (simp add: counting_def Let_def)
  moreover have "in_flight v0 c0 (Suc k) (count_list (past @ [i]) j) (?ts ! j)" if "j < length ts" for j
    using that assms(1,4) in_flight_mono [of v0 c0 k "count_list past j" "ts ! j" "Suc k"]
    by (cases "i = j") (simp_all add: counting_def Let_def)
  ultimately show ?thesis
    using k assms(5,6) by (simp add: counting_def Let_def del: map_map upt_Suc)
qed

context cas_store
begin

lemma fetch_counting:
  assumes "view h sharedDataKey = Some (LittleEndian_PutUint64 v, c)"
  shows "increment_fetch H h = (Inr (v + 1, c), h)"
  using assms by (simp add: increment_fetch_def get_present)

lemma commit_current:
  assumes "view h sharedDataKey = Some (d, c)" and "c \<noteq> 0" and "unat c + 1 < 2 ^ 32"
  shows "\<exists>h'. increment_commit H r c h = (Return (r, None), h')
    \<and> view h' sharedDataKey = Some (LittleEndian_PutUint64 r, c + 1)"
  using set_current [OF assms, of "LittleEndian_PutUint64 r"]
  by (auto simp: increment_commit_def)

lemma commit_stale:
  assumes "view h sharedDataKey = Some (d, c)" and "cas \<noteq> 0" and "cas \<noteq> c"
  shows "\<exists>h'. increment_commit H r cas h = (Return (0, Some ErrorStatusCasMismatch), h')
    \<and> view h' sharedDataKey = view h sharedDataKey"
  using set_stale [OF assms, of "LittleEndian_PutUint64 r"]
  by (auto simp: increment_commit_def view_log)

lemma attempt_counting:
  assumes inv: "counting view v0 c0 past ts h" and i: "i < length ts"
    and c0: "c0 \<noteq> 0" "unat c0 + length ts < 2 ^ 32"
    and step: "attempt_step H (ts ! i) h = (t, h')"
  shows "counting view v0 c0 (past @ [i]) (ts[i := t]) h'"
proof (cases "ts ! i")
  case Trying
  have "in_flight v0 c0 (length (returned ts)) (count_list past i) Trying"
    using inv i by (auto simp: counting_def Let_def simp flip: Trying)
  with Trying show ?thesis
    using step inv i
    by (intro counting_update [OF inv i])
       (auto simp: counting_def Let_def fetch_counting)
next
  case (Finished r)
  then have same: "ts[i := t] = ts" "h' = h" using step list_update_id [of ts i] by auto
  have "in_flight v0 c0 (length (returned ts)) (count_list (past @ [i]) j) (ts ! j)" if "j < length ts" for j
    using inv that Finished by (cases "i = j") (auto simp: counting_def Let_def)
  then show ?thesis
    using inv by (simp add: counting_def Let_def same)
next
  case (Holding r c)
  let ?k = "length (returned ts)"
  have none: "returned_value (ts ! i) = []" using Holding by simp
  have k: "?k < length ts" by (rule length_returned_less [OF i none])
  have store: "view h sharedDataKey = Some (LittleEndian_PutUint64 (v0 + word_of_nat ?k), c0 + word_of_nat ?k)"
    using inv by (simp add: counting_def Let_def)
  have "in_flight v0 c0 ?k (count_list past i) (Holding r c)"
    using inv i by (auto simp: counting_def Let_def simp flip: Holding)
  then obtain j where j: "j \<le> ?k" "c = c0 + word_of_nat j" "r = v0 + word_of_nat (Suc j)"
    "count_list past i \<le> 2 * j + 1" by auto
  show ?thesis
  proof (cases "j = ?k")
    case True
    have "c \<noteq> 0" using version_nonzero [OF c0(2) _ c0(1)] j(2) k True by simp
    moreover have "unat c + 1 < 2 ^ 32"
      using c0(2) k j(2) True by (simp add: unat_word_ariths unat_of_nat take_bit_nat_eq_self)
    ultimately obtain h1 where "increment_commit H r c h = (Return (r, None), h1)"
      and "view h1 sharedDataKey = Some (LittleEndian_PutUint64 r, c + 1)"
      using commit_current store j(2) True by metis
    with Holding step show ?thesis
      using j(2,3) True
      by (auto simp: after_increment_def view_log algebra_simps intro!: counting_finish [OF inv i none refl])
  next
    case False
    have "c \<noteq> 0" using version_nonzero [OF c0(2) _ c0(1)] j(1,2) k by simp
    moreover have "c \<noteq> c0 + word_of_nat ?k"
      using version_eq_iff [OF c0(2), of j ?k] j(1,2) k False by simp
    ultimately obtain h1 where "increment_commit H r c h = (Return (0, Some ErrorStatusCasMismatch), h1)"
      and "view h1 sharedDataKey = view h sharedDataKey"
      using commit_stale [OF store] by blast
    with Holding step show ?thesis
      using j(1,4) False by (intro counting_update [OF inv i none]) (auto simp: after_increment_def)
  qed
qed

lemma schedule_counting:
  assumes "counting view v0 c0 past ts h" and "c0 \<noteq> 0" and "unat c0 + length ts < 2 ^ 32"
    and "run_schedule H is ts h = (ts', h')"
  shows "counting view v0 c0 (past @ is) ts' h' \<and> length ts' = length ts"
  using assms
proof (induction "is" arbitrary: past ts h)
  case Nil
  then show ?case by simp
next
  case (Cons i "is")
  show ?case
  proof (cases "i < length ts")
    case True
    obtain t h1 where t: "attempt_step H (ts ! i) h = (t, h1)" by fastforce
    have "counting view v0 c0 (past @ [i]) (ts[i := t]) h1"
      by (rule attempt_counting [OF Cons.prems(1) True Cons.prems(2,3) t])
    from Cons.IH [OF this Cons.prems(2)] show ?thesis
      using Cons.prems(3,4) True t by simp
  next
    case False
    from Cons.IH [OF counting_no_thread [OF Cons.prems(1) False] Cons.prems(2,3)] show ?thesis
      using Cons.prems(4) False by simp
  qed
qed

end

section \<open>The loop is its threads\<close>

text \<open>What the loop does with a result of \<open>incrementData\<close>.\<close>

definition loop_with :: "'h host \<Rightarrow> goint \<Rightarrow> bool \<Rightarrow> (uint64 \<times> err) outcome \<times> 'h \<Rightarrow> (action outcome \<times> 'h) option" where
  "loop_with H n eos rh =
     (case rh of
        (Panic m, h) \<Rightarrow> Some (Panic m, h)
      | (Return (value, None), h) \<Rightarrow>
          Some (Return ActionContinue, Log H LogInfo (''shared value: '' @ dec_word value) h)
      | (Return (value, Some e), h) \<Rightarrow>
          if e = ErrorStatusCasMismatch then shared_OnHttpRequestHeaders H n eos h
          else Some (Return ActionContinue, h))"

lemma loop_unfold: "shared_OnHttpRequestHeaders H n eos h = loop_with H n eos (incrementData H h)"
  by (subst shared_OnHttpRequestHeaders.simps)
     (simp add: loop_with_def split: prod.split outcome.split option.split)

fun loop_result :: "(uint64 \<times> err) outcome \<Rightarrow> action outcome" where
  "loop_result (Return _) = Return ActionContinue"
| "loop_result (Panic m) = Panic m"

lemma loop_with_after:
  "loop_with H n eos rh =
     (case after_increment H rh of
        (Finished r, h) \<Rightarrow> Some (loop_result r, h)
      | (_, h) \<Rightarrow> shared_OnHttpRequestHeaders H n eos h)"
proof -
  obtain r h where rh: "rh = (r, h)" by fastforce
  show ?thesis
  proof (cases r)
    case (Return ve)
    obtain v e where "ve = (v, e)" by fastforce
    then show ?thesis using rh Return
      by (cases e) (auto simp: loop_with_def after_increment_def)
  qed (simp add: loop_with_def after_increment_def rh)
qed

lemma after_increment_not_holding: "after_increment H rh \<noteq> (Holding r c, h)"
  by (auto simp: after_increment_def split: prod.splits outcome.splits option.splits if_splits)

lemma run_finished: "run_schedule H is [Finished r] h = ([Finished r], h)"
  by (induction "is") auto

lemma run_alone:
  "(run_schedule H is [Trying] h = ([Finished r], h') \<longrightarrow>
      shared_OnHttpRequestHeaders H n eos h = Some (loop_result r, h'))
   \<and> (run_schedule H is [Holding ret cas] h = ([Finished r], h') \<longrightarrow>
      loop_with H n eos (increment_commit H ret cas h) = Some (loop_result r, h'))"
proof (induction "is" arbitrary: h ret cas)
  case Nil
  then show ?case by simp
next
  case (Cons i "is")
  have after: "loop_with H n eos rh = Some (loop_result r, h')"
    if run: "(let (t, h) = after_increment H rh in run_schedule H is [t] h) = ([Finished r], h')" for rh
  proof -
    obtain t h1 where t: "after_increment H rh = (t, h1)" by fastforce
    then show ?thesis
      using run Cons.IH [of h1] after_increment_not_holding [of H rh]
      by (cases t) (auto simp: loop_with_after run_finished)
  qed
  show ?case
  proof (cases "i = 0")
    case True
    have "loop_with H n eos (incrementData H h) = Some (loop_result r, h')"
      if run: "run_schedule H (i # is) [Trying] h = ([Finished r], h')"
    proof -
      obtain x h1 where "increment_fetch H h = (x, h1)" by fastforce
      then show ?thesis
        using run True after [of "(projl x, h1)"] Cons.IH [of h1 "fst (projr x)" "snd (projr x)"]
        by (cases x) (auto simp: incrementData_def)
    qed
    moreover have "loop_with H n eos (increment_commit H ret cas h) = Some (loop_result r, h')"
      if "run_schedule H (i # is) [Holding ret cas] h = ([Finished r], h')"
      using that True after by simp
    ultimately show ?thesis by (simp add: loop_unfold)
  next
    case False
    then show ?thesis using Cons.IH by simp
  qed
qed

section \<open>Two requests that collide\<close>

definition started :: emulator where
  "started = snd (shared_OnVMStart reference_host 0 emulator_init)"

lemma started_store:
  "em_shared started sharedDataKey = Some (LittleEndian_PutUint64 10000000, 1)"
  by (simp add: started_def shared_OnVMStart_def reference_host_def em_set_shared_def next_version_def
      emulator_init_def sharedDataInitialValue_def)

text \<open>Both read, both write, and the second, whose write was refused, reads and writes again.\<close>

definition collision :: "nat list" where
  "collision = [0, 1, 0, 1, 1, 1]"

lemma reference_fetch:
  "em_shared h sharedDataKey = Some (LittleEndian_PutUint64 v, c) \<Longrightarrow>
     attempt_step reference_host Trying h = (Holding (v + 1) c, h)"
  using reference_store.fetch_counting by simp

lemma reference_commit:
  "em_shared h sharedDataKey = Some (d, c) \<Longrightarrow> cas \<noteq> 0 \<Longrightarrow>
     attempt_step reference_host (Holding r cas) h =
       (if cas = c
        then (Finished (Return (r, None)),
              Log reference_host LogInfo (''shared value: '' @ dec_word r) (snd (em_set_shared sharedDataKey (LittleEndian_PutUint64 r) cas h)))
        else (Trying, Log reference_host LogWarn
              (''error setting shared data on OnHttpRequestHeaders: '' @ ErrorString reference_host ErrorStatusCasMismatch) h))"
  by (simp add: increment_commit_def after_increment_def reference_host_def em_set_shared_def)

lemma reference_commit_store:
  "em_shared h k = Some (d, c) \<Longrightarrow> em_shared (snd (em_set_shared k d' c h)) k = Some (d', if c + 1 = 0 then 1 else c + 1)"
  by (simp add: em_set_shared_def next_version_def)

lemma collision_run:
  "returned (fst (run_schedule reference_host collision (replicate 2 Trying) started)) = [10000001, 10000002]"
  by (simp add: collision_def numeral_2_eq_2 started_store reference_fetch reference_commit
      reference_store.view_log reference_commit_store returned_def del: attempt_step.simps(1,2))

section \<open>Properties\<close>

text \<open>C1: However the requests' reads and writes interleave, no increment is lost and none is
  counted twice: if \<open>k\<close> of \<open>n\<close> requests are done, the values they have returned are the initial
  value plus 1, ..., plus \<open>k\<close>, each once, and the store holds the initial value plus \<open>k\<close>. Every
  request that is done has returned a value without an error. The version number does not wrap.\<close>

theorem shared_no_lost_update:
  assumes "cas_store H view" and "view h sharedDataKey = Some (LittleEndian_PutUint64 v0, c0)"
    and "c0 \<noteq> 0" and "unat c0 + n < 2 ^ 32"
    and "run_schedule H is (replicate n Trying) h = (ts, h')"
  shows "mset (returned ts) = mset (map (\<lambda>i. v0 + word_of_nat (Suc i)) [0..<length (returned ts)])
    \<and> map_option fst (view h' sharedDataKey)
        = Some (LittleEndian_PutUint64 (v0 + word_of_nat (length (returned ts))))
    \<and> list_all (\<lambda>t. case t of Finished r \<Rightarrow> (\<exists>v. r = Return (v, None)) | _ \<Rightarrow> True) ts"
proof -
  have inv: "counting view v0 c0 is ts h'"
    using cas_store.schedule_counting [OF assms(1) counting_init [of view, OF assms(2)] assms(3) _ assms(5)]
      assms(4) by simp
  then have "list_all (\<lambda>t. case t of Finished r \<Rightarrow> (\<exists>v. r = Return (v, None)) | _ \<Rightarrow> True) ts"
    by (force simp: counting_def Let_def list_all_length split: attempt.split)
  with inv show ?thesis by (simp add: counting_def Let_def)
qed

theorem shared_no_lost_update_witness:
  "case run_schedule reference_host collision (replicate 2 Trying) started of (ts, h') \<Rightarrow>
     mset (returned ts) = mset (map (\<lambda>i. 10000000 + word_of_nat (Suc i)) [0..<length (returned ts)])
     \<and> map_option fst (em_shared h' sharedDataKey)
         = Some (LittleEndian_PutUint64 (10000000 + word_of_nat (length (returned ts))))
     \<and> list_all (\<lambda>t. case t of Finished r \<Rightarrow> (\<exists>v. r = Return (v, None)) | _ \<Rightarrow> True) ts
     \<and> length (returned ts) = 2"
  using shared_no_lost_update [OF reference_store.cas_store_axioms started_store _ _ surjective_pairing,
      of 2 collision] collision_run
  by (simp only: case_prod_beta) (simp add: list.size(3,4))

text \<open>C16: Every request gets through, however the others run: each retry is paid for by another
  request that finished, so after \<open>2 n\<close> host calls of its own a request is done.\<close>

theorem shared_request_finishes:
  assumes "cas_store H view" and "view h sharedDataKey = Some (LittleEndian_PutUint64 v0, c0)"
    and "c0 \<noteq> 0" and "unat c0 + n < 2 ^ 32" and "i < n" and "2 * n \<le> count_list is i"
  shows "\<exists>v. fst (run_schedule H is (replicate n Trying) h) ! i = Finished (Return (v, None))"
proof -
  obtain ts h' where run: "run_schedule H is (replicate n Trying) h = (ts, h')" by fastforce
  have "counting view v0 c0 is ts h' \<and> length ts = n"
    using cas_store.schedule_counting [OF assms(1) counting_init [of view, OF assms(2)] assms(3) _ run]
      assms(4) by simp
  then have now: "in_flight v0 c0 (length (returned ts)) (count_list is i) (ts ! i)" and len: "length ts = n"
    using assms(5) by (auto simp: counting_def Let_def)
  show ?thesis
  proof (cases "ts ! i")
    case Trying
    then show ?thesis using now assms(5,6) length_returned_less [of i ts] len by auto
  next
    case (Holding r c)
    then show ?thesis using now assms(5,6) length_returned_less [of i ts] len by auto
  next
    case (Finished r)
    then show ?thesis using now run by auto
  qed
qed

theorem shared_request_finishes_witness:
  "\<exists>v. fst (run_schedule reference_host (collision @ [1, 1]) (replicate 2 Trying) started) ! 1
      = Finished (Return (v, None))"
  using shared_request_finishes [OF reference_store.cas_store_axioms started_store,
      of 2 1 "collision @ [1, 1]"]
  by (simp add: collision_def)

text \<open>The threads of the two theorems above are the handler: run alone, one that gets out of the
  loop with a result has made the calls of \<open>OnHttpRequestHeaders\<close>, which returns it.\<close>

theorem shared_loop_is_thread:
  assumes "run_schedule H is [Trying] h = ([Finished r], h')"
  shows "shared_OnHttpRequestHeaders H n eos h = Some (loop_result r, h')"
  using run_alone [of H "is" h r h'] assms by blast

theorem shared_loop_is_thread_witness:
  "shared_OnHttpRequestHeaders reference_host 0 True started
     = Some (loop_result (Return (10000001, None)),
             snd (run_schedule reference_host [0, 0] [Trying] started))"
  by (rule shared_loop_is_thread [of reference_host "[0, 0]" started "Return (10000001, None)"])
     (simp add: prod_eq_iff started_store reference_fetch reference_commit del: attempt_step.simps(1,2))

text \<open>After \<open>OnVMStart\<close> the counter is at 10000000, whatever it was before, and a request that
  runs alone then returns and makes it 10000001: starting another VM discards what was counted.\<close>

theorem shared_start_then_request:
  assumes "cas_store H view"
    and "view (snd (shared_OnVMStart H sz h)) sharedDataKey = Some (d, c)" and "unat c + 1 < 2 ^ 32"
  shows "d = LittleEndian_PutUint64 10000000
    \<and> (\<exists>h'. shared_OnHttpRequestHeaders H n eos (snd (shared_OnVMStart H sz h)) = Some (Return ActionContinue, h')
         \<and> view h' sharedDataKey = Some (LittleEndian_PutUint64 10000001, c + 1))"
proof -
  let ?h = "snd (shared_OnVMStart H sz h)"
  have start: "d = LittleEndian_PutUint64 10000000 \<and> c \<noteq> 0"
    using cas_store.set_always [OF assms(1), of sharedDataKey "LittleEndian_PutUint64 10000000" h] assms(2)
    by (auto simp: shared_OnVMStart_def sharedDataInitialValue_def)
  then have "increment_fetch H ?h = (Inr (10000001, c), ?h)"
    using cas_store.fetch_counting [OF assms(1), of ?h 10000000 c] assms(2) by simp
  moreover obtain h1 where "increment_commit H 10000001 c ?h = (Return (10000001, None), h1)"
    and "view h1 sharedDataKey = Some (LittleEndian_PutUint64 10000001, c + 1)"
    using cas_store.commit_current [OF assms(1,2) _ assms(3)] start by blast
  ultimately show ?thesis
    using start by (simp add: loop_unfold incrementData_def loop_with_def cas_store.view_log [OF assms(1)])
qed

theorem shared_start_then_request_witness:
  "LittleEndian_PutUint64 10000000 = LittleEndian_PutUint64 10000000
    \<and> (\<exists>h'. shared_OnHttpRequestHeaders reference_host 0 True (snd (shared_OnVMStart reference_host 0 emulator_init))
           = Some (Return ActionContinue, h')
         \<and> em_shared h' sharedDataKey = Some (LittleEndian_PutUint64 10000001, 1 + 1))"
  by (rule shared_start_then_request [OF reference_store.cas_store_axioms])
     (simp_all add: started_store [unfolded started_def])

end
