(* ===== verification/Postpone_Requests.thy ===== *)
theory Postpone_Requests
  imports Reference_Host
begin

text \<open>
  The plugin \<^verbatim>\<open>istio/envoy/wasm-go/postpone_requests/main.go\<close>: a request is paused when its headers
  arrive and resumed at the next tick. The plugin context keeps the ids of the paused requests;
  the http contexts share it by pointer, so it is a state that every callback passes on.
\<close>

definition tickMilliseconds :: uint32 where
  "tickMilliseconds = 1000"

record postpone_pluginContext =
  plugin_contextID :: uint32
  postponed :: "uint32 list"

record postpone_httpContext =
  http_contextID :: uint32

definition postpone_NewPluginContext :: "uint32 \<Rightarrow> postpone_pluginContext" where
  "postpone_NewPluginContext contextID = \<lparr>plugin_contextID = contextID, postponed = []\<rparr>"

definition postpone_OnPluginStart :: "'h host \<Rightarrow> goint \<Rightarrow> 'h \<Rightarrow> start_status \<times> 'h" where
  "postpone_OnPluginStart H pluginConfigurationSize h =
     (case SetTickPeriodMilliSeconds H tickMilliseconds h of
        (Some e, h) \<Rightarrow> (StatusOK, Log H LogCritical (''failed to set tick period: '' @ ErrorString H e) h)
      | (None, h) \<Rightarrow> (StatusOK, h))"

text \<open>The errors of the two host calls are not looked at.\<close>

fun postpone_OnTick_loop :: "'h host \<Rightarrow> uint32 list \<Rightarrow> 'h \<Rightarrow> uint32 list \<times> 'h" where
  "postpone_OnTick_loop H [] h = ([], h)"
| "postpone_OnTick_loop H (httpCtxId # tail) h =
     (let h = Log H LogInfo (''resume request with contextID='' @ dec_word httpCtxId) h;
          (_, h) = SetEffectiveContext H httpCtxId h;
          (_, h) = ResumeHttpRequest H h
      in postpone_OnTick_loop H tail h)"

definition postpone_OnTick :: "'h host \<Rightarrow> postpone_pluginContext \<Rightarrow> 'h \<Rightarrow> postpone_pluginContext \<times> 'h" where
  "postpone_OnTick H ctx h =
     (let (left, h) = postpone_OnTick_loop H (postponed ctx) h in (ctx\<lparr>postponed := left\<rparr>, h))"

definition postpone_NewHttpContext :: "uint32 \<Rightarrow> postpone_httpContext" where
  "postpone_NewHttpContext contextID = \<lparr>http_contextID = contextID\<rparr>"

definition postpone_OnHttpRequestHeaders :: "'h host \<Rightarrow> postpone_httpContext \<Rightarrow> postpone_pluginContext
    \<Rightarrow> goint \<Rightarrow> bool \<Rightarrow> 'h \<Rightarrow> action \<times> postpone_pluginContext \<times> 'h" where
  "postpone_OnHttpRequestHeaders H ctx pluginCtx numHeaders endOfStream h =
     (ActionPause, pluginCtx\<lparr>postponed := postponed pluginCtx @ [http_contextID ctx]\<rparr>,
      Log H LogInfo (''postpone request with contextID='' @ dec_word (http_contextID ctx)) h)"

section \<open>The events of the plugin\<close>

datatype postpone_event = Arrives uint32 | Tick

fun postpone_event_step :: "'h host \<Rightarrow> postpone_event \<Rightarrow> postpone_pluginContext \<times> 'h
    \<Rightarrow> postpone_pluginContext \<times> 'h" where
  "postpone_event_step H (Arrives contextID) (ctx, h) =
     (case postpone_OnHttpRequestHeaders H (postpone_NewHttpContext contextID) ctx 0 True h of (_, ctx, h) \<Rightarrow> (ctx, h))"
| "postpone_event_step H Tick (ctx, h) = postpone_OnTick H ctx h"

definition postpone_run :: "'h host \<Rightarrow> postpone_event list \<Rightarrow> postpone_pluginContext \<times> 'h
    \<Rightarrow> postpone_pluginContext \<times> 'h" where
  "postpone_run H es s = foldl (\<lambda>s e. postpone_event_step H e s) s es"

fun arrivals :: "postpone_event list \<Rightarrow> uint32 list" where
  "arrivals [] = []"
| "arrivals (Arrives c # es) = c # arrivals es"
| "arrivals (Tick # es) = arrivals es"

context resume_host
begin

lemma resume_one:
  "resumed (snd (ResumeHttpRequest H (snd (SetEffectiveContext H c h)))) = resumed h @ [c]"
  using set_effective [of c h] resume [of "snd (SetEffectiveContext H c h)"] by auto

lemma OnTick_loop_resumes:
  "postpone_OnTick_loop H ids h = (left, h') \<Longrightarrow> left = [] \<and> resumed h' = resumed h @ ids"
  by (induction ids arbitrary: h) (auto simp: case_prod_beta resume_one resumed_log)

lemma OnTick_resumes:
  "postponed (fst (postpone_OnTick H ctx h)) = [] \<and> resumed (snd (postpone_OnTick H ctx h)) = resumed h @ postponed ctx"
  using OnTick_loop_resumes [of "postponed ctx" h]
  by (auto simp: postpone_OnTick_def case_prod_beta prod_eq_iff)

lemma postpone_conserves:
  "postpone_run H es (ctx, h) = (ctx', h') \<Longrightarrow>
     resumed h' @ postponed ctx' = resumed h @ postponed ctx @ arrivals es"
  unfolding postpone_run_def
proof (induction es arbitrary: ctx h)
  case (Cons e es)
  obtain ctx1 h1 where step: "postpone_event_step H e (ctx, h) = (ctx1, h1)" by fastforce
  have "resumed h1 @ postponed ctx1 = resumed h @ postponed ctx @ arrivals [e]"
    using step OnTick_resumes [of ctx h]
    by (cases e) (auto simp: postpone_OnHttpRequestHeaders_def postpone_NewHttpContext_def resumed_log)
  moreover have "arrivals (e # es) = arrivals [e] @ arrivals es" by (cases e) auto
  ultimately show ?case using Cons.IH [of ctx1 h1] Cons.prems step by simp
qed auto

lemma postpone_arrivals:
  "postpone_run H (map Arrives cs) (ctx, h) = (ctx', h') \<Longrightarrow>
     resumed h' = resumed h \<and> postponed ctx' = postponed ctx @ cs"
  unfolding postpone_run_def
  by (induction cs arbitrary: ctx h)
     (auto simp: postpone_OnHttpRequestHeaders_def postpone_NewHttpContext_def resumed_log)

end

lemma postpone_run_append:
  "postpone_run H (es @ fs) s = postpone_run H fs (postpone_run H es s)"
  by (simp add: postpone_run_def)

section \<open>Properties\<close>

text \<open>Every request is resumed exactly once, in the order of arrival: after any sequence of
  arrivals and ticks, the requests resumed followed by those still waiting are those that arrived.
  A request waits exactly until the next tick: what is still waiting are the requests that came
  after the last one.\<close>

theorem postpone_resumes_in_order:
  assumes "resume_host H effective resumed" and "resumed h = []"
    and "postpone_run H (es @ [Tick] @ map Arrives cs) (postpone_NewPluginContext pluginID, h) = (ctx', h')"
  shows "resumed h' = arrivals es \<and> postponed ctx' = cs"
proof -
  obtain ctx1 h1 where 1: "postpone_run H es (postpone_NewPluginContext pluginID, h) = (ctx1, h1)" by fastforce
  obtain ctx2 h2 where 2: "postpone_OnTick H ctx1 h1 = (ctx2, h2)" by fastforce
  have "postpone_run H (map Arrives cs) (ctx2, h2) = (ctx', h')"
    using assms(3) 1 2 by (simp add: postpone_run_append) (simp add: postpone_run_def)
  then show ?thesis
    using resume_host.postpone_conserves [OF assms(1) 1] resume_host.OnTick_resumes [OF assms(1), of ctx1 h1]
      resume_host.postpone_arrivals [OF assms(1)] 2 assms(2)
    by (fastforce simp: postpone_NewPluginContext_def)
qed

text \<open>Two requests, a tick, one request that still waits.\<close>

theorem postpone_resumes_in_order_witness:
  "em_resumed_requests (snd (postpone_run reference_host ([Arrives 2, Arrives 5] @ [Tick] @ map Arrives [7])
       (postpone_NewPluginContext 1, emulator_init))) = arrivals [Arrives 2, Arrives 5]
   \<and> postponed (fst (postpone_run reference_host ([Arrives 2, Arrives 5] @ [Tick] @ map Arrives [7])
       (postpone_NewPluginContext 1, emulator_init))) = [7]"
  by (rule postpone_resumes_in_order [OF reference_resume.resume_host_axioms _ surjective_pairing])
     (simp add: emulator_init_def)

end
