(* ===== verification/Multiple_Dispatches.thy ===== *)
theory Multiple_Dispatches
  imports Reference_Host
begin

text \<open>
  The plugin \<^verbatim>\<open>istio/envoy/wasm-go/multiple_dispatches/main.go\<close>: a response is paused while ten HTTP
  calls are made, and resumed when the last of them is answered. The answers arrive later, one
  callback for each, in between anything else that the proxy does: a step relation.
\<close>

definition clusterName :: string where
  "clusterName = ''httpbin''"

definition totalDispatchNum :: goint where
  "totalDispatchNum = 10"

record dispatch_httpContext =
  dispatch_contextID :: uint32
  pendingDispatchedRequest :: goint

definition dispatch_NewHttpContext :: "uint32 \<Rightarrow> dispatch_httpContext" where
  "dispatch_NewHttpContext contextID = \<lparr>dispatch_contextID = contextID, pendingDispatchedRequest = 0\<rparr>"

text \<open>The loop of \<open>OnHttpResponseHeaders\<close>; the first argument is the number of rounds left.\<close>

fun dispatch_loop :: "nat \<Rightarrow> 'h host \<Rightarrow> dispatch_httpContext \<Rightarrow> 'h \<Rightarrow> action outcome \<times> dispatch_httpContext \<times> 'h" where
  "dispatch_loop 0 H ctx h = (Return ActionPause, ctx, h)"
| "dispatch_loop (Suc n) H ctx h =
     (case DispatchHttpCall H clusterName
             [('':path'', ''/''), ('':method'', ''GET''), ('':authority'', '''')] '''' [] 50000 h of
        ((_, Some e), h) \<Rightarrow> (Panic (ErrorString H e), ctx, h)
      | ((_, None), h) \<Rightarrow>
          dispatch_loop n H (ctx\<lparr>pendingDispatchedRequest := pendingDispatchedRequest ctx + 1\<rparr>) h)"

definition dispatch_OnHttpResponseHeaders :: "'h host \<Rightarrow> dispatch_httpContext \<Rightarrow> goint \<Rightarrow> bool \<Rightarrow> 'h
    \<Rightarrow> action outcome \<times> dispatch_httpContext \<times> 'h" where
  "dispatch_OnHttpResponseHeaders H ctx numHeaders endOfStream h = dispatch_loop (unat totalDispatchNum) H ctx h"

text \<open>The errors of the two host calls are not looked at.\<close>

definition dispatchCallback :: "'h host \<Rightarrow> dispatch_httpContext \<Rightarrow> goint \<Rightarrow> goint \<Rightarrow> goint \<Rightarrow> 'h
    \<Rightarrow> dispatch_httpContext \<times> 'h" where
  "dispatchCallback H ctx numHeaders bodySize numTrailers h =
     (let ctx = ctx\<lparr>pendingDispatchedRequest := pendingDispatchedRequest ctx - 1\<rparr>
      in if pendingDispatchedRequest ctx = 0
         then (let (_, h) = AddHttpResponseHeader H ''total-dispatched'' (strconv_Itoa totalDispatchNum) h;
                   (_, h) = ResumeHttpResponse H h
               in (ctx, Log H LogInfo (''response resumed after processed '' @ strconv_Itoa totalDispatchNum
                          @ '' dispatched request'') h))
         else (ctx, Log H LogInfo (''pending dispatched requests: ''
                          @ strconv_Itoa (pendingDispatchedRequest ctx)) h))"

lemma unat_small: "k \<le> 10 \<Longrightarrow> unat (word_of_nat k :: goint) = k"
  by (simp add: unat_of_nat take_bit_nat_eq_self)

lemma reference_dispatch_pauses: "fst (dispatch_loop n reference_host ctx h) = Return ActionPause"
  by (induction n arbitrary: ctx h) (auto simp: reference_host_def)

section \<open>The steps after the calls\<close>

text \<open>
  A state is the context, the number of calls not yet answered, and the host. \<open>others\<close> is what
  the rest of the proxy may do to the host.
\<close>

inductive answer_step :: "'h host \<Rightarrow> ('h \<Rightarrow> 'h \<Rightarrow> bool) \<Rightarrow> dispatch_httpContext \<times> nat \<times> 'h
    \<Rightarrow> dispatch_httpContext \<times> nat \<times> 'h \<Rightarrow> bool" for H others where
  answered: "dispatchCallback H ctx numHeaders bodySize numTrailers h = (ctx', h') \<Longrightarrow>
     answer_step H others (ctx, Suc outstanding, h) (ctx', outstanding, h')"
| other: "others h h' \<Longrightarrow> answer_step H others (ctx, outstanding, h) (ctx, outstanding, h')"

inductive_cases answer_stepE: "answer_step H others s s'"

text \<open>The answers alone, one after the other.\<close>

fun answer_all :: "'h host \<Rightarrow> nat \<Rightarrow> dispatch_httpContext \<Rightarrow> 'h \<Rightarrow> dispatch_httpContext \<times> 'h" where
  "answer_all H 0 ctx h = (ctx, h)"
| "answer_all H (Suc n) ctx h = (let (ctx, h) = dispatchCallback H ctx 0 0 0 h in answer_all H n ctx h)"

lemma answer_all_reachable:
  "answer_all H n ctx h = (ctx', h') \<Longrightarrow>
     (answer_step H others)\<^sup>*\<^sup>* (ctx, n + m, h) (ctx', m, h')"
proof (induction n arbitrary: ctx h)
  case (Suc n)
  obtain ctx1 h1 where "dispatchCallback H ctx 0 0 0 h = (ctx1, h1)" by fastforce
  then show ?case
    using Suc.IH [of ctx1 h1] Suc.prems
    by (auto intro: converse_rtranclp_into_rtranclp answered)
qed simp

context response_host
begin

lemma dispatch_loop_outcome:
  "dispatch_loop n H ctx h = (r, ctx', h') \<Longrightarrow>
     response_headers h' = response_headers h \<and> resumptions h' = resumptions h
     \<and> (\<exists>k \<le> n. callouts h' = callouts h + k
         \<and> ctx' = ctx\<lparr>pendingDispatchedRequest := pendingDispatchedRequest ctx + word_of_nat k\<rparr>
         \<and> (r = Return ActionPause \<longleftrightarrow> k = n) \<and> (r \<noteq> Return ActionPause \<longrightarrow> (\<exists>e. r = Panic (ErrorString H e))))"
proof (induction n arbitrary: ctx h)
  case 0
  then show ?case by simp
next
  case (Suc n)
  obtain i e h1 where call: "DispatchHttpCall H clusterName
      [('':path'', ''/''), ('':method'', ''GET''), ('':authority'', '''')] '''' [] 50000 h = ((i, e), h1)"
    using prod_cases3 by (metis surj_pair)
  show ?case
  proof (cases e)
    case (Some err)
    then show ?thesis
      using Suc.prems callout [OF call] by (auto simp: call intro!: exI [of _ 0])
  next
    case None
    let ?ctx = "ctx\<lparr>pendingDispatchedRequest := pendingDispatchedRequest ctx + 1\<rparr>"
    have "dispatch_loop n H ?ctx h1 = (r, ctx', h')"
      using Suc.prems None by (simp add: call)
    from Suc.IH [OF this] obtain k where "k \<le> n" "callouts h' = callouts h1 + k"
      "ctx' = ctx\<lparr>pendingDispatchedRequest := pendingDispatchedRequest ctx + 1 + word_of_nat k\<rparr>"
      "(r = Return ActionPause) = (k = n)" "r \<noteq> Return ActionPause \<longrightarrow> (\<exists>e. r = Panic (ErrorString H e))"
      "response_headers h' = response_headers h1" "resumptions h' = resumptions h1"
      by auto
    then show ?thesis
      using callout [OF call] None by (intro conjI exI [of _ "Suc k"]) (auto simp: add_ac)
  qed
qed

text \<open>With \<open>k\<close> answers to come the counter is \<open>k\<close>, and the response goes on exactly at zero.\<close>

definition answering :: "headers \<Rightarrow> nat \<Rightarrow> dispatch_httpContext \<times> nat \<times> 'h \<Rightarrow> bool" where
  "answering hs n s =
     (case s of (ctx, k, h) \<Rightarrow>
        pendingDispatchedRequest ctx = word_of_nat k \<and> k \<le> 10
        \<and> response_headers h = hs @ (if k = 0 then [(''total-dispatched'', ''10'')] else [])
        \<and> resumptions h = n + (if k = 0 then 1 else 0))"

lemma callback_last:
  assumes "pendingDispatchedRequest ctx = 1"
  shows "\<exists>h'. dispatchCallback H ctx a b c h = (ctx\<lparr>pendingDispatchedRequest := 0\<rparr>, h')
    \<and> response_headers h' = response_headers h @ [(''total-dispatched'', ''10'')]
    \<and> resumptions h' = Suc (resumptions h)"
proof -
  obtain h1 where h1: "AddHttpResponseHeader H ''total-dispatched'' ''10'' h = (None, h1)"
    "response_headers h1 = response_headers h @ [(''total-dispatched'', ''10'')]" "resumptions h1 = resumptions h"
    using add_header by blast
  obtain h2 where h2: "ResumeHttpResponse H h1 = (None, h2)" "response_headers h2 = response_headers h1"
    "resumptions h2 = Suc (resumptions h1)"
    using resume_response by blast
  show ?thesis
    using assms h1 h2 by (simp add: dispatchCallback_def Let_def totalDispatchNum_def itoa_10 response_log)
qed

lemma callback_pending:
  assumes "pendingDispatchedRequest ctx \<noteq> 1"
  shows "\<exists>h'. dispatchCallback H ctx a b c h
      = (ctx\<lparr>pendingDispatchedRequest := pendingDispatchedRequest ctx - 1\<rparr>, h')
    \<and> response_headers h' = response_headers h \<and> resumptions h' = resumptions h"
  using assms by (simp add: dispatchCallback_def Let_def response_log)

lemma answer_step_answering:
  assumes "answer_step H others s s'" and "answering hs n s"
    and "\<And>h h'. others h h' \<Longrightarrow> response_headers h' = response_headers h \<and> resumptions h' = resumptions h"
  shows "answering hs n s'"
  using assms(1)
proof (cases rule: answer_stepE [consumes 1, case_names answered other])
  case (answered ctx a b c h ctx' h' k)
  have k: "pendingDispatchedRequest ctx = word_of_nat (Suc k)" "Suc k \<le> 10"
    using assms(2) answered(1) by (simp_all add: answering_def)
  show ?thesis
  proof (cases "k = 0")
    case True
    then show ?thesis
      using callback_last [of ctx a b c h] assms(2) answered k by (auto simp: answering_def)
  next
    case False
    have "(word_of_nat (Suc k) :: goint) \<noteq> 1"
      using k(2) False by (auto dest!: arg_cong [of _ _ unat] simp: unat_small)
    then show ?thesis
      using callback_pending [of ctx a b c h] assms(2) answered k False by (auto simp: answering_def)
  qed
next
  case (other h h' ctx k)
  then show ?thesis using assms(2,3) by (auto simp: answering_def)
qed

lemma answering_invariant:
  assumes "(answer_step H others)\<^sup>*\<^sup>* s s'" and "answering hs n s"
    and "\<And>h h'. others h h' \<Longrightarrow> response_headers h' = response_headers h \<and> resumptions h' = resumptions h"
  shows "answering hs n s'"
  using assms(1)
  by (induction rule: rtranclp_induct) (auto intro: assms(2) answer_step_answering [OF _ _ assms(3)])

end

section \<open>Properties\<close>

text \<open>A response handler that pauses has made ten calls and has left the response alone; one
  that panics does so because the proxy refused a call, after fewer than ten.\<close>

theorem dispatch_makes_ten_calls:
  assumes "response_host H response_headers resumptions callouts"
  shows "case dispatch_OnHttpResponseHeaders H (dispatch_NewHttpContext c) n eos h of (r, ctx', h') \<Rightarrow>
      response_headers h' = response_headers h \<and> resumptions h' = resumptions h
      \<and> callouts h' = callouts h + unat (pendingDispatchedRequest ctx')
      \<and> (case r of Return a \<Rightarrow> a = ActionPause \<and> pendingDispatchedRequest ctx' = 10
                 | Panic m \<Rightarrow> unat (pendingDispatchedRequest ctx') < 10 \<and> (\<exists>e. m = ErrorString H e))"
proof -
  obtain r ctx' h' where run: "dispatch_loop 10 H (dispatch_NewHttpContext c) h = (r, ctx', h')"
    using prod_cases3 by blast
  obtain k where k: "k \<le> 10" "callouts h' = callouts h + k" "pendingDispatchedRequest ctx' = word_of_nat k"
    "(r = Return ActionPause) = (k = 10)" "r \<noteq> Return ActionPause \<longrightarrow> (\<exists>e. r = Panic (ErrorString H e))"
    "response_headers h' = response_headers h" "resumptions h' = resumptions h"
    using response_host.dispatch_loop_outcome [OF assms run] by (auto simp: dispatch_NewHttpContext_def) blast
  have "unat (word_of_nat k :: goint) = k"
    using k(1) by (rule unat_small)
  then show ?thesis
    using k run by (cases "k = 10") (auto simp: dispatch_OnHttpResponseHeaders_def totalDispatchNum_def)
qed

theorem dispatch_makes_ten_calls_witness:
  "case dispatch_OnHttpResponseHeaders reference_host (dispatch_NewHttpContext 3) 1 True emulator_init of (r, ctx', h') \<Rightarrow>
      em_response_headers h' = em_response_headers emulator_init
      \<and> length (em_resumed_responses h') = length (em_resumed_responses emulator_init)
      \<and> length (em_callouts h') = length (em_callouts emulator_init) + unat (pendingDispatchedRequest ctx')
      \<and> (case r of Return a \<Rightarrow> a = ActionPause \<and> pendingDispatchedRequest ctx' = 10
                 | Panic m \<Rightarrow> unat (pendingDispatchedRequest ctx') < 10 \<and> (\<exists>e. m = ErrorString reference_host e))"
  by (rule dispatch_makes_ten_calls [OF reference_callouts.response_host_axioms])

text \<open>C7: The response is resumed exactly once, at the tenth answer: as long as answers are missing
  the counter is their number and the response is neither changed nor resumed; once none is
  missing it has the header \<open>total-dispatched: 10\<close> and has been resumed once. What the rest of the
  proxy does in between leaves this response alone.\<close>

theorem dispatch_resumes_once:
  assumes "response_host H response_headers resumptions callouts"
    and "\<And>h h'. others h h' \<Longrightarrow> response_headers h' = response_headers h \<and> resumptions h' = resumptions h"
    and "dispatch_OnHttpResponseHeaders H (dispatch_NewHttpContext c) n eos h = (Return ActionPause, ctx, h1)"
    and "(answer_step H others)\<^sup>*\<^sup>* (ctx, 10, h1) (ctx', missing, h')"
  shows "pendingDispatchedRequest ctx' = word_of_nat missing
    \<and> response_headers h' = response_headers h @ (if missing = 0 then [(''total-dispatched'', ''10'')] else [])
    \<and> resumptions h' = resumptions h + (if missing = 0 then 1 else 0)"
proof -
  have "dispatch_loop 10 H (dispatch_NewHttpContext c) h = (Return ActionPause, ctx, h1)"
    using assms(3) by (simp add: dispatch_OnHttpResponseHeaders_def totalDispatchNum_def)
  from response_host.dispatch_loop_outcome [OF assms(1) this]
  have "response_host.answering response_headers resumptions (response_headers h) (resumptions h) (ctx, 10, h1)"
    by (auto simp: response_host.answering_def [OF assms(1)] dispatch_NewHttpContext_def)
  from response_host.answering_invariant [OF assms(1,4) this assms(2)]
  show ?thesis by (simp add: response_host.answering_def [OF assms(1)])
qed

theorem dispatch_resumes_once_witness:
  "case dispatch_OnHttpResponseHeaders reference_host (dispatch_NewHttpContext 3) 1 True emulator_init of (r, ctx, h1) \<Rightarrow>
     (case answer_all reference_host 10 ctx h1 of (ctx', h') \<Rightarrow>
       pendingDispatchedRequest ctx' = word_of_nat 0
       \<and> em_response_headers h' = em_response_headers emulator_init
            @ (if 0 = (0::nat) then [(''total-dispatched'', ''10'')] else [])
       \<and> length (em_resumed_responses h') = length (em_resumed_responses emulator_init) + (if 0 = (0::nat) then 1 else 0))"
proof -
  obtain r ctx h1 where r: "dispatch_OnHttpResponseHeaders reference_host (dispatch_NewHttpContext 3) 1 True emulator_init
      = (r, ctx, h1)" using prod_cases3 by blast
  then have pause: "r = Return ActionPause"
    using reference_dispatch_pauses by (metis dispatch_OnHttpResponseHeaders_def fst_conv)
  obtain ctx' h' where run: "answer_all reference_host 10 ctx h1 = (ctx', h')" by fastforce
  show ?thesis
    using dispatch_resumes_once [OF reference_callouts.response_host_axioms _ r [unfolded pause],
        of "\<lambda>_ _. False" ctx' 0 h'] answer_all_reachable [OF run, of "\<lambda>_ _. False" 0] r run
    by simp
qed

end
