(* ===== verification/Shared_Queue.thy ===== *)
theory Shared_Queue
  imports Reference_Host
begin

text \<open>
  The plugins \<^verbatim>\<open>istio/envoy/wasm-go/shared_queue/sender/main.go\<close> and
  \<^verbatim>\<open>istio/envoy/wasm-go/shared_queue/receiver/main.go\<close>: the sender puts each request or response
  header, or the hash of each TCP data frame, into a queue that the receiver has registered, and
  the receiver logs what it takes out. Their properties rest on the contract \<open>shared_queues\<close>.
\<close>

section \<open>The sender\<close>

definition receiverVMID :: string where
  "receiverVMID = ''receiver''"

record senderPluginContext =
  sender_config :: string
  sender_contextID :: uint32

record senderHttpContext =
  sender_http_contextID :: uint32
  requestHeadersQueueID :: uint32
  responseHeadersQueueID :: uint32

record senderTcpContext =
  tcpHashesQueueID :: uint32
  sender_tcp_contextID :: uint32

definition sender_NewPluginContext :: "uint32 \<Rightarrow> senderPluginContext" where
  "sender_NewPluginContext contextID = \<lparr>sender_config = '''', sender_contextID = contextID\<rparr>"

definition sender_OnPluginStart :: "'h host \<Rightarrow> senderPluginContext \<Rightarrow> goint \<Rightarrow> 'h
    \<Rightarrow> start_status outcome \<times> senderPluginContext \<times> 'h" where
  "sender_OnPluginStart H ctx pluginConfigurationSize h =
     (case GetPluginConfiguration H h of
        (_, Some e) \<Rightarrow> (Panic (''failed to get plugin config: '' @ ErrorString H e), ctx, h)
      | (config, None) \<Rightarrow>
          (let ctx = ctx\<lparr>sender_config := go_string config\<rparr>
           in (Return StatusOK, ctx,
               Log H LogInfo (''contextID='' @ dec_word (sender_contextID ctx) @ '' is configured for ''
                 @ sender_config ctx) h)))"

text \<open>The error of a resolution is logged, and the code goes on with the id it got.\<close>

definition resolve_logged :: "'h host \<Rightarrow> string \<Rightarrow> 'h \<Rightarrow> uint32 \<times> 'h" where
  "resolve_logged H name h =
     (case ResolveSharedQueue H receiverVMID name h of
        (q, None) \<Rightarrow> (q, h)
      | (q, Some e) \<Rightarrow> (q, Log H LogCritical (''error resolving queue id: '' @ ErrorString H e) h))"

definition sender_NewHttpContext :: "'h host \<Rightarrow> senderPluginContext \<Rightarrow> uint32 \<Rightarrow> 'h
    \<Rightarrow> senderHttpContext option \<times> 'h" where
  "sender_NewHttpContext H ctx contextID h =
     (if sender_config ctx \<noteq> ''http'' then (None, h)
      else (let (req, h) = resolve_logged H ''http_request_headers'' h;
                (resp, h) = resolve_logged H ''http_response_headers'' h
            in (Some \<lparr>sender_http_contextID = contextID, requestHeadersQueueID = req,
                      responseHeadersQueueID = resp\<rparr>, h)))"

text \<open>The format is \<open>{"key": "%s","value": "%s"}\<close>.\<close>

definition queue_message :: "string \<times> string \<Rightarrow> string" where
  "queue_message kv =
     ''{'' @ [CHR 0x22] @ ''key'' @ [CHR 0x22] @ '': '' @ [CHR 0x22] @ fst kv @ [CHR 0x22] @ '',''
     @ [CHR 0x22] @ ''value'' @ [CHR 0x22] @ '': '' @ [CHR 0x22] @ snd kv @ [CHR 0x22] @ ''}''"

fun enqueue_loop :: "'h host \<Rightarrow> uint32 \<Rightarrow> string \<Rightarrow> headers \<Rightarrow> 'h \<Rightarrow> 'h" where
  "enqueue_loop H q before [] h = h"
| "enqueue_loop H q before (kv # kvs) h =
     (let msg = queue_message kv
      in case EnqueueSharedQueue H q msg h of
           (Some e, h) \<Rightarrow> enqueue_loop H q before kvs (Log H LogCritical (''error queueing: '' @ ErrorString H e) h)
         | (None, h) \<Rightarrow> enqueue_loop H q before kvs (Log H LogInfo (before @ ''enqueued data: '' @ msg) h))"

definition sender_OnHttpRequestHeaders :: "'h host \<Rightarrow> senderHttpContext \<Rightarrow> goint \<Rightarrow> bool \<Rightarrow> 'h \<Rightarrow> action \<times> 'h" where
  "sender_OnHttpRequestHeaders H ctx numHeaders endOfStream h =
     (let (headers, err) = GetHttpRequestHeaders H h;
          h = (case err of None \<Rightarrow> h
               | Some e \<Rightarrow> Log H LogCritical (''error getting request headers: '' @ ErrorString H e) h)
      in (ActionContinue, enqueue_loop H (requestHeadersQueueID ctx) '''' headers h))"

definition sender_OnHttpResponseHeaders :: "'h host \<Rightarrow> senderHttpContext \<Rightarrow> goint \<Rightarrow> bool \<Rightarrow> 'h \<Rightarrow> action \<times> 'h" where
  "sender_OnHttpResponseHeaders H ctx numHeaders endOfStream h =
     (let (headers, err) = GetHttpResponseHeaders H h;
          h = (case err of None \<Rightarrow> h
               | Some e \<Rightarrow> Log H LogCritical (''error getting response headers: '' @ ErrorString H e) h)
      in (ActionContinue, enqueue_loop H (responseHeadersQueueID ctx)
            (''(contextID='' @ dec_word (sender_http_contextID ctx) @ '') '') headers h))"

definition sender_NewTcpContext :: "'h host \<Rightarrow> senderPluginContext \<Rightarrow> uint32 \<Rightarrow> 'h
    \<Rightarrow> senderTcpContext option \<times> 'h" where
  "sender_NewTcpContext H ctx contextID h =
     (if sender_config ctx \<noteq> ''tcp'' then (None, h)
      else (let (q, h) = resolve_logged H ''tcp_data_hashes'' h
            in (Some \<lparr>tcpHashesQueueID = q, sender_tcp_contextID = contextID\<rparr>, h)))"

definition sender_OnUpstreamData :: "'h host \<Rightarrow> senderTcpContext \<Rightarrow> goint \<Rightarrow> bool \<Rightarrow> 'h \<Rightarrow> action \<times> 'h" where
  "sender_OnUpstreamData H ctx dataSize endOfStream h =
     (if dataSize = 0 then (ActionContinue, h)
      else
        (let (data, err) = GetUpstreamData H 0 dataSize h;
             h = (if err \<noteq> None \<and> err \<noteq> Some ErrorStatusNotFound
                  then Log H LogCritical (ErrorString H (the err)) h else h);
             hash = hex_EncodeToString (fnv128a_Sum data)
         in case EnqueueSharedQueue H (tcpHashesQueueID ctx) hash h of
              (Some e, h) \<Rightarrow> (ActionContinue, Log H LogCritical (''error queueing: '' @ ErrorString H e) h)
            | (None, h) \<Rightarrow> (ActionContinue, Log H LogInfo (''(contextID=''
                  @ dec_word (sender_tcp_contextID ctx) @ '') enqueued data: '' @ hash) h)))"

section \<open>The receiver\<close>

record receiverPluginContext =
  receiver_contextID :: uint32
  queueName :: string

definition receiver_NewPluginContext :: "uint32 \<Rightarrow> receiverPluginContext" where
  "receiver_NewPluginContext contextID = \<lparr>receiver_contextID = contextID, queueName = ''''\<rparr>"

definition receiver_OnPluginStart :: "'h host \<Rightarrow> receiverPluginContext \<Rightarrow> goint \<Rightarrow> 'h
    \<Rightarrow> start_status outcome \<times> receiverPluginContext \<times> 'h" where
  "receiver_OnPluginStart H ctx pluginConfigurationSize h =
     (case GetPluginConfiguration H h of
        (_, Some e) \<Rightarrow> (Panic (''failed to get plugin config: '' @ ErrorString H e), ctx, h)
      | (config, None) \<Rightarrow>
          (let ctx = ctx\<lparr>queueName := go_string config\<rparr>
           in case RegisterSharedQueue H (queueName ctx) h of
                ((_, Some e), h) \<Rightarrow> (Panic ''failed register queue'', ctx, h)
              | ((queueID, None), h) \<Rightarrow>
                  (Return StatusOK, ctx, Log H LogInfo (''queue '' @ [CHR 0x22] @ queueName ctx @ [CHR 0x22]
                     @ '' registered as queueID='' @ dec_word queueID
                     @ '' by contextID='' @ dec_word (receiver_contextID ctx)) h)))"

definition dequeued_line :: "receiverPluginContext \<Rightarrow> uint32 \<Rightarrow> string \<Rightarrow> log_level \<times> string" where
  "dequeued_line ctx queueID data =
     (LogInfo, ''(contextID='' @ dec_word (receiver_contextID ctx) @ '') dequeued data from ''
        @ queueName ctx @ ''(queueID='' @ dec_word queueID @ ''): '' @ data)"

definition receiver_OnQueueReady :: "'h host \<Rightarrow> receiverPluginContext \<Rightarrow> uint32 \<Rightarrow> 'h \<Rightarrow> 'h" where
  "receiver_OnQueueReady H ctx queueID h =
     (let ((data, err), h) = DequeueSharedQueue H queueID h
      in if err = Some ErrorStatusEmpty then h
         else (case err of
                 None \<Rightarrow> (case dequeued_line ctx queueID data of (l, m) \<Rightarrow> Log H l m h)
               | Some e \<Rightarrow> Log H LogCritical (''error retrieving data from queue '' @ dec_word queueID
                            @ '': '' @ ErrorString H e) h))"

section \<open>Requests and notifications\<close>

text \<open>
  The two plugins at work on one queue: a request arrives at the sender, or the host tells the
  receiver that the queue is ready. \<open>logged\<close> reads the host's log; the run returns the lines
  that the receiver logged.
\<close>

datatype queue_event = RequestArrives headers | QueueReady

fun queue_event_step :: "'h host \<Rightarrow> (headers \<Rightarrow> 'h \<Rightarrow> 'h) \<Rightarrow> ('h \<Rightarrow> (log_level \<times> string) list)
    \<Rightarrow> senderHttpContext \<Rightarrow> receiverPluginContext \<Rightarrow> queue_event \<Rightarrow> 'h \<Rightarrow> (log_level \<times> string) list \<times> 'h" where
  "queue_event_step H arrive logged s r (RequestArrives hs) h =
     ([], snd (sender_OnHttpRequestHeaders H s (word_of_nat (length hs)) False (arrive hs h)))"
| "queue_event_step H arrive logged s r QueueReady h =
     (let h' = receiver_OnQueueReady H r (requestHeadersQueueID s) h in (drop (length (logged h)) (logged h'), h'))"

fun queue_run :: "'h host \<Rightarrow> (headers \<Rightarrow> 'h \<Rightarrow> 'h) \<Rightarrow> ('h \<Rightarrow> (log_level \<times> string) list)
    \<Rightarrow> senderHttpContext \<Rightarrow> receiverPluginContext \<Rightarrow> queue_event list \<Rightarrow> 'h \<Rightarrow> (log_level \<times> string) list \<times> 'h" where
  "queue_run H arrive logged s r [] h = ([], h)"
| "queue_run H arrive logged s r (e # es) h =
     (let (l1, h) = queue_event_step H arrive logged s r e h;
          (l2, h) = queue_run H arrive logged s r es h
      in (l1 @ l2, h))"

fun sent_headers :: "queue_event list \<Rightarrow> headers" where
  "sent_headers [] = []"
| "sent_headers (RequestArrives hs # es) = hs @ sent_headers es"
| "sent_headers (QueueReady # es) = sent_headers es"

lemma quote_split:
  "k @ CHR 0x22 # r = k' @ CHR 0x22 # r' \<Longrightarrow> CHR 0x22 \<notin> set k \<Longrightarrow> CHR 0x22 \<notin> set k' \<Longrightarrow> k = k' \<and> r = r'"
proof (induction k arbitrary: k')
  case Nil
  then show ?case by (cases k') auto
next
  case (Cons c k)
  then show ?case by (cases k') auto
qed

context shared_queues
begin

lemma enqueue_loop_queue:
  "queue h q = Some items \<Longrightarrow>
     queue (enqueue_loop H q before kvs h) = (queue h)(q \<mapsto> items @ map queue_message kvs)"
proof (induction kvs arbitrary: h items)
  case Nil
  then show ?case by (simp add: fun_upd_idem)
next
  case (Cons kv kvs)
  obtain h1 where "EnqueueSharedQueue H q (queue_message kv) h = (None, h1)"
    "queue h1 = (queue h)(q \<mapsto> items @ [queue_message kv])"
    using enqueue [OF Cons.prems] by blast
  then show ?case
    using Cons.IH [of "Log H LogInfo (before @ ''enqueued data: '' @ queue_message kv) h1"]
    by (simp add: queue_log fun_eq_iff)
qed

lemma request_enqueues:
  "queue h (requestHeadersQueueID s) = Some items \<Longrightarrow>
     queue (snd (sender_OnHttpRequestHeaders H s n eos (arrive hs h))) (requestHeadersQueueID s)
       = Some (items @ map queue_message hs)"
  by (simp add: sender_OnHttpRequestHeaders_def queue_arrive enqueue_loop_queue)

lemma ready_dequeues:
  assumes "queue h q = Some items"
  shows "\<exists>taken rest. items = taken @ rest
    \<and> logged (receiver_OnQueueReady H r q h) = logged h @ map (dequeued_line r q) taken
    \<and> queue (receiver_OnQueueReady H r q h) q = Some rest"
proof (cases items)
  case Nil
  with assms obtain d h1 where "DequeueSharedQueue H q h = ((d, Some ErrorStatusEmpty), h1)"
    "queue h1 = queue h" "logged h1 = logged h"
    using dequeue_empty by blast
  with Nil assms show ?thesis by (simp add: receiver_OnQueueReady_def)
next
  case (Cons d rest)
  with assms obtain h1 where "DequeueSharedQueue H q h = ((d, None), h1)"
    "queue h1 = (queue h)(q \<mapsto> rest)" "logged h1 = logged h"
    using dequeue by blast
  with Cons show ?thesis
    by (intro exI [of _ "[d]"] exI [of _ rest])
       (simp add: receiver_OnQueueReady_def queue_log dequeued_line_def)
qed

lemma queue_run_fifo:
  assumes "queue h (requestHeadersQueueID s) = Some items"
    and "queue_run H arrive logged s r es h = (ls, h')"
  shows "\<exists>taken rest. items @ map queue_message (sent_headers es) = taken @ rest
    \<and> ls = map (dequeued_line r (requestHeadersQueueID s)) taken
    \<and> queue h' (requestHeadersQueueID s) = Some rest"
  using assms
proof (induction es arbitrary: h items ls)
  case Nil
  then show ?case by (auto intro: exI [of _ "[]"])
next
  case (Cons e es)
  let ?q = "requestHeadersQueueID s"
  obtain l1 h1 where e: "queue_event_step H arrive logged s r e h = (l1, h1)" by fastforce
  obtain l2 where run: "queue_run H arrive logged s r es h1 = (l2, h')" and ls: "ls = l1 @ l2"
    using Cons.prems(2) e by (auto split: prod.splits)
  obtain taken rest where 1: "items @ map queue_message (sent_headers [e]) = taken @ rest"
    "l1 = map (dequeued_line r ?q) taken" "queue h1 ?q = Some rest"
  proof (cases e)
    case (RequestArrives hs)
    then show ?thesis
      using that [of "[]"] e request_enqueues [OF Cons.prems(1), of "word_of_nat (length hs)" False hs] by auto
  next
    case QueueReady
    then show ?thesis
      using that e ready_dequeues [OF Cons.prems(1), of r] by (auto simp: Let_def)
  qed
  have "sent_headers (e # es) = sent_headers [e] @ sent_headers es" by (cases e) auto
  with 1 Cons.IH [OF 1(3) run] ls show ?case
    by (clarsimp simp flip: append_assoc) (metis append_assoc map_append)
qed

end

section \<open>Properties\<close>

text \<open>C5: No header is lost, duplicated or reordered on its way: after any interleaving of requests at
  the sender and notifications at the receiver, what the receiver has logged, followed by what is
  still in the queue, is what the queue held at first followed by one message for each header of
  each request, in order.\<close>

theorem queue_delivers_in_order:
  assumes "shared_queues H vm enter arrive id_of queue logged"
    and "queue h (requestHeadersQueueID s) = Some items"
  shows "case queue_run H arrive logged s r es h of (ls, h') \<Rightarrow>
    \<exists>taken rest. items @ map queue_message (sent_headers es) = taken @ rest
      \<and> ls = map (dequeued_line r (requestHeadersQueueID s)) taken
      \<and> queue h' (requestHeadersQueueID s) = Some rest"
  using shared_queues.queue_run_fifo [OF assms] by (auto split: prod.split)

definition one_queue :: emulator where
  "one_queue = emulator_init\<lparr>em_queues := [((''receiver'', ''http_request_headers''), [])]\<rparr>"

theorem queue_delivers_in_order_witness:
  "case queue_run reference_host em_arrive em_logs
        \<lparr>sender_http_contextID = 2, requestHeadersQueueID = 1, responseHeadersQueueID = 0\<rparr>
        \<lparr>receiver_contextID = 1, queueName = ''http_request_headers''\<rparr>
        [RequestArrives [(''a'', ''1''), (''b'', ''2'')], QueueReady] one_queue of (ls, h') \<Rightarrow>
    \<exists>taken rest. [] @ map queue_message (sent_headers [RequestArrives [(''a'', ''1''), (''b'', ''2'')], QueueReady])
          = taken @ rest
      \<and> ls = map (dequeued_line \<lparr>receiver_contextID = 1, queueName = ''http_request_headers''\<rparr>
               (requestHeadersQueueID \<lparr>sender_http_contextID = 2, requestHeadersQueueID = 1, responseHeadersQueueID = 0\<rparr>)) taken
      \<and> em_queue h' (requestHeadersQueueID
               \<lparr>sender_http_contextID = 2, requestHeadersQueueID = 1, responseHeadersQueueID = 0\<rparr>) = Some rest"
  by (rule queue_delivers_in_order [OF reference_queues.shared_queues_axioms])
     (simp add: one_queue_def em_queue_def)

text \<open>Sender and receiver meet: if a receiver with the VM id \<open>receiver\<close> starts with the name
  \<open>http_request_headers\<close> as its configuration, it registers some queue, or panics; and the http
  contexts that a sender configured for http then makes in any VM enqueue into just that queue.
  A plugin that is not configured for http makes no http context.\<close>

theorem queue_rendezvous:
  assumes "shared_queues H vm enter arrive id_of queue logged" and "vm h = ''receiver''"
    and "GetPluginConfiguration H h = (Some ''http_request_headers'', None)"
  shows "case receiver_OnPluginStart H (receiver_NewPluginContext c) n h of (r, ctx, h') \<Rightarrow>
    (case r of
       Panic m \<Rightarrow> m = ''failed register queue''
     | Return status \<Rightarrow> status = StatusOK \<and> queueName ctx = ''http_request_headers''
        \<and> (\<exists>q. fst (fst (RegisterSharedQueue H ''http_request_headers'' h)) = q
            \<and> (case fst (sender_NewHttpContext H sctx k (enter v h')) of
                 None \<Rightarrow> sender_config sctx \<noteq> ''http''
               | Some s \<Rightarrow> sender_config sctx = ''http'' \<and> requestHeadersQueueID s = q
                           \<and> sender_http_contextID s = k)))"
proof -
  obtain q e h1 where r: "RegisterSharedQueue H ''http_request_headers'' h = ((q, e), h1)"
    by (metis surj_pair)
  show ?thesis
  proof (cases e)
    case None
    note id = shared_queues.register [OF assms(1) r [unfolded None]]
    have "ResolveSharedQueue H ''receiver'' ''http_request_headers'' (enter v (Log H l m h1)) = (q, None)" for l m
      by (rule shared_queues.resolve [OF assms(1)])
         (use id in \<open>simp add: shared_queues.queue_log [OF assms(1)] shared_queues.queue_enter [OF assms(1)] assms(2)\<close>)
    then show ?thesis
      using r None
      by (simp add: receiver_OnPluginStart_def assms(3) receiver_NewPluginContext_def sender_NewHttpContext_def
          resolve_logged_def receiverVMID_def case_prod_beta split: option.split)
  next
    case (Some e)
    with r show ?thesis
      by (simp add: receiver_OnPluginStart_def assms(3) receiver_NewPluginContext_def)
  qed
qed

definition receiver_vm :: emulator where
  "receiver_vm = emulator_init\<lparr>em_vm_id := ''receiver'', em_plugin_config := Some ''http_request_headers''\<rparr>"

theorem queue_rendezvous_witness:
  "case receiver_OnPluginStart reference_host (receiver_NewPluginContext 1) 20 receiver_vm of (r, ctx, h') \<Rightarrow>
    (case r of
       Panic m \<Rightarrow> m = ''failed register queue''
     | Return status \<Rightarrow> status = StatusOK \<and> queueName ctx = ''http_request_headers''
        \<and> (\<exists>q. fst (fst (RegisterSharedQueue reference_host ''http_request_headers'' receiver_vm)) = q
            \<and> (case fst (sender_NewHttpContext reference_host \<lparr>sender_config = ''http'', sender_contextID = 1\<rparr> 2
                    (em_enter ''sender'' h')) of
                 None \<Rightarrow> sender_config \<lparr>sender_config = ''http'', sender_contextID = 1\<rparr> \<noteq> ''http''
               | Some s \<Rightarrow> sender_config \<lparr>sender_config = ''http'', sender_contextID = 1\<rparr> = ''http''
                   \<and> requestHeadersQueueID s = q \<and> sender_http_contextID s = 2)))"
  by (rule queue_rendezvous [OF reference_queues.shared_queues_axioms])
     (simp_all add: receiver_vm_def reference_host_def)

text \<open>C35: For each data frame that is not empty the queue gets 32 hexadecimal digits: the FNV-1a hash of
  the frame over 128-bit integers, most significant byte first. Two frames leave the same entry
  exactly when their hashes are equal. An empty frame leaves nothing.\<close>

theorem tcp_hash_enqueued:
  assumes "shared_queues H vm enter arrive id_of queue logged"
    and "queue h (tcpHashesQueueID ctx) = Some items"
    and "GetUpstreamData H 0 n h = (data, None)"
  shows "queue (snd (sender_OnUpstreamData H ctx n eos h)) (tcpHashesQueueID ctx) =
      Some (items @ (if n = 0 then [] else [hex_EncodeToString (be_encode 16 (nat (fnv1a_128 data)))]))
    \<and> length (hex_EncodeToString (be_encode 16 (nat (fnv1a_128 data)))) = 32
    \<and> (hex_EncodeToString (fnv128a_Sum data) = hex_EncodeToString (fnv128a_Sum data')
        \<longleftrightarrow> fnv128a_Sum data = fnv128a_Sum data')"
proof -
  obtain h1 where "EnqueueSharedQueue H (tcpHashesQueueID ctx)
        (hex_EncodeToString (be_encode 16 (nat (fnv1a_128 data)))) h = (None, h1)"
    and "queue h1 = (queue h)(tcpHashesQueueID ctx \<mapsto>
        items @ [hex_EncodeToString (be_encode 16 (nat (fnv1a_128 data)))])"
    using shared_queues.enqueue [OF assms(1,2)] by blast
  then have "queue (snd (sender_OnUpstreamData H ctx n eos h)) (tcpHashesQueueID ctx) =
      Some (items @ (if n = 0 then [] else [hex_EncodeToString (be_encode 16 (nat (fnv1a_128 data)))]))"
    using assms(2,3)
    by (simp add: sender_OnUpstreamData_def Let_def fnv128a_Sum_correct shared_queues.queue_log [OF assms(1)])
  then show ?thesis using hex_inj by auto
qed

theorem tcp_hash_enqueued_witness:
  "em_queue (snd (sender_OnUpstreamData reference_host \<lparr>tcpHashesQueueID = 1, sender_tcp_contextID = 3\<rparr> 2 True
        (one_queue\<lparr>em_upstream := ''hi''\<rparr>))) (tcpHashesQueueID \<lparr>tcpHashesQueueID = 1, sender_tcp_contextID = 3\<rparr>) =
      Some ([] @ (if 2 = (0 :: goint) then [] else [hex_EncodeToString (be_encode 16 (nat (fnv1a_128 ''hi'')))]))
    \<and> length (hex_EncodeToString (be_encode 16 (nat (fnv1a_128 ''hi'')))) = 32
    \<and> (hex_EncodeToString (fnv128a_Sum ''hi'') = hex_EncodeToString (fnv128a_Sum ''ho'')
        \<longleftrightarrow> fnv128a_Sum ''hi'' = fnv128a_Sum ''ho'')"
  by (rule tcp_hash_enqueued [OF reference_queues.shared_queues_axioms])
     (simp_all add: one_queue_def em_queue_def reference_simps)

text \<open>The messages are not JSON in general: nothing is escaped, so a header whose name contains
  quotes can leave the message of another one. Two headers without quotes in their names never do.\<close>

theorem queue_message_ambiguous:
  "queue_message (''a'', ''b'' @ [CHR 0x22] @ '','' @ [CHR 0x22] @ ''value'' @ [CHR 0x22] @ '': '' @ [CHR 0x22] @ ''c'')
     = queue_message (''a'' @ [CHR 0x22] @ '','' @ [CHR 0x22] @ ''value'' @ [CHR 0x22] @ '': '' @ [CHR 0x22] @ ''b'', ''c'')
   \<and> (if CHR 0x22 \<in> set k \<union> set k' then True
      else queue_message (k, v) = queue_message (k', v') \<longleftrightarrow> k = k' \<and> v = v')"
proof -
  have "queue_message (k, v) = queue_message (k', v') \<longleftrightarrow> k = k' \<and> v = v'"
    if "CHR 0x22 \<notin> set k" "CHR 0x22 \<notin> set k'"
  proof
    let ?rest = "\<lambda>v. '','' @ [CHR 0x22] @ ''value'' @ [CHR 0x22] @ '': '' @ [CHR 0x22] @ v @ [CHR 0x22] @ ''}''"
    assume "queue_message (k, v) = queue_message (k', v')"
    then have "k @ CHR 0x22 # ?rest v = k' @ CHR 0x22 # ?rest v'"
      unfolding queue_message_def by (simp only: list.inject simp_thms append_Cons append_Nil append_assoc fst_conv snd_conv)
    from quote_split [OF this that] show "k = k' \<and> v = v'" by simp
  qed simp
  moreover have "queue_message (''a'', ''b'' @ [CHR 0x22] @ '','' @ [CHR 0x22] @ ''value'' @ [CHR 0x22] @ '': '' @ [CHR 0x22] @ ''c'')
     = queue_message (''a'' @ [CHR 0x22] @ '','' @ [CHR 0x22] @ ''value'' @ [CHR 0x22] @ '': '' @ [CHR 0x22] @ ''b'', ''c'')"
    by (simp add: queue_message_def)
  ultimately show ?thesis by simp
qed

end
