(* ===== verification/Metrics.thy ===== *)
theory Metrics
  imports Reference_Host
begin

text \<open>
  The two plugins that count: \<^verbatim>\<open>istio/envoy/wasm-go/metrics/main.go\<close>, which keeps one counter for
  each value of a request header in a global map, and \<^verbatim>\<open>istio/envoy/wasm-go/network/main.go\<close>,
  which logs TCP traffic and counts connections. Their properties rest on the contract
  \<open>metrics_host\<close>.
\<close>

section \<open>metrics\<close>

definition customHeaderKey :: string where
  "customHeaderKey = ''my-custom-header''"

definition customHeaderValueTagKey :: string where
  "customHeaderValueTagKey = ''value''"

type_synonym counters = "(string, uint32) fmap"

definition initial_counters :: counters where
  "initial_counters = fmempty"

definition counter_fqn :: "string \<Rightarrow> string" where
  "counter_fqn customHeaderValue =
     ''custom_header_value_counts_'' @ customHeaderValueTagKey @ ''='' @ customHeaderValue @ ''_reporter=wasmgosdk''"

definition metrics_OnHttpRequestHeaders :: "'h host \<Rightarrow> goint \<Rightarrow> bool \<Rightarrow> counters \<Rightarrow> 'h \<Rightarrow> action \<times> counters \<times> 'h" where
  "metrics_OnHttpRequestHeaders H numHeaders endOfStream counters h =
     (case GetHttpRequestHeader H customHeaderKey h of
        (_, Some e) \<Rightarrow> (ActionContinue, counters, h)
      | (customHeaderValue, None) \<Rightarrow>
          (let (counter, counters, h) =
             (case fmlookup counters customHeaderValue of
                Some counter \<Rightarrow> (counter, counters, h)
              | None \<Rightarrow>
                  (let fqn = counter_fqn customHeaderValue;
                       (counter, h) = DefineCounterMetric H fqn h
                   in (counter, fmupd customHeaderValue counter counters, h)))
           in (ActionContinue, counters, CounterIncrement H counter 1 h)))"

text \<open>A sequence of requests, each with or without the header.\<close>

fun metrics_run :: "'h host \<Rightarrow> (string \<Rightarrow> string option \<Rightarrow> 'h \<Rightarrow> 'h) \<Rightarrow> string option list
    \<Rightarrow> counters \<Rightarrow> 'h \<Rightarrow> counters \<times> 'h" where
  "metrics_run H arrive [] counters h = (counters, h)"
| "metrics_run H arrive (v # vs) counters h =
     (case metrics_OnHttpRequestHeaders H 1 True counters (arrive customHeaderKey v h) of
        (_, counters, h) \<Rightarrow> metrics_run H arrive vs counters h)"

section \<open>network\<close>

record network_pluginContext =
  plugin_counter :: uint32

record networkContext =
  network_counter :: uint32

definition network_NewPluginContext :: "'h host \<Rightarrow> uint32 \<Rightarrow> 'h \<Rightarrow> network_pluginContext \<times> 'h" where
  "network_NewPluginContext H contextID h =
     (let (counter, h) = DefineCounterMetric H ''proxy_wasm_go.connection_counter'' h
      in (\<lparr>plugin_counter = counter\<rparr>, h))"

definition network_NewTcpContext :: "network_pluginContext \<Rightarrow> uint32 \<Rightarrow> networkContext" where
  "network_NewTcpContext ctx contextID = \<lparr>network_counter = plugin_counter ctx\<rparr>"

definition network_OnNewConnection :: "'h host \<Rightarrow> networkContext \<Rightarrow> 'h \<Rightarrow> action \<times> 'h" where
  "network_OnNewConnection H ctx h = (ActionContinue, Log H LogInfo ''new connection!'' h)"

definition network_OnDownstreamData :: "'h host \<Rightarrow> networkContext \<Rightarrow> goint \<Rightarrow> bool \<Rightarrow> 'h \<Rightarrow> action \<times> 'h" where
  "network_OnDownstreamData H ctx dataSize endOfStream h =
     (if dataSize = 0 then (ActionContinue, h)
      else (case GetDownstreamData H 0 dataSize h of (data, err) \<Rightarrow>
        if err \<noteq> None \<and> err \<noteq> Some ErrorStatusNotFound
        then (ActionContinue, Log H LogCritical (''failed to get downstream data: '' @ ErrorString H (the err)) h)
        else (ActionContinue, Log H LogInfo
                (''>>>>>> downstream data received >>>>>>'' @ [CHR 0x0A] @ data) h)))"

definition network_OnDownstreamClose :: "'h host \<Rightarrow> networkContext \<Rightarrow> 'h \<Rightarrow> 'h" where
  "network_OnDownstreamClose H ctx h = Log H LogInfo ''downstream connection close!'' h"

fun log_metadata :: "'h host \<Rightarrow> headers \<Rightarrow> 'h \<Rightarrow> 'h" where
  "log_metadata H [] h = h"
| "log_metadata H (kv # kvs) h = log_metadata H kvs
     (Log H LogInfo (''upsteam cluster matadata location['' @ fst kv @ '']='' @ snd kv) h)"

definition network_OnUpstreamData :: "'h host \<Rightarrow> networkContext \<Rightarrow> goint \<Rightarrow> bool \<Rightarrow> 'h \<Rightarrow> action \<times> 'h" where
  "network_OnUpstreamData H ctx dataSize endOfStream h =
     (if dataSize = 0 then (ActionContinue, h)
      else
        (let (address, err) = GetProperty H [''upstream'', ''address''] h;
             h = (case err of None \<Rightarrow> h
                  | Some e \<Rightarrow> Log H LogWarn (''failed to get upstream remote address: '' @ ErrorString H e) h);
             h = Log H LogInfo (''remote address: '' @ address) h;
             (metadata, err) = GetPropertyMap H [''cluster_metadata'', ''filter_metadata'', ''location''] h;
             h = (case err of None \<Rightarrow> h
                  | Some e \<Rightarrow> Log H LogWarn (''failed to get upstream location metadata: '' @ ErrorString H e) h);
             h = log_metadata H metadata h;
             (data, err) = GetUpstreamData H 0 dataSize h;
             h = (if err \<noteq> None \<and> err \<noteq> Some ErrorStatusNotFound
                  then Log H LogCritical (ErrorString H (the err)) h else h)
         in (ActionContinue, Log H LogInfo (''<<<<<< upstream data received <<<<<<'' @ [CHR 0x0A] @ data) h)))"

definition network_OnStreamDone :: "'h host \<Rightarrow> networkContext \<Rightarrow> 'h \<Rightarrow> 'h" where
  "network_OnStreamDone H ctx h = Log H LogInfo ''connection complete!'' (CounterIncrement H (network_counter ctx) 1 h)"

datatype connection_event = NewConnection | DownstreamData goint | UpstreamData goint | DownstreamClose | StreamDone

fun network_event_step :: "'h host \<Rightarrow> networkContext \<Rightarrow> connection_event \<Rightarrow> 'h \<Rightarrow> 'h" where
  "network_event_step H ctx NewConnection h = snd (network_OnNewConnection H ctx h)"
| "network_event_step H ctx (DownstreamData n) h = snd (network_OnDownstreamData H ctx n False h)"
| "network_event_step H ctx (UpstreamData n) h = snd (network_OnUpstreamData H ctx n False h)"
| "network_event_step H ctx DownstreamClose h = network_OnDownstreamClose H ctx h"
| "network_event_step H ctx StreamDone h = network_OnStreamDone H ctx h"

text \<open>The events of all connections of one plugin, in the order they happen, each with its context id.\<close>

definition network_run :: "'h host \<Rightarrow> network_pluginContext \<Rightarrow> (uint32 \<times> connection_event) list \<Rightarrow> 'h \<Rightarrow> 'h" where
  "network_run H ctx es h =
     foldl (\<lambda>h (contextID, e). network_event_step H (network_NewTcpContext ctx contextID) e h) h es"

section \<open>The counters\<close>

lemma counter_fqn_inj [simp]: "counter_fqn v = counter_fqn w \<longleftrightarrow> v = w"
  by (simp add: counter_fqn_def)

context metrics_host
begin

text \<open>What the global map stands for: each value's id is bound to its name.\<close>

definition counters_bound :: "counters \<Rightarrow> 'h \<Rightarrow> bool" where
  "counters_bound cs h \<longleftrightarrow> (\<forall>v i. fmlookup cs v = Some i \<longrightarrow> bound h i = Some (counter_fqn v))"

lemma request_counts:
  assumes "counters_bound cs h" and "defined h + 1 < 2 ^ 32"
    and "metrics_OnHttpRequestHeaders H 1 True cs (arrive customHeaderKey v h) = (a, cs', h')"
  shows "counters_bound cs' h' \<and> defined h' \<le> defined h + 1
    \<and> metric h' = (case v of None \<Rightarrow> metric h
        | Some s \<Rightarrow> (metric h)(counter_fqn s := metric h (counter_fqn s) + 1))"
proof (cases v)
  case None
  then show ?thesis
    using assms by (auto simp: metrics_OnHttpRequestHeaders_def arrive_header metric_arrive counters_bound_def)
next
  case (Some s)
  let ?h = "arrive customHeaderKey v h"
  show ?thesis
  proof (cases "fmlookup cs s")
    case (Some i)
    then have "bound ?h i = Some (counter_fqn s)"
      using assms(1) by (simp add: counters_bound_def metric_arrive)
    from increment [OF this, of 1] show ?thesis
      using assms Some \<open>v = Some s\<close>
      by (auto simp: metrics_OnHttpRequestHeaders_def arrive_header metric_arrive counters_bound_def)
  next
    case None
    obtain i h1 where d: "DefineCounterMetric H (counter_fqn s) ?h = (i, h1)" by fastforce
    then have new: "bound h1 i = Some (counter_fqn s)" "bound ?h \<subseteq>\<^sub>m bound h1" "metric h1 = metric ?h"
      "defined h1 \<le> defined ?h + 1"
      using define_counter [OF d] assms(2) by (simp_all add: metric_arrive)
    have "counters_bound (fmupd s i cs) h1"
      using assms(1) new(1,2) by (auto simp: counters_bound_def metric_arrive map_le_def dom_def)
    then show ?thesis
      using increment [OF new(1), of 1] new(3,4) assms(3) None \<open>v = Some s\<close> d
      by (auto simp: metrics_OnHttpRequestHeaders_def arrive_header metric_arrive counters_bound_def)
  qed
qed

lemma run_counts:
  assumes "counters_bound cs h" and "defined h + length vs < 2 ^ 32"
    and "metrics_run H arrive vs cs h = (cs', h')"
  shows "metric h' (counter_fqn v) = metric h (counter_fqn v) + word_of_nat (count_list vs (Some v))
    \<and> (n \<notin> range counter_fqn \<longrightarrow> metric h' n = metric h n)"
  using assms
proof (induction vs arbitrary: cs h)
  case (Cons w vs)
  obtain a cs1 h1 where step: "metrics_OnHttpRequestHeaders H 1 True cs (arrive customHeaderKey w h) = (a, cs1, h1)"
    using prod_cases3 by blast
  have 1: "counters_bound cs1 h1" "defined h1 \<le> defined h + 1"
    "metric h1 = (case w of None \<Rightarrow> metric h | Some s \<Rightarrow> (metric h)(counter_fqn s := metric h (counter_fqn s) + 1))"
    using request_counts [OF Cons.prems(1) _ step] Cons.prems(2) by simp_all
  have "metric h' (counter_fqn v) = metric h1 (counter_fqn v) + word_of_nat (count_list vs (Some v))
    \<and> (n \<notin> range counter_fqn \<longrightarrow> metric h' n = metric h1 n)"
    using Cons.IH [OF 1(1)] 1(2) Cons.prems(2,3) step by simp
  then show ?case
    using 1(3) by (cases w) auto
qed simp

lemma log_metadata_metric:
  "metric (log_metadata H kvs h) = metric h" "bound (log_metadata H kvs h) = bound h"
  by (induction kvs arbitrary: h) (simp_all add: metric_log)

lemma network_event_metric:
  assumes "bound h (plugin_counter ctx) = Some n"
  shows "metric (network_event_step H (network_NewTcpContext ctx c) e h)
      = (if e = StreamDone then (metric h)(n := metric h n + 1) else metric h)
    \<and> bound (network_event_step H (network_NewTcpContext ctx c) e h) = bound h"
  using increment [OF assms, of 1]
  by (cases e)
     (auto simp: network_OnNewConnection_def network_OnDownstreamData_def network_OnUpstreamData_def
       network_OnDownstreamClose_def network_OnStreamDone_def network_NewTcpContext_def metric_log
       log_metadata_metric Let_def split: prod.split option.split)

lemma network_run_metric:
  "bound h (plugin_counter ctx) = Some n \<Longrightarrow>
     metric (network_run H ctx es h) = (metric h)(n := metric h n + word_of_nat (count_list (map snd es) StreamDone))"
proof (induction es arbitrary: h)
  case (Cons ce es)
  obtain c e where ce: "ce = (c, e)" by fastforce
  let ?h1 = "network_event_step H (network_NewTcpContext ctx c) e h"
  have "bound ?h1 (plugin_counter ctx) = Some n"
    using network_event_metric [OF Cons.prems, of c e] Cons.prems by simp
  from Cons.IH [OF this] show ?case
    using network_event_metric [OF Cons.prems, of c e] ce
    by (auto simp: network_run_def fun_eq_iff)
qed (simp add: network_run_def)

end

section \<open>Properties\<close>

text \<open>The counter of each value of the header has grown, after any sequence of requests, by the
  number of requests with that value, modulo \<open>2 ^ 64\<close>; a request without the header and every other
  metric are left alone. This holds from the empty map on, whatever counters the host has already.\<close>

theorem metrics_count_requests:
  assumes "metrics_host H metric bound defined arrive" and "defined h + length vs < 2 ^ 32"
  shows "case metrics_run H arrive vs initial_counters h of (counters, h') \<Rightarrow>
    metric h' (counter_fqn v) = metric h (counter_fqn v) + word_of_nat (count_list vs (Some v))
    \<and> (if n \<in> range counter_fqn then True else metric h' n = metric h n)"
proof -
  obtain counters h' where run: "metrics_run H arrive vs initial_counters h = (counters, h')" by fastforce
  have "metrics_host.counters_bound bound initial_counters h"
    by (simp add: metrics_host.counters_bound_def [OF assms(1)] initial_counters_def)
  from metrics_host.run_counts [OF assms(1) this assms(2) run] show ?thesis
    using run by simp
qed

theorem metrics_count_requests_witness:
  "case metrics_run reference_host em_arrive_with [Some ''foo'', None, Some ''bar'', Some ''foo''] initial_counters
        emulator_init of (counters, h') \<Rightarrow>
    em_metric h' (counter_fqn ''foo'') = em_metric emulator_init (counter_fqn ''foo'')
      + word_of_nat (count_list [Some ''foo'', None, Some ''bar'', Some ''foo''] (Some ''foo''))
    \<and> (if ''other'' \<in> range counter_fqn then True else em_metric h' ''other'' = em_metric emulator_init ''other'')"
  by (rule metrics_count_requests [OF reference_metrics.metrics_host_axioms])
     (simp add: emulator_init_def em_defined_def)

text \<open>The connection counter of the network plugin counts the connections that are done, however
  the events of the connections are interleaved, and no other event counts.\<close>

theorem network_counts_connections:
  assumes "metrics_host H metric bound defined arrive" and "defined h + 1 < 2 ^ 32"
  shows "case network_NewPluginContext H c h of (ctx, h1) \<Rightarrow>
    metric (network_run H ctx es h1) =
      (metric h)(''proxy_wasm_go.connection_counter'' :=
        metric h ''proxy_wasm_go.connection_counter'' + word_of_nat (count_list (map snd es) StreamDone))"
proof -
  obtain i h1 where d: "DefineCounterMetric H ''proxy_wasm_go.connection_counter'' h = (i, h1)" by fastforce
  from metrics_host.define_counter [OF assms(1) d assms(2)] show ?thesis
    using metrics_host.network_run_metric [OF assms(1), of h1 "\<lparr>plugin_counter = i\<rparr>"] d
    by (simp add: network_NewPluginContext_def)
qed

theorem network_counts_connections_witness:
  "case network_NewPluginContext reference_host 1 emulator_init of (ctx, h1) \<Rightarrow>
    em_metric (network_run reference_host ctx [(2, NewConnection), (3, NewConnection), (2, StreamDone), (3, StreamDone)] h1) =
      (em_metric emulator_init)(''proxy_wasm_go.connection_counter'' :=
        em_metric emulator_init ''proxy_wasm_go.connection_counter''
        + word_of_nat (count_list (map snd [(2, NewConnection), (3, NewConnection), (2 :: uint32, StreamDone), (3, StreamDone)]) StreamDone))"
  by (rule network_counts_connections [OF reference_metrics.metrics_host_axioms])
     (simp add: emulator_init_def em_defined_def)

end
