(* ===== verification/Tick_Plugins.thy ===== *)
theory Tick_Plugins
  imports Reference_Host
begin

text \<open>
  The plugins of \<^verbatim>\<open>istio/envoy/wasm-go\<close> that show one host call each:
  \<^verbatim>\<open>dispatch_call_on_tick/main.go\<close>, \<^verbatim>\<open>foreign_call_on_tick/main.go\<close>, \<^verbatim>\<open>helloworld/main.go\<close> and
  \<^verbatim>\<open>vm_plugin_configuration/main.go\<close>.
\<close>

section \<open>dispatch_call_on_tick\<close>

definition dispatch_tickMilliseconds :: uint32 where
  "dispatch_tickMilliseconds = 100"

text \<open>\<open>callBack\<close> is nil until the plugin has started; it is one and the same closure then.\<close>

record ticker_pluginContext =
  ticker_contextID :: uint32
  callBack :: bool
  cnt :: goint

definition ticker_NewPluginContext :: "uint32 \<Rightarrow> ticker_pluginContext" where
  "ticker_NewPluginContext contextID = \<lparr>ticker_contextID = contextID, callBack = False, cnt = 0\<rparr>"

definition ticker_OnPluginStart :: "'h host \<Rightarrow> ticker_pluginContext \<Rightarrow> goint \<Rightarrow> 'h
    \<Rightarrow> start_status \<times> ticker_pluginContext \<times> 'h" where
  "ticker_OnPluginStart H ctx pluginConfigurationSize h =
     (case SetTickPeriodMilliSeconds H dispatch_tickMilliseconds h of
        (Some e, h) \<Rightarrow> (StatusFailed, ctx, Log H LogCritical (''failed to set tick period: '' @ ErrorString H e) h)
      | (None, h) \<Rightarrow> (StatusOK, ctx\<lparr>callBack := True\<rparr>,
          Log H LogInfo (''set tick period milliseconds: '' @ dec_word dispatch_tickMilliseconds) h))"

text \<open>The closure that \<open>OnPluginStart\<close> makes.\<close>

definition ticker_callBack :: "'h host \<Rightarrow> ticker_pluginContext \<Rightarrow> goint \<Rightarrow> goint \<Rightarrow> goint \<Rightarrow> 'h
    \<Rightarrow> unit outcome \<times> ticker_pluginContext \<times> 'h" where
  "ticker_callBack H ctx numHeaders bodySize numTrailers h =
     (let ctx = ctx\<lparr>cnt := cnt ctx + 1\<rparr>;
          h = Log H LogInfo (''called '' @ strconv_Itoa (cnt ctx) @ '' for contextID=''
                @ dec_word (ticker_contextID ctx)) h;
          (headers, err) = GetHttpCallResponseHeaders H h
      in if err \<noteq> None \<and> err \<noteq> Some ErrorStatusNotFound
         then (Panic (ErrorString H (the err)), ctx, h)
         else
           (let h = log_headers H ''response header for the dispatched call: '' headers h;
                (headers, err) = GetHttpCallResponseTrailers H h
            in if err \<noteq> None \<and> err \<noteq> Some ErrorStatusNotFound
               then (Panic (ErrorString H (the err)), ctx, h)
               else (Return (), ctx, log_headers H ''response trailer for the dispatched call: '' headers h)))"

definition ticker_headers :: "string \<Rightarrow> headers" where
  "ticker_headers buf =
     [('':method'', ''GET''), ('':authority'', ''some_authority''), (''accept'', ''*/*'')]
     @ (if byte (hd buf) mod 2 = 0 then [('':path'', ''/ok'')] else [('':path'', ''/fail'')])"

definition ticker_OnTick :: "'h host \<Rightarrow> ticker_pluginContext \<Rightarrow> 'h \<Rightarrow> 'h" where
  "ticker_OnTick H ctx h =
     (let (buf, h) = RandRead H 1 h
      in case DispatchHttpCall H ''web_service'' (ticker_headers buf) '''' [] 5000 h of
           ((_, Some e), h) \<Rightarrow> Log H LogCritical (''dispatch httpcall failed: '' @ ErrorString H e) h
         | ((_, None), h) \<Rightarrow> h)"

section \<open>foreign_call_on_tick\<close>

definition foreign_tickMilliseconds :: uint32 where
  "foreign_tickMilliseconds = 1"

record foreign_pluginContext =
  foreign_contextID :: uint32
  callNum :: uint32

definition foreign_NewPluginContext :: "uint32 \<Rightarrow> foreign_pluginContext" where
  "foreign_NewPluginContext contextID = \<lparr>foreign_contextID = 0, callNum = 0\<rparr>"

definition foreign_OnPluginStart :: "'h host \<Rightarrow> goint \<Rightarrow> 'h \<Rightarrow> start_status \<times> 'h" where
  "foreign_OnPluginStart H pluginConfigurationSize h =
     (case SetTickPeriodMilliSeconds H foreign_tickMilliseconds h of
        (Some e, h) \<Rightarrow> (StatusFailed, Log H LogCritical (''failed to set tick period: '' @ ErrorString H e) h)
      | (None, h) \<Rightarrow> (StatusOK,
          Log H LogInfo (''set tick period milliseconds: '' @ dec_word foreign_tickMilliseconds) h))"

definition foreign_OnTick :: "'h host \<Rightarrow> foreign_pluginContext \<Rightarrow> 'h \<Rightarrow> foreign_pluginContext \<times> 'h" where
  "foreign_OnTick H ctx h =
     (let ctx = ctx\<lparr>callNum := callNum ctx + 1\<rparr>;
          ((ret, err), h) = CallForeignFunction H ''compress'' ''hello world!'' h;
          h = (case err of None \<Rightarrow> h
               | Some e \<Rightarrow> Log H LogCritical (''foreign function (compress) failed: '' @ ErrorString H e) h)
      in (ctx, Log H LogInfo (''foreign function (compress) called: '' @ dec_word (callNum ctx)
                 @ '', result: '' @ hex_EncodeToString ret) h))"

section \<open>helloworld\<close>

definition hello_tickMilliseconds :: uint32 where
  "hello_tickMilliseconds = 1000"

definition hello_OnPluginStart :: "'h host \<Rightarrow> goint \<Rightarrow> 'h \<Rightarrow> start_status \<times> 'h" where
  "hello_OnPluginStart H pluginConfigurationSize h =
     (let h = Log H LogInfo ''OnPluginStart from Go!'' h
      in case SetTickPeriodMilliSeconds H hello_tickMilliseconds h of
           (Some e, h) \<Rightarrow> (StatusOK, Log H LogCritical (''failed to set tick period: '' @ ErrorString H e) h)
         | (None, h) \<Rightarrow> (StatusOK, h))"

text \<open>The clock and the random number are read at each tick: they are arguments.\<close>

definition hello_OnTick :: "'h host \<Rightarrow> 64 word \<Rightarrow> uint64 \<Rightarrow> 'h \<Rightarrow> 'h" where
  "hello_OnTick H unixNano random h =
     (let h = Log H LogInfo (''It'' @ [CHR 0x27] @ ''s '' @ dec_int (sint unixNano) @ '': random value: ''
                @ dec_word random) h
      in Log H LogInfo ''OnTick called'' h)"

section \<open>vm_plugin_configuration\<close>

definition config_OnVMStart :: "'h host \<Rightarrow> goint \<Rightarrow> 'h \<Rightarrow> start_status \<times> 'h" where
  "config_OnVMStart H vmConfigurationSize h =
     (let (data, err) = GetVMConfiguration H h;
          h = (case err of None \<Rightarrow> h
               | Some e \<Rightarrow> Log H LogCritical (''error reading vm configuration: '' @ ErrorString H e) h)
      in (StatusOK, Log H LogInfo (''vm config: '' @ go_string data) h))"

definition config_OnPluginStart :: "'h host \<Rightarrow> goint \<Rightarrow> 'h \<Rightarrow> start_status \<times> 'h" where
  "config_OnPluginStart H pluginConfigurationSize h =
     (let (data, err) = GetPluginConfiguration H h;
          h = (case err of None \<Rightarrow> h
               | Some e \<Rightarrow> Log H LogCritical (''error reading plugin configuration: '' @ ErrorString H e) h)
      in (StatusOK, Log H LogInfo (''plugin config: '' @ go_string data) h))"

section \<open>Ticks and answers\<close>

text \<open>The life of the dispatching plugin after its start; a panic stops the VM.\<close>

datatype ticker_event = Ticks | Answered goint goint goint

fun ticker_run :: "'h host \<Rightarrow> ticker_event list \<Rightarrow> ticker_pluginContext \<Rightarrow> 'h
    \<Rightarrow> unit outcome \<times> ticker_pluginContext \<times> 'h" where
  "ticker_run H [] ctx h = (Return (), ctx, h)"
| "ticker_run H (Ticks # es) ctx h = ticker_run H es ctx (ticker_OnTick H ctx h)"
| "ticker_run H (Answered n b t # es) ctx h =
     (case ticker_callBack H ctx n b t h of
        (Return _, ctx, h) \<Rightarrow> ticker_run H es ctx h
      | (Panic m, ctx, h) \<Rightarrow> (Panic m, ctx, h))"

fun answers :: "ticker_event list \<Rightarrow> nat" where
  "answers [] = 0"
| "answers (Ticks # es) = answers es"
| "answers (Answered _ _ _ # es) = Suc (answers es)"

lemma ticker_callBack_cnt:
  "ticker_callBack H ctx n b t h = (r, ctx', h') \<Longrightarrow> ctx' = ctx\<lparr>cnt := cnt ctx + 1\<rparr>"
  by (auto simp: ticker_callBack_def Let_def split: prod.splits if_splits)

lemma ticker_run_cnt:
  "ticker_run H es ctx h = (r, ctx', h') \<Longrightarrow>
     \<exists>k \<le> answers es. ctx' = ctx\<lparr>cnt := cnt ctx + word_of_nat k\<rparr> \<and> (r = Return () \<longrightarrow> k = answers es)
       \<and> (r \<noteq> Return () \<longrightarrow> 0 < k)"
proof (induction es arbitrary: ctx h rule: answers.induct)
  case (3 n b t es)
  obtain r1 ctx1 h1 where cb: "ticker_callBack H ctx n b t h = (r1, ctx1, h1)" using prod_cases3 by blast
  note c = ticker_callBack_cnt [OF cb]
  show ?case
  proof (cases r1)
    case (Return u)
    then have "ticker_run H es ctx1 h1 = (r, ctx', h')" using "3.prems" cb by simp
    from "3.IH" [OF this] obtain k where "k \<le> answers es" "ctx' = ctx1\<lparr>cnt := cnt ctx1 + word_of_nat k\<rparr>"
      "r = Return () \<longrightarrow> k = answers es" by blast
    then show ?thesis using c by (intro exI [of _ "Suc k"]) (auto simp: algebra_simps)
  next
    case (Panic m)
    then show ?thesis using "3.prems" cb c by (intro exI [of _ 1]) auto
  qed
qed auto

section \<open>Properties\<close>

text \<open>After any ticks and answers the counter is the number of answers, modulo \<open>2 ^ 32\<close>; only an
  answer can panic, and it is counted before it does. The path of a call is \<open>/ok\<close> exactly when the
  random byte is even.\<close>

theorem ticker_counts_answers:
  "case ticker_run H es ctx h of (r, ctx', h') \<Rightarrow>
     (case r of Return _ \<Rightarrow> ctx' = ctx\<lparr>cnt := cnt ctx + word_of_nat (answers es)\<rparr>
      | Panic m \<Rightarrow> list_ex (\<lambda>k. 0 < k \<and> ctx' = ctx\<lparr>cnt := cnt ctx + word_of_nat k\<rparr>) [0..<Suc (answers es)])
   \<and> map_of (ticker_headers buf) '':path'' = Some (if even (byte (hd buf)) then ''/ok'' else ''/fail'')"
proof -
  obtain r ctx' h' where run: "ticker_run H es ctx h = (r, ctx', h')" using prod_cases3 by blast
  from ticker_run_cnt [OF run] obtain k where "k \<le> answers es" "ctx' = ctx\<lparr>cnt := cnt ctx + word_of_nat k\<rparr>"
    "r = Return () \<longrightarrow> k = answers es" "r \<noteq> Return () \<longrightarrow> 0 < k" by blast
  then show ?thesis
    using run by (auto simp: ticker_headers_def even_iff_mod_2_eq_zero list_ex_iff simp del: upt_Suc split: outcome.split)
qed

end
