(* ===== verification/Plugin_Programs.thy ===== *)
theory Plugin_Programs
  imports Plugin_Vm Http_Body Json_Validation Http_Auth Http_Routing Http_Headers Shared_Data
    Postpone_Requests Multiple_Dispatches Shared_Queue Metrics Tick_Plugins
begin

text \<open>
  The programs of \<^verbatim>\<open>istio/envoy/wasm-go\<close>: what the \<open>main\<close> of each hands to the SDK, as the methods
  that its contexts override over the defaults that they embed. A context without fields is \<open>()\<close>.
\<close>

definition pure_context :: "(uint32 \<Rightarrow> 'p) \<Rightarrow> uint32 \<Rightarrow> 'w \<Rightarrow> 'p \<times> 'w" where
  "pure_context new i w = (new i, w)"

definition pure_stream :: "('p \<Rightarrow> uint32 \<Rightarrow> 'c) \<Rightarrow> 'p \<Rightarrow> uint32 \<Rightarrow> 'w \<Rightarrow> 'c option \<times> 'w" where
  "pure_stream new p i w = (Some (new p i), w)"

section \<open>HTTP filters\<close>

text \<open>\<open>http_body\<close>: a context is of one of two types; \<open>echoBodyContext\<close> overrides one method.\<close>

fun body_http :: "'h host \<Rightarrow> 'h default_contexts \<Rightarrow> http_phase \<Rightarrow> 'p \<Rightarrow> body_HttpContext \<Rightarrow> goint \<Rightarrow> bool \<Rightarrow> 'h
    \<Rightarrow> (action outcome \<times> 'p \<times> body_HttpContext \<times> 'h) option" where
  "body_http H D OnRequestHeaders p (SetBody c) n e h = changes p SetBody (setBody_OnHttpRequestHeaders H c n e h)"
| "body_http H D OnRequestBody p (SetBody c) n e h = changes p SetBody (setBody_OnHttpRequestBody H c n e h)"
| "body_http H D OnResponseHeaders p (SetBody c) n e h = changes p SetBody (setBody_OnHttpResponseHeaders H c n e h)"
| "body_http H D OnResponseBody p (SetBody c) n e h = changes p SetBody (setBody_OnHttpResponseBody H c n e h)"
| "body_http H D OnRequestBody p (EchoBody c) n e h = changes p EchoBody (echoBody_OnHttpRequestBody H c n e h)"
| "body_http H D ph p (EchoBody c) n e h = keeps p (EchoBody c) (Default_OnHttp D ph n e h)"

definition body_program :: "'h host \<Rightarrow> 'h default_contexts
    \<Rightarrow> (body_pluginContext, body_HttpContext, unit, 'h) wasm_program" where
  "body_program H D = (embed D (pure_context body_NewPluginContext))\<lparr>
     OnPluginStart := (\<lambda>p n h. starts (body_OnPluginStart H p n h)),
     NewHttpContext := pure_stream body_NewHttpContext,
     OnHttp := body_http H D\<rparr>"

definition json_program :: "'h host \<Rightarrow> 'v gjson \<Rightarrow> 'h default_contexts
    \<Rightarrow> (json_pluginContext, payloadValidationContext, unit, 'h) wasm_program" where
  "json_program H G D = (embed D (pure_context json_NewPluginContext))\<lparr>
     OnPluginStart := (\<lambda>p n h. starts (json_OnPluginStart H G p n h)),
     NewHttpContext := pure_stream json_NewHttpContext,
     OnHttp := (\<lambda>ph p c n e h. case ph of
         OnRequestHeaders \<Rightarrow> changes p id (json_OnHttpRequestHeaders H c n e h)
       | OnRequestBody \<Rightarrow> changes p id (json_OnHttpRequestBody H G c n e h)
       | _ \<Rightarrow> keeps p c (Default_OnHttp D ph n e h))\<rparr>"

definition routing_program :: "'h host \<Rightarrow> 'h default_contexts
    \<Rightarrow> (routing_pluginContext, httpRouting, unit, 'h) wasm_program" where
  "routing_program H D = (embed D (pure_context routing_NewPluginContext))\<lparr>
     OnPluginStart := (\<lambda>p n h. starts (routing_OnPluginStart H p n h)),
     NewHttpContext := pure_stream routing_NewHttpContext,
     OnHttp := (\<lambda>ph p c n e h. case ph of
         OnRequestHeaders \<Rightarrow> panics p c (routing_OnHttpRequestHeaders H c n e h)
       | _ \<Rightarrow> keeps p c (Default_OnHttp D ph n e h))\<rparr>"

definition headers_program :: "'h host \<Rightarrow> 'v gjson_text \<Rightarrow> 'h default_contexts
    \<Rightarrow> (headers_pluginContext, httpHeaders, unit, 'h) wasm_program" where
  "headers_program H G D = (embed D (pure_context headers_NewPluginContext))\<lparr>
     OnPluginStart := (\<lambda>p n h. starts (headers_OnPluginStart H G p n h)),
     NewHttpContext := pure_stream headers_NewHttpContext,
     OnHttp := (\<lambda>ph p c n e h. case ph of
         OnRequestHeaders \<Rightarrow> keeps p c (headers_OnHttpRequestHeaders H c n e h)
       | OnResponseHeaders \<Rightarrow> keeps p c (headers_OnHttpResponseHeaders H c n e h)
       | _ \<Rightarrow> keeps p c (Default_OnHttp D ph n e h)),
     OnHttpStreamDone := headers_OnHttpStreamDone H\<rparr>"

definition properties_program :: "'h host \<Rightarrow> 'h default_contexts
    \<Rightarrow> (unit, properties_httpContext, unit, 'h) wasm_program" where
  "properties_program H D = (embed D (pure_context (\<lambda>_. ())))\<lparr>
     NewHttpContext := pure_stream (\<lambda>_. properties_NewHttpContext),
     OnHttp := (\<lambda>ph p c n e h. case ph of
         OnRequestHeaders \<Rightarrow> keeps p c (properties_OnHttpRequestHeaders H c n e h)
       | _ \<Rightarrow> keeps p c (Default_OnHttp D ph n e h)),
     OnHttpStreamDone := properties_OnHttpStreamDone H\<rparr>"

text \<open>\<open>http_auth_random\<close> and \<open>multiple_dispatches\<close> give a callback to the calls that they dispatch.\<close>

definition auth_program :: "'h host \<Rightarrow> 'h default_contexts \<Rightarrow> (unit, httpAuthRandom, unit, 'h) wasm_program" where
  "auth_program H D = (embed D (pure_context (\<lambda>_. ())))\<lparr>
     NewHttpContext := pure_stream (\<lambda>_. auth_NewHttpContext),
     OnHttp := (\<lambda>ph p c n e h. case ph of
         OnRequestHeaders \<Rightarrow> keeps p c (auth_OnHttpRequestHeaders H c n e h)
       | _ \<Rightarrow> keeps p c (Default_OnHttp D ph n e h)),
     HttpCallback := (\<lambda>c n b t h. (c, httpCallResponseCallback H n b t h))\<rparr>"

definition dispatch_program :: "'h host \<Rightarrow> 'h default_contexts
    \<Rightarrow> (unit, dispatch_httpContext, unit, 'h) wasm_program" where
  "dispatch_program H D = (embed D (pure_context (\<lambda>_. ())))\<lparr>
     NewHttpContext := pure_stream (\<lambda>_. dispatch_NewHttpContext),
     OnHttp := (\<lambda>ph p c n e h. case ph of
         OnResponseHeaders \<Rightarrow> changes p id (dispatch_OnHttpResponseHeaders H c n e h)
       | _ \<Rightarrow> keeps p c (Default_OnHttp D ph n e h)),
     HttpCallback := dispatchCallback H\<rparr>"

text \<open>\<open>postpone_requests\<close>: the HTTP contexts point to the plugin context.\<close>

definition postpone_program :: "'h host \<Rightarrow> 'h default_contexts
    \<Rightarrow> (postpone_pluginContext, postpone_httpContext, unit, 'h) wasm_program" where
  "postpone_program H D = (embed D (pure_context postpone_NewPluginContext))\<lparr>
     OnPluginStart := (\<lambda>p n h. case postpone_OnPluginStart H n h of (s, h) \<Rightarrow> starts (s, p, h)),
     OnTick := postpone_OnTick H,
     NewHttpContext := pure_stream (\<lambda>_. postpone_NewHttpContext),
     OnHttp := (\<lambda>ph p c n e h. case ph of
         OnRequestHeaders \<Rightarrow>
           (case postpone_OnHttpRequestHeaders H c p n e h of (a, p, h) \<Rightarrow> keeps p c (a, h))
       | _ \<Rightarrow> keeps p c (Default_OnHttp D ph n e h))\<rparr>"

text \<open>\<open>shared_data\<close>: the VM context overrides \<open>OnVMStart\<close>; the retry loop may not return.\<close>

definition shared_NewPluginContext :: "uint32 \<Rightarrow> unit" where
  "shared_NewPluginContext contextID = ()"

definition shared_NewHttpContext :: "unit \<Rightarrow> uint32 \<Rightarrow> unit" where
  "shared_NewHttpContext ctx contextID = ()"

definition shared_program :: "'h host \<Rightarrow> 'h default_contexts \<Rightarrow> (unit, unit, unit, 'h) wasm_program" where
  "shared_program H D = (embed D (pure_context shared_NewPluginContext))\<lparr>
     OnVMStart := shared_OnVMStart H,
     NewHttpContext := pure_stream shared_NewHttpContext,
     OnHttp := (\<lambda>ph p c n e h. case ph of
         OnRequestHeaders \<Rightarrow> map_option (\<lambda>(r, h). (r, p, c, h)) (shared_OnHttpRequestHeaders H n e h)
       | _ \<Rightarrow> keeps p c (Default_OnHttp D ph n e h))\<rparr>"

text \<open>\<open>metrics\<close>: the counters are a package variable, shared by all the contexts of the program.\<close>

definition metrics_program :: "'h host \<Rightarrow> (counters \<times> 'h) default_contexts
    \<Rightarrow> (unit, unit, unit, counters \<times> 'h) wasm_program" where
  "metrics_program H D = (embed D (pure_context (\<lambda>_. ())))\<lparr>
     NewHttpContext := pure_stream (\<lambda>_ _. ()),
     OnHttp := (\<lambda>ph p c n e w. case ph of
         OnRequestHeaders \<Rightarrow> (case metrics_OnHttpRequestHeaders H n e (fst w) (snd w) of (a, g, h) \<Rightarrow>
           keeps p c (a, (g, h)))
       | _ \<Rightarrow> keeps p c (Default_OnHttp D ph n e w))\<rparr>"

section \<open>TCP filters and services\<close>

text \<open>\<open>network\<close>: the counter is defined when a plugin context is made.\<close>

definition network_program :: "'h host \<Rightarrow> 'h default_contexts
    \<Rightarrow> (network_pluginContext, unit, networkContext, 'h) wasm_program" where
  "network_program H D = (embed D (network_NewPluginContext H))\<lparr>
     NewTcpContext := pure_stream network_NewTcpContext,
     OnNewConnection := network_OnNewConnection H,
     OnDownstreamData := network_OnDownstreamData H,
     OnDownstreamClose := network_OnDownstreamClose H,
     OnUpstreamData := network_OnUpstreamData H,
     OnStreamDone := network_OnStreamDone H\<rparr>"

text \<open>\<open>shared_queue\<close>: the sender is an HTTP or a TCP filter, as its configuration says.
  \<open>newPluginContext\<close> has no caller.\<close>

definition newPluginContext :: "uint32 \<Rightarrow> senderPluginContext" where
  "newPluginContext contextID = \<lparr>sender_config = '''', sender_contextID = 0\<rparr>"

definition sender_program :: "'h host \<Rightarrow> 'h default_contexts
    \<Rightarrow> (senderPluginContext, senderHttpContext, senderTcpContext, 'h) wasm_program" where
  "sender_program H D = (embed D (pure_context sender_NewPluginContext))\<lparr>
     OnPluginStart := sender_OnPluginStart H,
     NewHttpContext := sender_NewHttpContext H,
     OnHttp := (\<lambda>ph p c n e h. case ph of
         OnRequestHeaders \<Rightarrow> keeps p c (sender_OnHttpRequestHeaders H c n e h)
       | OnResponseHeaders \<Rightarrow> keeps p c (sender_OnHttpResponseHeaders H c n e h)
       | _ \<Rightarrow> keeps p c (Default_OnHttp D ph n e h)),
     NewTcpContext := sender_NewTcpContext H,
     OnUpstreamData := sender_OnUpstreamData H\<rparr>"

definition receiver_program :: "'h host \<Rightarrow> 'h default_contexts
    \<Rightarrow> (receiverPluginContext, unit, unit, 'h) wasm_program" where
  "receiver_program H D = (embed D (pure_context receiver_NewPluginContext))\<lparr>
     OnPluginStart := receiver_OnPluginStart H,
     OnQueueReady := receiver_OnQueueReady H\<rparr>"

definition ticker_program :: "'h host \<Rightarrow> 'h default_contexts \<Rightarrow> (ticker_pluginContext, unit, unit, 'h) wasm_program" where
  "ticker_program H D = (embed D (pure_context ticker_NewPluginContext))\<lparr>
     OnPluginStart := (\<lambda>p n h. starts (ticker_OnPluginStart H p n h)),
     OnTick := (\<lambda>p h. (p, ticker_OnTick H p h)),
     PluginCallback := ticker_callBack H\<rparr>"

definition foreign_program :: "'h host \<Rightarrow> 'h default_contexts \<Rightarrow> (foreign_pluginContext, unit, unit, 'h) wasm_program" where
  "foreign_program H D = (embed D (pure_context foreign_NewPluginContext))\<lparr>
     OnPluginStart := (\<lambda>p n h. case foreign_OnPluginStart H n h of (s, h) \<Rightarrow> starts (s, p, h)),
     OnTick := foreign_OnTick H\<rparr>"

text \<open>\<open>helloworld\<close>, which does not keep its context id: the clock and the random numbers, which the seed of the start determines, are parameters.\<close>

record helloWorld =
  hello_contextID :: uint32

definition hello_NewPluginContext :: "uint32 \<Rightarrow> helloWorld" where
  "hello_NewPluginContext contextID = \<lparr>hello_contextID = 0\<rparr>"

text \<open>Its HTTP contexts are the defaults.\<close>

definition hello_NewHttpContext :: "helloWorld \<Rightarrow> uint32 \<Rightarrow> unit" where
  "hello_NewHttpContext ctx contextID = ()"

definition hello_program :: "'h host \<Rightarrow> ('h \<Rightarrow> 64 word \<times> 'h) \<Rightarrow> ('h \<Rightarrow> uint64 \<times> 'h) \<Rightarrow> 'h default_contexts
    \<Rightarrow> (helloWorld, unit, unit, 'h) wasm_program" where
  "hello_program H UnixNano Uint64 D = (embed D (pure_context hello_NewPluginContext))\<lparr>
     OnPluginStart := (\<lambda>p n h. case hello_OnPluginStart H n h of (s, h) \<Rightarrow> starts (s, p, h)),
     OnTick := (\<lambda>p h. case UnixNano h of (t, h) \<Rightarrow> (case Uint64 h of (r, h) \<Rightarrow> (p, hello_OnTick H t r h))),
     NewHttpContext := pure_stream hello_NewHttpContext\<rparr>"

definition config_NewPluginContext :: "uint32 \<Rightarrow> unit" where
  "config_NewPluginContext contextID = ()"

definition config_program :: "'h host \<Rightarrow> 'h default_contexts \<Rightarrow> (unit, unit, unit, 'h) wasm_program" where
  "config_program H D = (embed D (pure_context config_NewPluginContext))\<lparr>
     OnVMStart := config_OnVMStart H,
     OnPluginStart := (\<lambda>p n h. case config_OnPluginStart H n h of (s, h) \<Rightarrow> starts (s, p, h))\<rparr>"

section \<open>A VM for examples\<close>

text \<open>Default contexts that let everything pass, for the examples.\<close>

definition passing_contexts :: "'w default_contexts" where
  "passing_contexts = \<lparr>
     Default_OnVMStart = (\<lambda>n w. (StatusOK, w)),
     Default_OnPluginStart = (\<lambda>n w. (StatusOK, w)),
     Default_OnTick = (\<lambda>w. w),
     Default_OnQueueReady = (\<lambda>q w. w),
     Default_OnHttp = (\<lambda>ph n e w. (ActionContinue, w)),
     Default_OnHttpStreamDone = (\<lambda>w. w),
     Default_OnNewConnection = (\<lambda>w. (ActionContinue, w)),
     Default_OnDownstreamData = (\<lambda>n e w. (ActionContinue, w)),
     Default_OnUpstreamData = (\<lambda>n e w. (ActionContinue, w)),
     Default_OnDownstreamClose = (\<lambda>w. w),
     Default_OnStreamDone = (\<lambda>w. w)\<rparr>"

text \<open>A VM with one plugin context, before the first stream.\<close>

definition vm_with :: "uint32 \<Rightarrow> 'p \<Rightarrow> 'w \<Rightarrow> ('p, 'c, 't, 'w) vm" where
  "vm_with j p w = \<lparr>plugins = [j \<mapsto> p], https = (\<lambda>_. None), tcps = (\<lambda>_. None), world = w, replies = [],
     status = Running\<rparr>"

end
