(* ===== verification/Plugin_Streams.thy ===== *)
theory Plugin_Streams
  imports Plugin_Programs
begin

text \<open>
  HTTP filters that keep to the current stream: \<open>http_body\<close>, \<open>json_validation\<close>, \<open>http_routing\<close>,
  \<open>http_headers\<close>, \<open>properties\<close>, \<open>http_auth_random\<close> and \<open>multiple_dispatches\<close> interpret the contract
  \<open>stream_program\<close>. With it the properties of their callbacks become properties of a VM that
  serves many streams in any order. What they rely on of a proxy with many streams is the contract
  \<open>many_streams\<close>.
\<close>

section \<open>The proxy of many streams\<close>

named_theorems stream_local

lemmas local_simps = Let_def case_prod_beta lift2_def lift3_def map_prod_def

lemma branches_at_stream:
  "(case x of None \<Rightarrow> at_stream i m a | Some e \<Rightarrow> at_stream i m (b e)) = at_stream i m (case x of None \<Rightarrow> a | Some e \<Rightarrow> b e)"
  "(if y then at_stream i m a else at_stream i m c) = at_stream i m (if y then a else c)"
  by (simp_all split: option.split)

lemmas program_fields = embed_def pure_stream_def

text \<open>
  The proxy and the SDK are not in the repository. What the filters rely on when a VM serves many
  streams is this contract: the calls of the proxy \<open>Q\<close> made while stream \<open>i\<close> is current, and the
  default methods \<open>E\<close>, read and change the proxy's state of stream \<open>i\<close> as the proxy \<open>H\<close> of a single
  stream and its \<open>D\<close> would (\<^verbatim>\<open>wasm-go/doc/OVERVIEW.md\<close>, Contexts: an HTTP context belongs to one stream).
  It is only about the calls of HTTP filters, not about shared data, queues and metrics.
\<close>

locale many_streams =
  fixes H :: "'s host" and Q :: "'s streams host"
    and D :: "'s default_contexts" and E :: "'s streams default_contexts"
  assumes stream_messages: "ErrorString Q = ErrorString H" "Log Q l x (at_stream i m s) = at_stream i m (Log H l x s)"
    and stream_reads:
      "GetHttpRequestHeader Q k (at_stream i m s) = GetHttpRequestHeader H k s"
      "GetHttpRequestHeaders Q (at_stream i m s) = GetHttpRequestHeaders H s"
      "GetHttpResponseHeaders Q (at_stream i m s) = GetHttpResponseHeaders H s"
      "GetHttpRequestBody Q start n (at_stream i m s) = GetHttpRequestBody H start n s"
      "GetHttpResponseBody Q start n (at_stream i m s) = GetHttpResponseBody H start n s"
      "GetHttpCallResponseHeaders Q (at_stream i m s) = GetHttpCallResponseHeaders H s"
      "GetHttpCallResponseBody Q start n (at_stream i m s) = GetHttpCallResponseBody H start n s"
      "GetHttpCallResponseTrailers Q (at_stream i m s) = GetHttpCallResponseTrailers H s"
      "GetProperty Q path (at_stream i m s) = GetProperty H path s"
      "GetPropertyMap Q path (at_stream i m s) = GetPropertyMap H path s"
    and stream_writes:
      "RemoveHttpRequestHeader Q k (at_stream i m s) = map_prod id (at_stream i m) (RemoveHttpRequestHeader H k s)"
      "ReplaceHttpRequestHeader Q k x (at_stream i m s) = map_prod id (at_stream i m) (ReplaceHttpRequestHeader H k x s)"
      "RemoveHttpResponseHeader Q k (at_stream i m s) = map_prod id (at_stream i m) (RemoveHttpResponseHeader H k s)"
      "AddHttpResponseHeader Q k x (at_stream i m s) = map_prod id (at_stream i m) (AddHttpResponseHeader H k x s)"
      "AppendHttpRequestBody Q b (at_stream i m s) = map_prod id (at_stream i m) (AppendHttpRequestBody H b s)"
      "PrependHttpRequestBody Q b (at_stream i m s) = map_prod id (at_stream i m) (PrependHttpRequestBody H b s)"
      "ReplaceHttpRequestBody Q b (at_stream i m s) = map_prod id (at_stream i m) (ReplaceHttpRequestBody H b s)"
      "AppendHttpResponseBody Q b (at_stream i m s) = map_prod id (at_stream i m) (AppendHttpResponseBody H b s)"
      "PrependHttpResponseBody Q b (at_stream i m s) = map_prod id (at_stream i m) (PrependHttpResponseBody H b s)"
      "ReplaceHttpResponseBody Q b (at_stream i m s) = map_prod id (at_stream i m) (ReplaceHttpResponseBody H b s)"
      "SendHttpResponse Q code hs b g (at_stream i m s) = map_prod id (at_stream i m) (SendHttpResponse H code hs b g s)"
      "ResumeHttpRequest Q (at_stream i m s) = map_prod id (at_stream i m) (ResumeHttpRequest H s)"
      "ResumeHttpResponse Q (at_stream i m s) = map_prod id (at_stream i m) (ResumeHttpResponse H s)"
      "DispatchHttpCall Q c hs b ts timeout (at_stream i m s)
         = map_prod id (at_stream i m) (DispatchHttpCall H c hs b ts timeout s)"
      "RandRead Q len (at_stream i m s) = map_prod id (at_stream i m) (RandRead H len s)"
    and stream_defaults: "Default_OnHttp E ph n e (at_stream i m s) = map_prod id (at_stream i m) (Default_OnHttp D ph n e s)"
      "Default_OnHttpStreamDone E (at_stream i m s) = at_stream i m (Default_OnHttpStreamDone D s)"
begin

lemmas stream_calls [simp] = stream_messages stream_reads stream_writes

lemma default_local [stream_local]:
  "Default_OnHttp E ph n e (at_stream i m s) = lift2 (at_stream i m) (Default_OnHttp D ph n e s)"
  by (simp add: stream_defaults lift2_def map_prod_def)

lemma log_headers_local [stream_local, simp]:
  "log_headers Q b hs (at_stream i m s) = at_stream i m (log_headers H b hs s)"
  unfolding log_headers_def by (induction hs arbitrary: s) simp_all

lemma setBody_local [stream_local]:
  "setBody_OnHttpRequestHeaders Q sc n e (at_stream i m s)
     = lift3 (at_stream i m) (setBody_OnHttpRequestHeaders H sc n e s)"
  "setBody_OnHttpResponseHeaders Q sc n e (at_stream i m s)
     = lift3 (at_stream i m) (setBody_OnHttpResponseHeaders H sc n e s)"
  "echoBody_OnHttpRequestBody Q ec n e (at_stream i m s)
     = lift3 (at_stream i m) (echoBody_OnHttpRequestBody H ec n e s)"
  by (simp_all add: local_simps setBody_OnHttpRequestHeaders_def setBody_OnHttpResponseHeaders_def
      echoBody_OnHttpRequestBody_def split: option.split)

lemma setBody_request_body_local [stream_local]:
  "setBody_OnHttpRequestBody Q c n e (at_stream i m s)
     = lift3 (at_stream i m) (setBody_OnHttpRequestBody H c n e s)"
  by (cases "bufferOperation c = bufferOperationAppend"; cases "bufferOperation c = bufferOperationPrepend";
      cases "bufferOperation c = bufferOperationReplace";
      simp add: local_simps setBody_OnHttpRequestBody_def split: option.split)

lemma setBody_response_body_local [stream_local]:
  "setBody_OnHttpResponseBody Q c n e (at_stream i m s)
     = lift3 (at_stream i m) (setBody_OnHttpResponseBody H c n e s)"
  by (cases "bufferOperation c = bufferOperationAppend"; cases "bufferOperation c = bufferOperationPrepend";
      cases "bufferOperation c = bufferOperationReplace";
      simp add: local_simps setBody_OnHttpResponseBody_def split: option.split)

lemma missing_key_loop_local [simp]:
  "missing_key_loop Q G v keys (at_stream i m s) = lift2 (at_stream i m) (missing_key_loop H G v keys s)"
  by (induction keys) simp_all

lemma json_local [stream_local]:
  "json_OnHttpRequestHeaders Q c n e (at_stream i m s)
     = lift3 (at_stream i m) (json_OnHttpRequestHeaders H c n e s)"
  "json_OnHttpRequestBody Q G c n e (at_stream i m s)
     = lift3 (at_stream i m) (json_OnHttpRequestBody H G c n e s)"
  by (simp_all add: local_simps json_OnHttpRequestHeaders_def json_OnHttpRequestBody_def validatePayload_def
      split: option.split bool.split)

lemma routing_local [stream_local]:
  "routing_OnHttpRequestHeaders Q c n e (at_stream i m s)
     = lift2 (at_stream i m) (routing_OnHttpRequestHeaders H c n e s)"
  by (simp add: local_simps routing_OnHttpRequestHeaders_def dice_def split: option.split outcome.split)

lemma headers_local [stream_local]:
  "headers_OnHttpRequestHeaders Q c n e (at_stream i m s)
     = lift2 (at_stream i m) (headers_OnHttpRequestHeaders H c n e s)"
  "headers_OnHttpResponseHeaders Q c n e (at_stream i m s)
     = lift2 (at_stream i m) (headers_OnHttpResponseHeaders H c n e s)"
  "headers_OnHttpStreamDone Q c (at_stream i m s) = at_stream i m (headers_OnHttpStreamDone H c s)"
  by (simp_all add: local_simps headers_OnHttpRequestHeaders_def headers_OnHttpResponseHeaders_def
      headers_OnHttpStreamDone_def branches_at_stream cong: option.case_cong if_cong split del: if_split)

lemma properties_local [stream_local]:
  "properties_OnHttpRequestHeaders Q pc n e (at_stream i m s)
     = lift2 (at_stream i m) (properties_OnHttpRequestHeaders H pc n e s)"
  "properties_OnHttpStreamDone Q pc (at_stream i m s) = at_stream i m (properties_OnHttpStreamDone H pc s)"
  by (simp_all add: local_simps properties_OnHttpRequestHeaders_def properties_OnHttpStreamDone_def split: option.split)

lemma auth_local [stream_local]:
  "auth_OnHttpRequestHeaders Q c n e (at_stream i m s)
     = lift2 (at_stream i m) (auth_OnHttpRequestHeaders H c n e s)"
  "httpCallResponseCallback Q n1 n2 n3 (at_stream i m s)
     = at_stream i m (httpCallResponseCallback H n1 n2 n3 s)"
  by (simp_all add: local_simps auth_OnHttpRequestHeaders_def httpCallResponseCallback_def split: option.split)

lemma dispatch_loop_local [simp]:
  "dispatch_loop k Q c (at_stream i m s) = lift3 (at_stream i m) (dispatch_loop k H c s)"
  by (induction k arbitrary: c s) (simp_all add: local_simps split: option.split)

lemma dispatch_local [stream_local]:
  "dispatch_OnHttpResponseHeaders Q c n e (at_stream i m s)
     = lift3 (at_stream i m) (dispatch_OnHttpResponseHeaders H c n e s)"
  "dispatchCallback Q c n1 n2 n3 (at_stream i m s)
     = lift2 (at_stream i m) (dispatchCallback H c n1 n2 n3 s)"
  by (simp_all add: local_simps dispatch_OnHttpResponseHeaders_def dispatchCallback_def
      split: option.split outcome.split action.split)

text \<open>The programs meet the contract.\<close>

lemma body_program_streams: "stream_program (body_program H D) (body_program Q E)"
proof unfold_locales
  show "local_call p (at_stream j m) (OnHttp (body_program H D) ph p c n e s)
      (OnHttp (body_program Q E) ph p c n e (at_stream j m s))" for p j m ph c n e s
    by (cases ph; cases c) (simp_all add: body_program_def stream_local)
qed (simp_all add: body_program_def program_fields stream_defaults(2))

lemma json_program_streams: "stream_program (json_program H G D) (json_program Q G E)"
  by unfold_locales
     (simp_all add: json_program_def program_fields stream_local stream_defaults(2) split: http_phase.split)

lemma routing_program_streams: "stream_program (routing_program H D) (routing_program Q E)"
  by unfold_locales
     (simp_all add: routing_program_def program_fields stream_local stream_defaults(2) split: http_phase.split)

lemma headers_program_streams: "stream_program (headers_program H G D) (headers_program Q G E)"
  by unfold_locales
     (simp_all add: headers_program_def program_fields stream_local stream_defaults(2) split: http_phase.split)

lemma properties_program_streams: "stream_program (properties_program H D) (properties_program Q E)"
  by unfold_locales
     (simp_all add: properties_program_def program_fields stream_local stream_defaults(2) split: http_phase.split)

lemma auth_program_streams: "stream_program (auth_program H D) (auth_program Q E)"
  by unfold_locales
     (simp_all add: auth_program_def program_fields stream_local stream_defaults(2) split: http_phase.split)

lemma dispatch_program_streams: "stream_program (dispatch_program H D) (dispatch_program Q E)"
  by unfold_locales
     (simp_all add: dispatch_program_def program_fields stream_local stream_defaults(2) split: http_phase.split)

end

section \<open>The contract can be met\<close>

text \<open>A proxy whose calls all act on the current stream.\<close>

definition on_read :: "('s \<Rightarrow> 'r) \<Rightarrow> 's streams \<Rightarrow> 'r" where
  "on_read f h = f (snd h (fst h))"

definition on_update :: "('s \<Rightarrow> 's) \<Rightarrow> 's streams \<Rightarrow> 's streams" where
  "on_update f h = (fst h, (snd h)(fst h := f (snd h (fst h))))"

definition on_write :: "('s \<Rightarrow> 'r \<times> 's) \<Rightarrow> 's streams \<Rightarrow> 'r \<times> 's streams" where
  "on_write f h = (case f (snd h (fst h)) of (r, s) \<Rightarrow> (r, (fst h, (snd h)(fst h := s))))"

definition lift_host :: "'s host \<Rightarrow> 's streams host" where
  "lift_host H = \<lparr>
     ErrorString = ErrorString H,
     Log = (\<lambda>a b. on_update (Log H a b)),
     GetVMConfiguration = on_read (GetVMConfiguration H),
     GetPluginConfiguration = on_read (GetPluginConfiguration H),
     SetTickPeriodMilliSeconds = (\<lambda>a. on_write (SetTickPeriodMilliSeconds H a)),
     SetEffectiveContext = (\<lambda>a h. case SetEffectiveContext H a (snd h (fst h)) of (e, s) \<Rightarrow> (e, (a, (snd h)(fst h := s)))),
     GetHttpRequestHeader = (\<lambda>a. on_read (GetHttpRequestHeader H a)),
     GetHttpRequestHeaders = on_read (GetHttpRequestHeaders H),
     RemoveHttpRequestHeader = (\<lambda>a. on_write (RemoveHttpRequestHeader H a)),
     ReplaceHttpRequestHeader = (\<lambda>a b. on_write (ReplaceHttpRequestHeader H a b)),
     GetHttpResponseHeaders = on_read (GetHttpResponseHeaders H),
     RemoveHttpResponseHeader = (\<lambda>a. on_write (RemoveHttpResponseHeader H a)),
     AddHttpResponseHeader = (\<lambda>a b. on_write (AddHttpResponseHeader H a b)),
     GetHttpRequestBody = (\<lambda>a b. on_read (GetHttpRequestBody H a b)),
     AppendHttpRequestBody = (\<lambda>a. on_write (AppendHttpRequestBody H a)),
     PrependHttpRequestBody = (\<lambda>a. on_write (PrependHttpRequestBody H a)),
     ReplaceHttpRequestBody = (\<lambda>a. on_write (ReplaceHttpRequestBody H a)),
     GetHttpResponseBody = (\<lambda>a b. on_read (GetHttpResponseBody H a b)),
     AppendHttpResponseBody = (\<lambda>a. on_write (AppendHttpResponseBody H a)),
     PrependHttpResponseBody = (\<lambda>a. on_write (PrependHttpResponseBody H a)),
     ReplaceHttpResponseBody = (\<lambda>a. on_write (ReplaceHttpResponseBody H a)),
     SendHttpResponse = (\<lambda>a b c d. on_write (SendHttpResponse H a b c d)),
     ResumeHttpRequest = on_write (ResumeHttpRequest H),
     ResumeHttpResponse = on_write (ResumeHttpResponse H),
     DispatchHttpCall = (\<lambda>a b c d e. on_write (DispatchHttpCall H a b c d e)),
     GetHttpCallResponseHeaders = on_read (GetHttpCallResponseHeaders H),
     GetHttpCallResponseBody = (\<lambda>a b. on_read (GetHttpCallResponseBody H a b)),
     GetHttpCallResponseTrailers = on_read (GetHttpCallResponseTrailers H),
     GetProperty = (\<lambda>a. on_read (GetProperty H a)),
     GetPropertyMap = (\<lambda>a. on_read (GetPropertyMap H a)),
     GetDownstreamData = (\<lambda>a b. on_read (GetDownstreamData H a b)),
     GetUpstreamData = (\<lambda>a b. on_read (GetUpstreamData H a b)),
     GetSharedData = (\<lambda>a. on_read (GetSharedData H a)),
     SetSharedData = (\<lambda>a b c. on_write (SetSharedData H a b c)),
     RegisterSharedQueue = (\<lambda>a. on_write (RegisterSharedQueue H a)),
     ResolveSharedQueue = (\<lambda>a b. on_read (ResolveSharedQueue H a b)),
     EnqueueSharedQueue = (\<lambda>a b. on_write (EnqueueSharedQueue H a b)),
     DequeueSharedQueue = (\<lambda>a. on_write (DequeueSharedQueue H a)),
     DefineCounterMetric = (\<lambda>a. on_write (DefineCounterMetric H a)),
     CounterIncrement = (\<lambda>a b. on_update (CounterIncrement H a b)),
     CallForeignFunction = (\<lambda>a b. on_write (CallForeignFunction H a b)),
     RandRead = (\<lambda>a. on_write (RandRead H a))\<rparr>"

lemma lift_host_simps [simp]:
  "ErrorString (lift_host H) = ErrorString H"
  "Log (lift_host H) a0 b0 = on_update (Log H a0 b0)"
  "GetVMConfiguration (lift_host H) = on_read (GetVMConfiguration H)"
  "GetPluginConfiguration (lift_host H) = on_read (GetPluginConfiguration H)"
  "SetTickPeriodMilliSeconds (lift_host H) a3 = on_write (SetTickPeriodMilliSeconds H a3)"
  "GetHttpRequestHeader (lift_host H) a4 = on_read (GetHttpRequestHeader H a4)"
  "GetHttpRequestHeaders (lift_host H) = on_read (GetHttpRequestHeaders H)"
  "RemoveHttpRequestHeader (lift_host H) a6 = on_write (RemoveHttpRequestHeader H a6)"
  "ReplaceHttpRequestHeader (lift_host H) a7 b7 = on_write (ReplaceHttpRequestHeader H a7 b7)"
  "GetHttpResponseHeaders (lift_host H) = on_read (GetHttpResponseHeaders H)"
  "RemoveHttpResponseHeader (lift_host H) a9 = on_write (RemoveHttpResponseHeader H a9)"
  "AddHttpResponseHeader (lift_host H) a10 b10 = on_write (AddHttpResponseHeader H a10 b10)"
  "GetHttpRequestBody (lift_host H) a11 b11 = on_read (GetHttpRequestBody H a11 b11)"
  "AppendHttpRequestBody (lift_host H) a12 = on_write (AppendHttpRequestBody H a12)"
  "PrependHttpRequestBody (lift_host H) a13 = on_write (PrependHttpRequestBody H a13)"
  "ReplaceHttpRequestBody (lift_host H) a14 = on_write (ReplaceHttpRequestBody H a14)"
  "GetHttpResponseBody (lift_host H) a15 b15 = on_read (GetHttpResponseBody H a15 b15)"
  "AppendHttpResponseBody (lift_host H) a16 = on_write (AppendHttpResponseBody H a16)"
  "PrependHttpResponseBody (lift_host H) a17 = on_write (PrependHttpResponseBody H a17)"
  "ReplaceHttpResponseBody (lift_host H) a18 = on_write (ReplaceHttpResponseBody H a18)"
  "SendHttpResponse (lift_host H) a19 b19 c19 d19 = on_write (SendHttpResponse H a19 b19 c19 d19)"
  "ResumeHttpRequest (lift_host H) = on_write (ResumeHttpRequest H)"
  "ResumeHttpResponse (lift_host H) = on_write (ResumeHttpResponse H)"
  "DispatchHttpCall (lift_host H) a22 b22 c22 d22 e22 = on_write (DispatchHttpCall H a22 b22 c22 d22 e22)"
  "GetHttpCallResponseHeaders (lift_host H) = on_read (GetHttpCallResponseHeaders H)"
  "GetHttpCallResponseBody (lift_host H) a24 b24 = on_read (GetHttpCallResponseBody H a24 b24)"
  "GetHttpCallResponseTrailers (lift_host H) = on_read (GetHttpCallResponseTrailers H)"
  "GetProperty (lift_host H) a26 = on_read (GetProperty H a26)"
  "GetPropertyMap (lift_host H) a27 = on_read (GetPropertyMap H a27)"
  "GetDownstreamData (lift_host H) a28 b28 = on_read (GetDownstreamData H a28 b28)"
  "GetUpstreamData (lift_host H) a29 b29 = on_read (GetUpstreamData H a29 b29)"
  "GetSharedData (lift_host H) a30 = on_read (GetSharedData H a30)"
  "SetSharedData (lift_host H) a31 b31 c31 = on_write (SetSharedData H a31 b31 c31)"
  "RegisterSharedQueue (lift_host H) a32 = on_write (RegisterSharedQueue H a32)"
  "ResolveSharedQueue (lift_host H) a33 b33 = on_read (ResolveSharedQueue H a33 b33)"
  "EnqueueSharedQueue (lift_host H) a34 b34 = on_write (EnqueueSharedQueue H a34 b34)"
  "DequeueSharedQueue (lift_host H) a35 = on_write (DequeueSharedQueue H a35)"
  "DefineCounterMetric (lift_host H) a36 = on_write (DefineCounterMetric H a36)"
  "CounterIncrement (lift_host H) a37 b37 = on_update (CounterIncrement H a37 b37)"
  "CallForeignFunction (lift_host H) a38 b38 = on_write (CallForeignFunction H a38 b38)"
  "RandRead (lift_host H) a39 = on_write (RandRead H a39)"
  by (simp_all add: lift_host_def)

definition lift_default :: "'s default_contexts \<Rightarrow> 's streams default_contexts" where
  "lift_default D = \<lparr>
     Default_OnVMStart = (\<lambda>n. on_write (Default_OnVMStart D n)),
     Default_OnPluginStart = (\<lambda>n. on_write (Default_OnPluginStart D n)),
     Default_OnTick = on_update (Default_OnTick D),
     Default_OnQueueReady = (\<lambda>q. on_update (Default_OnQueueReady D q)),
     Default_OnHttp = (\<lambda>ph n e. on_write (Default_OnHttp D ph n e)),
     Default_OnHttpStreamDone = on_update (Default_OnHttpStreamDone D),
     Default_OnNewConnection = on_write (Default_OnNewConnection D),
     Default_OnDownstreamData = (\<lambda>n e. on_write (Default_OnDownstreamData D n e)),
     Default_OnUpstreamData = (\<lambda>n e. on_write (Default_OnUpstreamData D n e)),
     Default_OnDownstreamClose = on_update (Default_OnDownstreamClose D),
     Default_OnStreamDone = on_update (Default_OnStreamDone D)\<rparr>"

lemma lift_default_simps [simp]:
  "Default_OnHttp (lift_default D) ph n e = on_write (Default_OnHttp D ph n e)"
  "Default_OnHttpStreamDone (lift_default D) = on_update (Default_OnHttpStreamDone D)"
  by (simp_all add: lift_default_def)

lemma at_stream_simps [simp]:
  "on_read f (at_stream i m s) = f s"
  "on_update g (at_stream i m s) = at_stream i m (g s)"
  "on_write w (at_stream i m s) = map_prod id (at_stream i m) (w s)"
  by (simp_all add: at_stream_def on_read_def on_update_def on_write_def split: prod.split)

interpretation lifted: many_streams H "lift_host H" D "lift_default D" for H D
  by unfold_locales simp_all

interpretation body_streams: stream_program "body_program H D" "body_program (lift_host H) (lift_default D)" for H D
  by (rule lifted.body_program_streams)

interpretation json_streams: stream_program "json_program H G D" "json_program (lift_host H) G (lift_default D)" for H G D
  by (rule lifted.json_program_streams)

interpretation routing_streams: stream_program "routing_program H D" "routing_program (lift_host H) (lift_default D)" for H D
  by (rule lifted.routing_program_streams)

interpretation headers_streams: stream_program "headers_program H G D" "headers_program (lift_host H) G (lift_default D)" for H G D
  by (rule lifted.headers_program_streams)

interpretation properties_streams: stream_program "properties_program H D" "properties_program (lift_host H) (lift_default D)" for H D
  by (rule lifted.properties_program_streams)

interpretation auth_streams: stream_program "auth_program H D" "auth_program (lift_host H) (lift_default D)" for H D
  by (rule lifted.auth_program_streams)

interpretation dispatch_streams: stream_program "dispatch_program H D" "dispatch_program (lift_host H) (lift_default D)" for H D
  by (rule lifted.dispatch_program_streams)

section \<open>A request and its body, alone in the VM\<close>

text \<open>The events of a request body in frames, and of a request from its creation on.\<close>

definition body_events :: "uint32 \<Rightarrow> (string \<Rightarrow> 's \<Rightarrow> 's) \<Rightarrow> string list \<Rightarrow> string \<Rightarrow> 's vm_event list" where
  "body_events i deliver ds d =
     map (\<lambda>d. (i, deliver d, HttpPhase OnRequestBody (frame_size d) False)) ds
     @ [(i, deliver d, HttpPhase OnRequestBody (frame_size d) True)]"

definition request_events :: "uint32 \<Rightarrow> uint32 \<Rightarrow> ('s \<Rightarrow> 's) \<Rightarrow> goint \<Rightarrow> (string \<Rightarrow> 's \<Rightarrow> 's)
    \<Rightarrow> string list \<Rightarrow> string \<Rightarrow> 's vm_event list" where
  "request_events i j arrive k deliver ds d =
     (i, id, HttpCreated j) # (i, arrive, HttpPhase OnRequestHeaders k False) # body_events i deliver ds d"

definition answered_by :: "uint32 \<Rightarrow> action outcome list \<Rightarrow> (uint32 \<times> vm_reply) list" where
  "answered_by i as = concat (map (\<lambda>r. case r of Return a \<Rightarrow> [(i, Acted a)] | Panic _ \<Rightarrow> []) as)"

text \<open>A stream that is being served: it has a context, and a plugin context above it.\<close>

definition served :: "uint32 \<Rightarrow> uint32 \<Rightarrow> 'p \<Rightarrow> 'c \<Rightarrow> ('p, 'c, 't, 's) vm \<Rightarrow> bool" where
  "served i j p c v \<longleftrightarrow> status v = Running \<and> plugins v i = None \<and> plugins v j = Some p \<and> https v i = Some (j, c)"

text \<open>Where the VM stands when a stream has been served up to some point.\<close>

definition stands :: "uint32 \<Rightarrow> uint32 \<Rightarrow> 'p \<Rightarrow> 'c \<Rightarrow> 'w \<Rightarrow> (uint32 \<times> vm_reply) list \<Rightarrow> ('p, 'c, 't, 'w) vm \<Rightarrow> bool" where
  "stands i j p c w rs v \<longleftrightarrow> status v = Running \<and> plugins v i = None \<and> plugins v j = Some p
     \<and> https v i = Some (j, c) \<and> world v = w \<and> replies v = rs"

lemma phase_alone:
  assumes "stands i j p c w rs v" and "OnHttp P ph p c n e (d w) = Some (Return a, p, c', w')"
  shows "stands i j p c' w' (rs @ [(i, Acted a)]) (vm_step P enter_alone (i, d, HttpPhase ph n e) v)"
  using assms by (auto simp: vm_step_def enter_alone_def stands_def reply_def)

lemma frames_alone:
  assumes "\<And>c n e s. OnHttp P OnRequestBody p (C c) n e s = changes p C (f c n e s)"
  shows "stands i j p (C c) w rs v \<Longrightarrow> feed_frames f deliver ds c w = (as, c', w') \<Longrightarrow>
    list_all (\<lambda>r. \<forall>m. r \<noteq> Panic m) as \<Longrightarrow>
    stands i j p (C c') w' (rs @ answered_by i as)
      (vm_run P enter_alone (map (\<lambda>d. (i, deliver d, HttpPhase OnRequestBody (frame_size d) False)) ds) v)"
proof (induction ds arbitrary: c w rs v as)
  case Nil
  then show ?case by (simp add: answered_by_def)
next
  case (Cons d ds)
  obtain r c1 w1 where 1: "f c (frame_size d) False (deliver d w) = (r, c1, w1)" by (metis prod_cases3)
  obtain as2 where 2: "feed_frames f deliver ds c1 w1 = (as2, c', w')" and as: "as = r # as2"
    using Cons.prems(2) 1 by (auto split: prod.splits)
  obtain a where a: "r = Return a" using Cons.prems(3) as by (cases r) auto
  have "stands i j p (C c1) w1 (rs @ [(i, Acted a)])
      (vm_step P enter_alone (i, deliver d, HttpPhase OnRequestBody (frame_size d) False) v)"
    by (rule phase_alone [OF Cons.prems(1)]) (simp add: assms changes_def 1 a)
  from Cons.IH [OF this 2] show ?case
    using Cons.prems(3) as a by (simp add: answered_by_def)
qed

lemma body_alone:
  assumes "\<And>c n e s. OnHttp P OnRequestBody p (C c) n e s = changes p C (f c n e s)"
    and "stands i j p (C c) w rs v" and "stream_body f deliver ds d c w = (as, c', w')"
    and "list_all (\<lambda>r. \<forall>m. r \<noteq> Panic m) as"
  shows "stands i j p (C c') w' (rs @ answered_by i as) (vm_run P enter_alone (body_events i deliver ds d) v)"
proof -
  obtain as1 c1 w1 where 1: "feed_frames f deliver ds c w = (as1, c1, w1)" by (metis prod_cases3)
  obtain r where 2: "f c1 (frame_size d) True (deliver d w1) = (r, c', w')" and as: "as = as1 @ [r]"
    using assms(3) 1 by (auto simp: stream_body_def split: prod.splits)
  obtain a where a: "r = Return a" using assms(4) as by (cases r) auto
  have "stands i j p (C c1) w1 (rs @ answered_by i as1)
      (vm_run P enter_alone (map (\<lambda>d. (i, deliver d, HttpPhase OnRequestBody (frame_size d) False)) ds) v)"
    using frames_alone [OF assms(1,2) 1] assms(4) as by simp
  from phase_alone [where P = P and d = "deliver d" and n = "frame_size d" and e = True, OF this] show ?thesis
    using assms(1) 2 as a by (simp add: body_events_def answered_by_def changes_def)
qed

text \<open>The request as a whole, from the result of its header callback.\<close>

lemma request_alone:
  assumes "\<And>c n e s. OnHttp P OnRequestBody p (C c) n e s = changes p C (f c n e s)"
    and "NewHttpContext P p i (world v) = (Some c0, world v)"
    and "OnHttp P OnRequestHeaders p c0 k False (arrive (world v)) = Some (Return a, p, C c1, w1)"
    and "stream_body f deliver ds d c1 w1 = (as, c', w')" and "list_all (\<lambda>r. \<forall>m. r \<noteq> Panic m) as"
    and "status v = Running" and "fresh v i" and "plugins v j = Some p"
  shows "stands i j p (C c') w' (replies v @ (i, Acted a) # answered_by i as)
    (vm_run P enter_alone (request_events i j arrive k deliver ds d) v)"
proof -
  have "stands i j p c0 (world v) (replies v) (vm_step P enter_alone (i, id, HttpCreated j) v)"
    using assms(2,6,7,8) by (auto simp: vm_step_def enter_alone_def stands_def fresh_def)
  from phase_alone [where P = P and d = arrive, OF this assms(3)] show ?thesis
    using body_alone [OF assms(1) _ assms(4,5)] by (fastforce simp: request_events_def)
qed

lemma answered_by_replicate:
  "answered_by i (replicate n (Return a) @ [Return b]) = replicate n (i, Acted a) @ [(i, Acted b)]"
  by (induction n) (simp_all add: answered_by_def)

lemma alone_sel [simp]:
  "plugins (alone i v) = plugins v" "https (alone i v) i = https v i" "world (alone i v) = snd (world v) i"
  "replies (alone i v) = of_stream i (replies v)" "status (alone i v) = status v"
  by (simp_all add: alone_def)

lemma fresh_alone: "fresh v i \<Longrightarrow> fresh (alone i v) i"
  by (simp add: fresh_def alone_def)

lemma json_headers_continue:
  "GetHttpRequestHeader H ''content-type'' h = (''application/json'', None) \<Longrightarrow>
     json_OnHttpRequestHeaders H c n e h = (Return ActionContinue, c, h)"
  by (simp add: json_OnHttpRequestHeaders_def)

definition arriving :: "headers \<Rightarrow> emulator \<Rightarrow> emulator" where
  "arriving hs h = h\<lparr>em_request_headers := hs\<rparr>"

text \<open>The operation that a request asks for: one of three by name, and otherwise the replacement.\<close>

definition asked_operation :: "string \<times> err \<Rightarrow> string" where
  "asked_operation r =
     (if snd r = None \<and> fst r \<in> {''append'', ''prepend'', ''replace''} then fst r else ''replace'')"

lemma setBody_headers_request:
  assumes "fst (GetHttpRequestHeader H ''buffer-replace-at'' h) \<noteq> ''response''"
    and "snd (GetHttpRequestHeader H ''content-length'' h) = None"
    and "RemoveHttpRequestHeader H ''content-length'' h = (None, s)"
  shows "setBody_OnHttpRequestHeaders H (fresh_setBody m '''') n e h
    = (Return ActionContinue, fresh_setBody m (asked_operation (GetHttpRequestHeader H ''buffer-operation'' s)), s)"
  using assms
  by (auto simp: setBody_OnHttpRequestHeaders_def asked_operation_def fresh_setBody_def buffer_operations Let_def split: prod.splits)

section \<open>Properties\<close>

text \<open>C11: However many streams a VM serves and however their callbacks interleave: as long as no
  callback panics, the body of each request with a content-length, unless it asks for the response, is
  edited as a whole as its own header buffer-operation asks, by replacement if the header is
  missing or names no operation; its frames are answered with pauses until the last goes on. The
  other streams, their headers and their bodies make no difference.\<close>

theorem body_edited_among_streams:
  assumes "many_streams H Q D E"
    and "body_channel H (GetHttpRequestBody H) (AppendHttpRequestBody H) (PrependHttpRequestBody H)
      (ReplaceHttpRequestBody H) body deliver"
    and "list_all http_event es" and "of_stream i es = request_events i j arrive k deliver ds d"
    and "status v = Running" and "fresh v i" and "plugins v j = Some p" and "\<not> shouldEchoBody p"
    and "h = arrive (snd (world v) i)" and "fst (GetHttpRequestHeader H ''buffer-replace-at'' h) \<noteq> ''response''"
    and "snd (GetHttpRequestHeader H ''content-length'' h) = None"
    and "RemoveHttpRequestHeader H ''content-length'' h = (None, s)"
    and "body s = []" and "concat (ds @ [d]) \<noteq> []" and "length (concat (ds @ [d])) < 2 ^ 31"
    and "status (vm_run (body_program Q E) enter_stream es v) = Running"
  shows "let v' = vm_run (body_program Q E) enter_stream es v in
    body (snd (world v') i)
      = edited (asked_operation (GetHttpRequestHeader H ''buffer-operation'' s)) (concat (ds @ [d]))
    \<and> of_stream i (replies v') = of_stream i (replies v) @ (i, Acted ActionContinue)
        # replicate (length ds) (i, Acted ActionPause) @ [(i, Acted ActionContinue)]"
proof -
  define op where "op = asked_operation (GetHttpRequestHeader H ''buffer-operation'' s)"
  obtain c' s' where edit: "stream_body (setBody_OnHttpRequestBody H) deliver ds d (fresh_setBody False op) s
      = (replicate (length ds) (Return ActionPause) @ [Return ActionContinue], c', s')"
    "body s' = edited op (concat (ds @ [d]))"
    using setBody_request_edited [OF assms(2,13-15), of op] by auto
  have "stands i j p (SetBody c') s' (replies (alone i v) @ (i, Acted ActionContinue)
        # answered_by i (replicate (length ds) (Return ActionPause) @ [Return ActionContinue]))
      (vm_run (body_program H D) enter_alone (request_events i j arrive k deliver ds d) (alone i v))"
    by (rule request_alone [where f = "setBody_OnHttpRequestBody H" and C = SetBody
          and ?c0.0 = "SetBody (fresh_setBody False '''')" and ?c1.0 = "fresh_setBody False op" and ?w1.0 = s])
       (use assms(5-9) edit fresh_alone setBody_headers_request [OF assms(10-12)] in
        \<open>simp_all add: body_program_def program_fields body_NewHttpContext_def
          fresh_setBody_def changes_def list_all_iff op_def\<close>)
  then show ?thesis
    using stream_program.among [OF many_streams.body_program_streams [OF assms(1)] assms(3,5,16), of i] assms(4) edit(2)
    by (simp add: stands_def answered_by_replicate Let_def op_def)
qed

definition two_bodies :: "emulator vm_event list" where
  "two_bodies =
     [(2, id, HttpCreated 1), (3, id, HttpCreated 1),
      (3, arriving [(''content-length'', ''1''), (''buffer-operation'', ''prepend'')], HttpPhase OnRequestHeaders 2 False),
      (2, arriving [(''content-length'', ''7''), (''buffer-operation'', ''rewrite'')], HttpPhase OnRequestHeaders 2 False),
      (2, em_deliver_request ''[orig'', HttpPhase OnRequestBody 5 False),
      (3, em_deliver_request ''x'', HttpPhase OnRequestBody 1 True),
      (2, em_deliver_request ''inal]'', HttpPhase OnRequestBody 5 True)]"

abbreviation body_vm :: "(body_pluginContext, body_HttpContext, unit, emulator streams) vm" where
  "body_vm \<equiv> vm_with 1 \<lparr>shouldEchoBody = False\<rparr> (0, \<lambda>_. emulator_init)"

theorem body_edited_among_streams_witness:
  "let v' = vm_run (body_program (lift_host reference_host) (lift_default passing_contexts)) enter_stream two_bodies body_vm in
    em_request_body (snd (world v') 2) = ''[this is replaced body]''
    \<and> of_stream 2 (replies v') = of_stream 2 (replies body_vm) @ (2, Acted ActionContinue)
        # replicate (length [''[orig'']) (2, Acted ActionPause) @ [(2, Acted ActionContinue)]"
proof -
  let ?a = "arriving [(''content-length'', ''7''), (''buffer-operation'', ''rewrite'')]"
  let ?h = "?a (snd (world body_vm) 2)"
  let ?s = "?h\<lparr>em_request_headers := [(''buffer-operation'', ''rewrite'')]\<rparr>"
  have run: "status (vm_run (body_program (lift_host reference_host) (lift_default passing_contexts)) enter_stream two_bodies body_vm) = Running"
    by code_simp
  have events: "list_all http_event two_bodies"
    "of_stream 2 two_bodies = request_events 2 1 ?a 2 em_deliver_request [''[orig''] ''inal]''"
    by (simp_all add: two_bodies_def request_events_def body_events_def frame_size_def)
  have vm: "status body_vm = Running" "fresh body_vm 2" "plugins body_vm 1 = Some \<lparr>shouldEchoBody = False\<rparr>"
    "\<not> shouldEchoBody \<lparr>shouldEchoBody = False\<rparr>"
    by (simp_all add: vm_with_def fresh_def)
  have asked: "fst (GetHttpRequestHeader reference_host ''buffer-replace-at'' ?h) \<noteq> ''response''"
    "snd (GetHttpRequestHeader reference_host ''content-length'' ?h) = None"
    "RemoveHttpRequestHeader reference_host ''content-length'' ?h = (None, ?s)"
    "GetHttpRequestHeader reference_host ''buffer-operation'' ?s = (''rewrite'', None)"
    by (simp_all add: reference_simps remove_header_def arriving_def)
  have body: "em_request_body ?s = []" "concat ([''[orig''] @ [''inal]'']) \<noteq> []"
    "length (concat ([''[orig''] @ [''inal]''])) < 2 ^ 31"
    by (simp_all add: vm_with_def arriving_def emulator_init_def)
  have "edited (asked_operation (''rewrite'', None)) b = ''[this is replaced body]''" for b
    by (simp add: asked_operation_def edited_def buffer_operations)
  then show ?thesis
    using body_edited_among_streams [OF lifted.many_streams_axioms reference_request.body_channel_axioms
        events vm refl asked(1-3) body run] by (simp only: asked(4))
qed

text \<open>C10: However many streams a VM serves and however their callbacks interleave: as long as no
  callback panics, \<open>json_validation\<close> lets the body of each request of the right content type through
  exactly when it is valid JSON with every key of its own plugin context's configuration, whatever
  the other streams and the other plugin contexts of the VM do, and an acceptable request gets no answer.\<close>

theorem json_enforced_among_streams:
  assumes "many_streams H Q D E"
    and "body_channel H (GetHttpRequestBody H) app pre rep body deliver"
    and "request_gate H effective resumed answered"
    and "\<And>d h. answered (deliver d h) = answered h \<and> resumed (deliver d h) = resumed h"
    and "list_all http_event es" and "of_stream i es = request_events i j arrive k deliver ds d"
    and "status v = Running" and "fresh v i" and "plugins v j = Some p"
    and "s = arrive (snd (world v) i)" and "GetHttpRequestHeader H ''content-type'' s = (''application/json'', None)"
    and "body s = []" and "concat (ds @ [d]) \<noteq> []" and "length (concat (ds @ [d])) < 2 ^ 31"
    and "status (vm_run (json_program Q G E) enter_stream es v) = Running"
  shows "let v' = vm_run (json_program Q G E) enter_stream es v;
             ok = acceptable G (requiredKeys (configuration p)) (concat (ds @ [d]))
         in of_stream i (replies v') = of_stream i (replies v) @ (i, Acted ActionContinue)
              # replicate (length ds) (i, Acted ActionPause) @ [(i, Acted (if ok then ActionContinue else ActionPause))]
            \<and> (ok \<longrightarrow> answered (snd (world v') i) = answered s)"
proof -
  let ?c = "json_NewHttpContext p i"
  let ?ok = "acceptable G (requiredKeys (configuration p)) (concat (ds @ [d]))"
  let ?as = "replicate (length ds) (Return ActionPause) @ [Return (if ?ok then ActionContinue else ActionPause)]"
  obtain c' s' where "stream_body (json_OnHttpRequestBody H G) deliver ds d ?c s = (?as, c', s')"
    and a: "answered s' = answered s \<or> \<not> ?ok"
    using json_validation_enforced [where ctx = p and c = i and G = G and h = s and ds = ds and d = d
        and deliver = deliver and body = body and answered = answered and resumed = resumed, OF assms(2-4,12-14)]
    by (cases "stream_body (json_OnHttpRequestBody H G) deliver ds d ?c s") (auto simp: Let_def)
  then have "stands i j p c' s' (replies (alone i v) @ (i, Acted ActionContinue) # answered_by i ?as)
      (vm_run (json_program H G D) enter_alone (request_events i j arrive k deliver ds d) (alone i v))"
    by (intro request_alone [where f = "json_OnHttpRequestBody H G" and C = id
          and ?c0.0 = ?c and ?c1.0 = ?c and ?w1.0 = s, simplified id_apply])
       (use assms fresh_alone in \<open>simp_all add: json_program_def program_fields changes_def list_all_iff
          json_headers_continue\<close>)
  then show ?thesis
    using stream_program.among [OF many_streams.json_program_streams [OF assms(1)] assms(5,7,15), of i] assms(6) a
    by (auto simp: stands_def answered_by_replicate Let_def)
qed

text \<open>Two plugin contexts in one VM, of which one asks for a key, and a stream of each.\<close>

definition json_vm :: "(json_pluginContext, payloadValidationContext, unit, emulator streams) vm" where
  "json_vm = (vm_with 1 \<lparr>configuration = \<lparr>requiredKeys = [''id'']\<rparr>\<rparr> (0, \<lambda>_. emulator_init))
     \<lparr>plugins := [1 \<mapsto> \<lparr>configuration = \<lparr>requiredKeys = [''id'']\<rparr>\<rparr>, 2 \<mapsto> \<lparr>configuration = \<lparr>requiredKeys = []\<rparr>\<rparr>]\<rparr>"

definition two_payloads :: "emulator vm_event list" where
  "two_payloads =
     [(3, id, HttpCreated 1), (4, id, HttpCreated 2),
      (3, arriving [(''content-type'', ''application/json'')], HttpPhase OnRequestHeaders 1 False),
      (4, arriving [(''content-type'', ''application/json'')], HttpPhase OnRequestHeaders 1 False),
      (3, em_deliver_request ''{'', HttpPhase OnRequestBody 1 False),
      (4, em_deliver_request ''{}'', HttpPhase OnRequestBody 2 True),
      (3, em_deliver_request ''}'', HttpPhase OnRequestBody 1 True)]"

theorem json_enforced_among_streams_witness:
  "let v' = vm_run (json_program (lift_host reference_host) braces_gjson (lift_default passing_contexts)) enter_stream two_payloads json_vm;
       ok = acceptable braces_gjson (requiredKeys (configuration \<lparr>configuration = \<lparr>requiredKeys = [''id'']\<rparr>\<rparr>)) (concat ([''{''] @ [''}'']))
   in of_stream 3 (replies v') = of_stream 3 (replies json_vm) @ (3, Acted ActionContinue)
        # replicate (length [''{'']) (3, Acted ActionPause) @ [(3, Acted (if ok then ActionContinue else ActionPause))]
      \<and> (ok \<longrightarrow> em_local_responses (snd (world v') 3)
          = em_local_responses (arriving [(''content-type'', ''application/json'')] (snd (world json_vm) 3)))"
proof -
  have run: "status (vm_run (json_program (lift_host reference_host) braces_gjson (lift_default passing_contexts)) enter_stream two_payloads json_vm) = Running"
    by code_simp
  show ?thesis
    by (rule json_enforced_among_streams [OF lifted.many_streams_axioms reference_request.body_channel_axioms reference_gate.request_gate_axioms
          _ _ _ _ _ _ refl _ _ _ _ run, where j = 1 and k = 1])
       (simp_all add: two_payloads_def json_vm_def request_events_def body_events_def vm_with_def fresh_def
         emulator_init_def arriving_def [abs_def] frame_size_def em_deliver_request_def reference_simps)
qed

end
