(* ===== verification/Plugin_Lives.thy ===== *)
theory Plugin_Lives
  imports Plugin_Programs
begin

text \<open>
  The lives of two programs in the VM: \<open>postpone_requests\<close>, whose HTTP contexts change the plugin
  context above them, and \<open>metrics\<close>, whose contexts share a package variable. The VM that serves
  their requests goes through the events that \<open>Postpone_Requests\<close> and \<open>Metrics\<close> are about.
\<close>

section \<open>Requests that wait\<close>

fun postpone_vm_events :: "uint32 \<Rightarrow> postpone_event \<Rightarrow> 's vm_event list" where
  "postpone_vm_events j (Arrives c) = [(c, id, HttpCreated j), (c, id, HttpPhase OnRequestHeaders 0 True)]"
| "postpone_vm_events j Tick = [(j, id, Ticked)]"

definition postpone_life :: "uint32 \<Rightarrow> postpone_event list \<Rightarrow> 's vm_event list" where
  "postpone_life j es = concat (map (postpone_vm_events j) es)"

lemma postpone_program_sel [simp]:
  "OnTick (postpone_program H D) = postpone_OnTick H"
  "NewHttpContext (postpone_program H D) p c h = (Some (postpone_NewHttpContext c), h)"
  "OnHttp (postpone_program H D) OnRequestHeaders p x n e h =
     (case postpone_OnHttpRequestHeaders H x p n e h of (a, p, h) \<Rightarrow> Some (Return a, p, x, h))"
  by (simp_all add: postpone_program_def embed_def pure_stream_def keeps_def split: prod.split)

text \<open>One event leaves the VM as \<open>postpone_event_step\<close> says, and other ids fresh.\<close>

lemma postpone_vm_step:
  fixes v :: "(postpone_pluginContext, postpone_httpContext, unit, 'h) vm" and H :: "'h host" and D :: "'h default_contexts"
  assumes "plugins v j = Some ctx" and "status v = Running" and "\<And>c. e = Arrives c \<Longrightarrow> fresh v c"
  defines "v' \<equiv> vm_run (postpone_program H D) enter_alone (postpone_vm_events j e) v"
  shows "plugins v' j = Some (fst (postpone_event_step H e (ctx, world v)))"
    and "world v' = snd (postpone_event_step H e (ctx, world v))" and "status v' = Running"
    and "replies v' = replies v @ map (\<lambda>c. (c, Acted ActionPause)) (arrivals [e])"
    and "fresh v c \<Longrightarrow> c \<notin> set (arrivals [e]) \<Longrightarrow> fresh v' c"
  using assms(1,2,3) unfolding v'_def
  by - (cases e; auto simp: vm_step_def enter_alone_def fresh_def reply_def postpone_OnHttpRequestHeaders_def
      split: prod.splits)+

lemma arrivals_Cons: "arrivals (e # es) = arrivals [e] @ arrivals es"
  by (cases e) simp_all

lemma arrivals_append: "arrivals (es @ fs) = arrivals es @ arrivals fs"
  by (induction es) (simp, metis append_Cons append_assoc arrivals_Cons)

lemma arrivals_Arrives: "arrivals (map Arrives cs) = cs"
  by (induction cs) simp_all

lemma postpone_vm_run:
  assumes "plugins v j = Some ctx" and "status v = Running"
    and "distinct (arrivals es)" and "\<And>c. c \<in> set (arrivals es) \<Longrightarrow> fresh v c"
  shows "case vm_run (postpone_program H D) enter_alone (postpone_life j es) v of v' \<Rightarrow>
    plugins v' j = Some (fst (postpone_run H es (ctx, world v)))
    \<and> world v' = snd (postpone_run H es (ctx, world v)) \<and> status v' = Running
    \<and> replies v' = replies v @ map (\<lambda>c. (c, Acted ActionPause)) (arrivals es)"
  using assms
proof (induction es arbitrary: v ctx)
  case Nil
  then show ?case by (simp add: postpone_life_def postpone_run_def)
next
  case (Cons e es)
  note e = postpone_vm_step [OF Cons.prems(1,2), where e = e and H = H and D = D]
  let ?v = "vm_run (postpone_program H D) enter_alone (postpone_vm_events j e) v"
  have fresh_e: "\<And>c. e = Arrives c \<Longrightarrow> fresh v c" using Cons.prems(4) by simp
  have "distinct (arrivals es)" and "\<And>c. c \<in> set (arrivals es) \<Longrightarrow> c \<notin> set (arrivals [e])"
    using Cons.prems(3) by (auto simp: arrivals_Cons [of e es])
  then have "\<And>c. c \<in> set (arrivals es) \<Longrightarrow> fresh ?v c"
    using e(5) [OF fresh_e] Cons.prems(4) by (simp add: arrivals_Cons [of e es])
  from Cons.IH [OF e(1,3) [OF fresh_e] \<open>distinct (arrivals es)\<close> this] show ?case
    using e(2,4) [OF fresh_e] arrivals_Cons [of e es]
    by (simp add: postpone_life_def postpone_run_def)
qed

section \<open>Requests that count\<close>

text \<open>Requests with or without the header, each with its id and the plugin context it comes to.\<close>

definition metrics_life :: "(string \<Rightarrow> string option \<Rightarrow> 'h \<Rightarrow> 'h) \<Rightarrow> (uint32 \<times> uint32 \<times> string option) list
    \<Rightarrow> (counters \<times> 'h) vm_event list" where
  "metrics_life arrive rs = concat (map (\<lambda>(i, j, x).
     [(i, id, HttpCreated j), (i, apsnd (arrive customHeaderKey x), HttpPhase OnRequestHeaders 1 True)]) rs)"

lemma metrics_vm_run:
  fixes v :: "(unit, unit, unit, counters \<times> 'h) vm"
  assumes "status v = Running" and "distinct (map fst rs)"
    and "list_all (\<lambda>(i, j, x). fresh v i \<and> plugins v j \<noteq> None) rs"
  shows "world (vm_run (metrics_program H D) enter_alone (metrics_life arrive rs) v)
      = (case world v of (counters, h) \<Rightarrow> metrics_run H arrive (map (snd \<circ> snd) rs) counters h)
    \<and> status (vm_run (metrics_program H D) enter_alone (metrics_life arrive rs) v) = Running"
  using assms
proof (induction rs arbitrary: v)
  case Nil
  then show ?case by (simp add: metrics_life_def split: prod.split)
next
  case (Cons r rs)
  obtain i j x where r: "r = (i, j, x)" by (cases r)
  obtain counters h where w: "world v = (counters, h)" by fastforce
  obtain a counters' h' where m: "metrics_OnHttpRequestHeaders H 1 True counters (arrive customHeaderKey x h) = (a, counters', h')"
    by (metis prod_cases3)
  have fresh: "fresh v i" "plugins v j = Some ()" using Cons.prems(3) r by auto
  let ?v = "v\<lparr>https := (https v)(i \<mapsto> (j, ())), world := (counters', h'), replies := replies v @ [(i, Acted a)]\<rparr>"
  have step: "vm_run (metrics_program H D) enter_alone (metrics_life arrive [r]) v = ?v"
    using fresh Cons.prems(1) m w
    by (auto simp: r metrics_life_def metrics_program_def embed_def pure_stream_def keeps_def vm_step_def
        enter_alone_def fresh_def reply_def fun_upd_idem)
  have "list_all (\<lambda>(i, j, x). fresh ?v i \<and> plugins ?v j \<noteq> None) rs"
    using Cons.prems(2,3) r by (force simp: fresh_def list_all_iff)
  from Cons.IH [OF _ _ this] have "world (vm_run (metrics_program H D) enter_alone (metrics_life arrive rs) ?v)
      = metrics_run H arrive (map (snd \<circ> snd) rs) counters' h'
    \<and> status (vm_run (metrics_program H D) enter_alone (metrics_life arrive rs) ?v) = Running"
    using Cons.prems(1,2) by (simp add: comp_def)
  moreover have "metrics_life arrive (r # rs) = metrics_life arrive [r] @ metrics_life arrive rs"
    by (simp add: metrics_life_def)
  ultimately show ?case using step m w r by (simp add: comp_def)
qed

section \<open>Properties\<close>

text \<open>C12: In the VM, every request is resumed exactly once, in the order of arrival, and waits exactly
  until the next tick: after any sequence of requests and ticks, the requests resumed are those that
  came before the last tick, those that wait are those that came after it, every request was paused
  when it came, and the VM runs on.\<close>

theorem postpone_vm_resumes:
  assumes "resume_host H effective resumed" and "resumed (world v) = []"
    and "plugins v j = Some (postpone_NewPluginContext pid)" and "status v = Running"
    and "distinct (arrivals es @ cs)" and "\<And>c. c \<in> set (arrivals es @ cs) \<Longrightarrow> fresh v c"
  shows "let v' = vm_run (postpone_program H D) enter_alone (postpone_life j (es @ [Tick] @ map Arrives cs)) v in
    status v' = Running \<and> resumed (world v') = arrivals es
    \<and> map_option postponed (plugins v' j) = Some cs
    \<and> replies v' = replies v @ map (\<lambda>c. (c, Acted ActionPause)) (arrivals es @ cs)"
proof -
  let ?es = "es @ [Tick] @ map Arrives cs"
  have arr: "arrivals ?es = arrivals es @ cs" by (simp add: arrivals_append arrivals_Arrives)
  obtain ctx' h' where run: "postpone_run H ?es (postpone_NewPluginContext pid, world v) = (ctx', h')" by fastforce
  show ?thesis
    using postpone_vm_run [OF assms(3,4), of ?es H D] postpone_resumes_in_order [OF assms(1,2) run]
      assms(5,6) arr run by (simp add: Let_def)
qed

theorem postpone_vm_resumes_witness:
  "let v' = vm_run (postpone_program reference_host passing_contexts) enter_alone
        (postpone_life 1 ([Arrives 2, Tick, Arrives 5] @ [Tick] @ map Arrives [7]))
        (vm_with 1 (postpone_NewPluginContext 1) emulator_init) in
    status v' = Running \<and> em_resumed_requests (world v') = arrivals [Arrives 2, Tick, Arrives 5]
    \<and> map_option postponed (plugins v' 1) = Some [7]
    \<and> replies v' = replies (vm_with 1 (postpone_NewPluginContext 1) emulator_init :: (_, postpone_httpContext, unit, _) vm)
        @ map (\<lambda>c. (c, Acted ActionPause)) (arrivals [Arrives 2, Tick, Arrives 5] @ [7])"
  by (rule postpone_vm_resumes [OF reference_resume.resume_host_axioms])
     (auto simp: vm_with_def emulator_init_def fresh_def)

text \<open>C24: The counters are those of the whole VM: whatever plugin contexts requests come to, the counter
  of each value of the header grows by the number of requests with that value, modulo \<open>2 ^ 64\<close>; a
  request without the header and every other metric are left alone.\<close>

theorem metrics_vm_counts:
  fixes v :: "(unit, unit, unit, counters \<times> 'h) vm"
  assumes "metrics_host H metric bound defined arrive" and "world v = (initial_counters, h)"
    and "defined h + length rs < 2 ^ 32" and "status v = Running" and "distinct (map fst rs)"
    and "list_all (\<lambda>(i, j, x). fresh v i \<and> plugins v j \<noteq> None) rs"
  shows "let h' = snd (world (vm_run (metrics_program H D) enter_alone (metrics_life arrive rs) v)) in
    metric h' (counter_fqn x) = metric h (counter_fqn x) + word_of_nat (count_list (map (snd \<circ> snd) rs) (Some x))
    \<and> (n \<in> range counter_fqn \<or> metric h' n = metric h n)"
  using metrics_count_requests [OF assms(1), of h "map (snd \<circ> snd) rs" x n]
    metrics_vm_run [OF assms(4,5,6), where H = H and D = D and arrive = arrive] assms(2,3)
  by (auto simp: Let_def case_prod_beta split: if_splits)

theorem metrics_vm_counts_witness:
  "let rs = [(3, 1, Some ''foo''), (4, 2, None), (5, 2, Some ''bar''), (6, 2, Some ''foo'')];
       v = (vm_with 1 () (initial_counters, emulator_init))\<lparr>plugins := [1 \<mapsto> (), 2 \<mapsto> ()]\<rparr>;
       h' = snd (world (vm_run (metrics_program reference_host passing_contexts) enter_alone (metrics_life em_arrive_with rs) v)) in
    em_metric h' (counter_fqn ''foo'') = em_metric emulator_init (counter_fqn ''foo'')
      + word_of_nat (count_list (map (snd \<circ> snd) rs) (Some ''foo''))
    \<and> (''other'' \<in> range counter_fqn \<or> em_metric h' ''other'' = em_metric emulator_init ''other'')"
  unfolding Let_def
  by (rule metrics_vm_counts [OF reference_metrics.metrics_host_axioms, unfolded Let_def])
     (auto simp: vm_with_def fresh_def emulator_init_def em_defined_def)

end
