(* ===== verification/Http_Server.thy ===== *)
theory Http_Server
  imports Go_Stdlib
begin

text \<open>
  What the small web services of the repository use of \<open>net/http\<close>: the response writer, a handler,
  the default mux, the client, and a single \<open>Read\<close> of a response body. The router chi is not part of the repository:
  the contract \<open>chi_router\<close> says what the services rely on.
\<close>

section \<open>A handler's exchange\<close>

record http_request =
  Method :: string
  URLPath :: string
  RawQuery :: string
  RemoteAddr :: string
  RequestHeader :: headers

text \<open>
  The response under construction: the header map, the status line once it is written with the
  headers as they were then, the body, and the lines logged. The body of a reply that may not have
  one is dropped by \<open>Write\<close>.
\<close>

record exchange =
  header :: "(string, string) fmap"
  written :: "(int \<times> (string, string) fmap) option"
  sent_body :: string
  log_lines :: "string list"

definition fresh_exchange :: exchange where
  "fresh_exchange = \<lparr>header = fmempty, written = None, sent_body = '''', log_lines = []\<rparr>"

type_synonym handler = "http_request \<Rightarrow> exchange \<Rightarrow> unit outcome \<times> exchange"

definition Header_Set :: "string \<Rightarrow> string \<Rightarrow> exchange \<Rightarrow> exchange" where
  "Header_Set k v x = x\<lparr>header := fmupd k v (header x)\<rparr>"

definition log_Printf :: "string \<Rightarrow> exchange \<Rightarrow> exchange" where
  "log_Printf s x = x\<lparr>log_lines := log_lines x @ [s]\<rparr>"

text \<open>\<open>WriteHeader\<close> panics on a code that has not three digits, and has no effect the second time.\<close>

definition WriteHeader :: "int \<Rightarrow> exchange \<Rightarrow> unit outcome \<times> exchange" where
  "WriteHeader code x =
     (if code < 100 \<or> code > 999 then (Panic ''invalid WriteHeader code'', x)
      else case written x of
             None \<Rightarrow> (Return (), x\<lparr>written := Some (code, header x)\<rparr>)
           | Some _ \<Rightarrow> (Return (), x))"

definition body_allowed :: "int \<Rightarrow> bool" where
  "body_allowed code \<longleftrightarrow> \<not> (100 \<le> code \<and> code \<le> 199) \<and> code \<noteq> 204 \<and> code \<noteq> 304"

definition Write :: "string \<Rightarrow> exchange \<Rightarrow> exchange" where
  "Write b x =
     (let x = (case written x of None \<Rightarrow> x\<lparr>written := Some (200, header x)\<rparr> | Some _ \<Rightarrow> x)
      in if body_allowed (fst (the (written x))) then x\<lparr>sent_body := sent_body x @ b\<rparr> else x)"

text \<open>
  What the peer gets when the handler has returned: status 200 if nothing was written. The headers that the
  server adds itself (\<open>Date\<close>, the length and a guessed type of the body) are left out.
\<close>

record http_response =
  StatusCode :: int
  ResponseHeader :: "(string, string) fmap"
  Body :: "string list"

definition finish :: "exchange \<Rightarrow> http_response" where
  "finish x =
     (let (code, hs) = (case written x of None \<Rightarrow> (200, header x) | Some ch \<Rightarrow> ch)
      in \<lparr>StatusCode = code, ResponseHeader = hs, Body = (if sent_body x = '''' then [] else [sent_body x])\<rparr>)"

text \<open>The body of an answer to HEAD is not sent.\<close>

definition answered_with :: "http_request \<Rightarrow> exchange \<Rightarrow> http_response" where
  "answered_with r x = (if Method r = ''HEAD'' then (finish x)\<lparr>Body := []\<rparr> else finish x)"

declare log_Printf_def [exchange_defs] Write_def [exchange_defs] body_allowed_def [exchange_defs]
  finish_def [exchange_defs] fresh_exchange_def [exchange_defs]

section \<open>The client\<close>

text \<open>
  A body arrives in pieces; one \<open>Read\<close> into a buffer of \<open>n\<close> bytes returns at most \<open>n\<close> bytes of the
  first piece, and nothing at the end. The client reaches the network through \<open>Do\<close>, which is a
  parameter, as \<open>NewRequest\<close> is: \<open>Some e\<close> and \<open>Inl e\<close> are their errors.
\<close>

definition Read :: "nat \<Rightarrow> string list \<Rightarrow> string" where
  "Read n pieces = (case pieces of [] \<Rightarrow> '''' | p # _ \<Rightarrow> take n p)"

record http_client =
  NewRequest :: "string \<Rightarrow> string \<Rightarrow> string option"
  Do :: "string \<Rightarrow> string \<Rightarrow> headers \<Rightarrow> string + http_response"

section \<open>Handlers that leave the headers to others\<close>

text \<open>
  The contract of a handler under a middleware: it does not touch the header map, and whatever it
  writes first goes out with the headers as they are.
\<close>

definition well_formed :: "exchange \<Rightarrow> bool" where
  "well_formed x \<longleftrightarrow> (case written x of None \<Rightarrow> True | Some (_, hs) \<Rightarrow> hs = header x)"

locale http_handler =
  fixes serve :: handler
  assumes serve_header: "header (snd (serve r x)) = header x"
    and serve_well_formed: "well_formed x \<Longrightarrow> well_formed (snd (serve r x))"
begin

lemma response_header:
  "well_formed x \<Longrightarrow> ResponseHeader (finish (snd (serve r x))) = header x"
  using serve_well_formed [of x r] serve_header [of r x]
  by (auto simp: finish_def well_formed_def split: option.splits prod.splits)

end

lemma log_Printf_simps [simp]:
  "header (log_Printf s x) = header x" "written (log_Printf s x) = written x"
  "sent_body (log_Printf s x) = sent_body x" "well_formed (log_Printf s x) = well_formed x"
  by (simp_all add: log_Printf_def well_formed_def split: option.split)

lemma Write_simps [simp]:
  "header (Write b x) = header x" "well_formed x \<Longrightarrow> well_formed (Write b x)"
  by (auto simp: Write_def Let_def well_formed_def split: option.splits)

lemma WriteHeader_simps [simp]:
  "header (snd (WriteHeader c x)) = header x" "well_formed x \<Longrightarrow> well_formed (snd (WriteHeader c x))"
  by (auto simp: WriteHeader_def well_formed_def split: option.splits)

lemma well_formed_fresh [simp]: "well_formed fresh_exchange"
  by (simp add: well_formed_def fresh_exchange_def)

section \<open>The default mux\<close>

text \<open>
  \<open>http.HandleFunc\<close> with the pattern \<open>/\<close>: \<open>ServeMux\<close> redirects a path with repeated slashes or with elements
  \<open>.\<close> or \<open>..\<close> to the clean path, and the handler gets every other. A path is meant as it stands, without percent
  escapes, which the versions of Go treat differently.
\<close>

definition rooted :: "string \<Rightarrow> bool" where
  "rooted p \<longleftrightarrow> p \<noteq> [] \<and> hd p = CHR ''/''"

definition cleanPath :: "string \<Rightarrow> string" where
  "cleanPath p =
     (let p = (if rooted p then p else CHR ''/'' # p);
          np = filepath_Clean p
      in if last p = CHR ''/'' \<and> np \<noteq> ''/'' then np @ ''/'' else np)"

definition request_query :: "http_request \<Rightarrow> string" where
  "request_query r = (if RawQuery r = [] then [] else CHR ''?'' # RawQuery r)"

definition htmlEscape :: "string \<Rightarrow> string" where
  "htmlEscape s = concat (map (\<lambda>c.
     if c = CHR ''&'' then ''&amp;'' else if c = CHR ''<'' then ''&lt;'' else if c = CHR ''>'' then ''&gt;''
     else if c = CHR 0x22 then ''&#34;'' else if c = CHR 0x27 then ''&#39;'' else [c]) s)"

definition hexEscapeNonASCII :: "string \<Rightarrow> string" where
  "hexEscapeNonASCII s = concat (map (\<lambda>c. if 128 \<le> (of_char c :: nat) then CHR ''%'' # hex_EncodeToString [c] else [c]) s)"

text \<open>\<open>http.Redirect\<close> to a path that is clean already, and \<open>http.NotFound\<close>.\<close>

definition RedirectPermanently :: "string \<Rightarrow> handler" where
  "RedirectPermanently url r x =
     (let hadCT = (fmlookup (header x) ''Content-Type'' \<noteq> None);
          x = Header_Set ''Location'' (hexEscapeNonASCII url) x;
          x = (if \<not> hadCT \<and> (Method r = ''GET'' \<or> Method r = ''HEAD'')
               then Header_Set ''Content-Type'' ''text/html; charset=utf-8'' x else x)
      in case WriteHeader 301 x of
           (end, x) \<Rightarrow> (end, if \<not> hadCT \<and> Method r = ''GET''
              then Write (''<a href='' @ [CHR 0x22] @ htmlEscape url @ [CHR 0x22] @ ''>Moved Permanently</a>.'' @ [CHR 0x0A, CHR 0x0A]) x
              else x))"

definition NotFound :: handler where
  "NotFound r x =
     (let x = Header_Set ''X-Content-Type-Options'' ''nosniff'' (Header_Set ''Content-Type'' ''text/plain; charset=utf-8'' x)
      in case WriteHeader 404 x of (end, x) \<Rightarrow> (end, Write (''404 page not found'' @ [CHR 0x0A]) x))"

definition default_mux :: "handler \<Rightarrow> handler" where
  "default_mux serve r x =
     (if URLPath r = ''*''
      then (if Method r = ''OPTIONS'' then (Return (), Header_Set ''Content-Length'' ''0'' x)
            else WriteHeader 400 (Header_Set ''Connection'' ''close'' x))
      else if Method r = ''CONNECT'' then (if rooted (URLPath r) then serve r x else NotFound r x)
      else if cleanPath (URLPath r) \<noteq> URLPath r then RedirectPermanently (cleanPath (URLPath r) @ request_query r) r x
      else serve r x)"

lemma cleanPath_root [simp]: "cleanPath ''/'' = ''/''"
  by (simp add: cleanPath_def rooted_def filepath_Clean_def clean_step_def)

text \<open>A clean path starts with a slash and is left alone: nobody is redirected twice.\<close>

lemma cleanPath_elements:
  obtains es t where "cleanPath p = CHR ''/'' # strings_Join es ''/'' @ t" and "list_all plain_element es"
    and "t = [] \<or> t = ''/'' \<and> es \<noteq> []"
proof -
  define q where "q = (if rooted p then tl p else p)"
  have q: "(if rooted p then p else CHR ''/'' # p) = CHR ''/'' # q"
    by (cases p) (auto simp: q_def rooted_def)
  obtain es where es: "filepath_Clean (CHR ''/'' # q) = CHR ''/'' # strings_Join es ''/''" "list_all plain_element es"
    by (rule filepath_Clean_rooted)
  show ?thesis
    by (rule that [of es "if last (CHR ''/'' # q) = CHR ''/'' \<and> filepath_Clean (CHR ''/'' # q) \<noteq> ''/'' then ''/'' else []"])
       (use es in \<open>auto simp: cleanPath_def q Let_def\<close>)
qed

lemma clean_slashed:
  assumes "list_all plain_element es" and "t = [] \<or> t = ''/'' \<and> es \<noteq> []"
  shows "cleanPath (CHR ''/'' # strings_Join es ''/'' @ t) = CHR ''/'' # strings_Join es ''/'' @ t"
proof (cases "es = []")
  case True
  then show ?thesis using assms(2) by simp
next
  case False
  have split: "split_slash (CHR ''/'' # strings_Join es ''/'' @ t) = [] # es @ (if t = [] then [] else [[]])"
    using split_slash_join [OF assms(1) False] split_slash_trailing [OF assms(1) False] assms(2) by auto
  have "foldl (clean_step True) [] (split_slash (CHR ''/'' # strings_Join es ''/'' @ t)) = rev es"
    unfolding split using clean_plain [OF assms(1), of True "[]"] by (simp add: clean_step_def)
  then have clean: "filepath_Clean (CHR ''/'' # strings_Join es ''/'' @ t) = CHR ''/'' # strings_Join es ''/''"
    by (simp add: filepath_Clean_def Let_def del: split_slash.simps)
  have "strings_Join es ''/'' \<noteq> []" "last (strings_Join es ''/'') \<noteq> CHR ''/''"
    using join_last_plain [OF assms(1) False] by simp_all
  then show ?thesis using clean assms(2) by (auto simp: cleanPath_def rooted_def)
qed

lemma cleanPath_idem [simp]: "cleanPath (cleanPath p) = cleanPath p"
  by (rule cleanPath_elements [of p]) (simp add: clean_slashed)

section \<open>The router\<close>

text \<open>
  The part of chi's behaviour that the services rely on: the middlewares run around the search for
  the route, the first one outermost, and a GET of a registered path runs its handler.
\<close>

type_synonym routes = "(string \<times> handler) list"

definition with_middlewares :: "(handler \<Rightarrow> handler) list \<Rightarrow> handler \<Rightarrow> handler" where
  "with_middlewares ms h = foldr (\<lambda>m h. m h) ms h"

locale chi_router =
  fixes dispatch :: "routes \<Rightarrow> handler"
  assumes dispatch_get: "Method r = ''GET'' \<Longrightarrow> map_of rs (URLPath r) = Some h \<Longrightarrow> dispatch rs r x = h r x"

definition plain_dispatch :: "routes \<Rightarrow> handler" where
  "plain_dispatch rs r x =
     (case (if Method r = ''GET'' then map_of rs (URLPath r) else None) of
        Some h \<Rightarrow> h r x
      | None \<Rightarrow> WriteHeader 404 x)"

interpretation plain: chi_router plain_dispatch
  by unfold_locales (simp add: plain_dispatch_def)

end
