(* ===== verification/Spire_Envoys.thy ===== *)
theory Spire_Envoys
  imports Http_Server
begin

text \<open>
  What stands between the servers of the two SPIRE demos: the Envoys as \<^verbatim>\<open>docker/*/conf/envoy.yaml\<close>
  configures them, and the policies of \<^verbatim>\<open>docker/*/opa/policies/policy.rego\<close> that the Envoys of
  \<^verbatim>\<open>envoy-spire-ext-authz\<close> ask. Envoy itself is a parameter with the contract \<open>envoy_proxy\<close>, from its
  documentation in version 1.11.
\<close>

section \<open>Configurations\<close>

text \<open>
  A cluster: where it leads, and for a cluster over TLS the identity that it shows and the names that
  it accepts of the peer. A listener: its routes by prefix, the policy server it asks, its own
  identity if it speaks TLS, the names that it accepts of clients (any, if none is given), and whether
  it sets the header \<^verbatim>\<open>x-forwarded-client-cert\<close>.
\<close>

record cluster =
  upstream :: "string \<times> string"
  own_name :: "string option"
  server_names :: "string list"

record listener =
  listen_port :: string
  route_prefixes :: "(string \<times> string) list"
  ext_authz :: "string option"
  identity :: "string option"
  client_names :: "string list"
  set_client_cert :: bool

record envoy =
  listeners :: "listener list"
  clusters :: "(string \<times> cluster) list"

definition web_id :: string where "web_id = ''spiffe://domain.test/web-server''"
definition backend_id :: string where "backend_id = ''spiffe://domain.test/backend-server''"
definition db_id :: string where "db_id = ''spiffe://domain.test/db-server''"

definition local_cluster :: "string \<Rightarrow> cluster" where
  "local_cluster port = \<lparr>upstream = (''127.0.0.1'', port), own_name = None, server_names = []\<rparr>"

definition mtls_cluster :: "string \<Rightarrow> string \<Rightarrow> string \<Rightarrow> cluster" where
  "mtls_cluster host own server = \<lparr>upstream = (host, ''8001''), own_name = Some own, server_names = [server]\<rparr>"

definition web_route_table :: "(string \<times> string) list" where
  "web_route_table = [(''/hello'', ''web_server''), (''/the/good/path'', ''web_server''), (''/the/bad/path'', ''web_server''),
     (''/good/backend'', ''web_to_backend_mtls''), (''/good/db'', ''web_to_db_mtls'')]"

definition web_clusters :: "(string \<times> cluster) list" where
  "web_clusters = [(''web_server'', local_cluster ''8080''),
     (''web_to_backend_mtls'', mtls_cluster ''backend'' web_id backend_id),
     (''web_to_db_mtls'', mtls_cluster ''db'' web_id db_id)]"

definition backend_clusters :: "(string \<times> cluster) list" where
  "backend_clusters = [(''backend_server'', local_cluster ''8081''),
     (''backend_to_db_mtls'', mtls_cluster ''db'' backend_id db_id)]"

definition db_clusters :: "(string \<times> cluster) list" where
  "db_clusters = [(''db_server'', local_cluster ''8082'')]"

text \<open>\<^verbatim>\<open>envoy-spire-ext-authz\<close>: every listener asks its policy server, and denies what that does not allow.\<close>

definition authz_web_listener :: listener where
  "authz_web_listener = \<lparr>listen_port = ''8001'', route_prefixes = web_route_table, ext_authz = Some ''opa_web:9191'',
     identity = None, client_names = [], set_client_cert = False\<rparr>"

definition authz_web_envoy :: envoy where
  "authz_web_envoy = \<lparr>listeners = [authz_web_listener], clusters = web_clusters\<rparr>"

definition authz_backend_listener :: listener where
  "authz_backend_listener = \<lparr>listen_port = ''8001'', route_prefixes = [(''/good/backend'', ''backend_server'')],
     ext_authz = Some ''opa_be:9192'', identity = Some backend_id, client_names = [web_id], set_client_cert = True\<rparr>"

definition authz_backend_egress :: listener where
  "authz_backend_egress = \<lparr>listen_port = ''8002'', route_prefixes = [(''/good/db'', ''backend_to_db_mtls'')],
     ext_authz = Some ''opa_be:9192'', identity = None, client_names = [], set_client_cert = True\<rparr>"

definition authz_backend_envoy :: envoy where
  "authz_backend_envoy = \<lparr>listeners = [authz_backend_listener, authz_backend_egress], clusters = backend_clusters\<rparr>"

definition authz_db_listener :: listener where
  "authz_db_listener = \<lparr>listen_port = ''8001'', route_prefixes = [(''/good/db'', ''db_server'')],
     ext_authz = Some ''opa_db:9193'', identity = Some db_id, client_names = [], set_client_cert = True\<rparr>"

definition authz_db_envoy :: envoy where
  "authz_db_envoy = \<lparr>listeners = [authz_db_listener], clusters = db_clusters\<rparr>"

text \<open>\<^verbatim>\<open>spire-example\<close>: the same routes without policies, and a second listener of the web server's Envoy, over TLS.\<close>

definition example_web_listener :: listener where
  "example_web_listener = \<lparr>listen_port = ''8001'', route_prefixes = web_route_table, ext_authz = None,
     identity = None, client_names = [], set_client_cert = False\<rparr>"

definition example_web_tls_listener :: listener where
  "example_web_tls_listener = \<lparr>listen_port = ''8002'', route_prefixes = web_route_table, ext_authz = None,
     identity = Some web_id, client_names = [], set_client_cert = False\<rparr>"

definition example_web_envoy :: envoy where
  "example_web_envoy = \<lparr>listeners = [example_web_listener, example_web_tls_listener], clusters = web_clusters\<rparr>"

definition example_backend_listener :: listener where
  "example_backend_listener = \<lparr>listen_port = ''8001'', route_prefixes = [(''/good/backend'', ''backend_server'')],
     ext_authz = None, identity = Some backend_id, client_names = [web_id], set_client_cert = True\<rparr>"

definition example_backend_egress :: listener where
  "example_backend_egress = \<lparr>listen_port = ''8002'', route_prefixes = [(''/good/db'', ''backend_to_db_mtls'')],
     ext_authz = None, identity = None, client_names = [], set_client_cert = True\<rparr>"

definition example_backend_envoy :: envoy where
  "example_backend_envoy = \<lparr>listeners = [example_backend_listener, example_backend_egress], clusters = backend_clusters\<rparr>"

definition example_db_listener :: listener where
  "example_db_listener = \<lparr>listen_port = ''8001'', route_prefixes = [(''/good/db'', ''db_server'')],
     ext_authz = None, identity = Some db_id, client_names = [], set_client_cert = True\<rparr>"

definition example_db_envoy :: envoy where
  "example_db_envoy = \<lparr>listeners = [example_db_listener], clusters = db_clusters\<rparr>"

section \<open>Policies\<close>

text \<open>What a policy sees of a request; the header is absent if Envoy has removed it.\<close>

record rego_input =
  source_address :: "32 word"
  input_method :: string
  input_path :: string
  client_cert :: "string option"

definition ip :: "nat \<Rightarrow> nat \<Rightarrow> nat \<Rightarrow> nat \<Rightarrow> 32 word" where
  "ip a b c d = of_nat (((a * 256 + b) * 256 + c) * 256 + d)"

definition localhost :: "32 word" where
  "localhost = ip 127 0 0 1"

definition cidr_contains :: "32 word \<times> nat \<Rightarrow> 32 word \<Rightarrow> bool" where
  "cidr_contains net a = (case net of (base, bits) \<Rightarrow> drop_bit (32 - bits) a = drop_bit (32 - bits) base)"

text \<open>\<open>split\<close> of Rego at a separator of one character.\<close>

fun rego_split :: "char \<Rightarrow> string \<Rightarrow> string list" where
  "rego_split sep [] = [[]]"
| "rego_split sep (c # cs) =
     (if c = sep then [] # rego_split sep cs
      else (case rego_split sep cs of w # ws \<Rightarrow> (c # w) # ws | [] \<Rightarrow> [[c]]))"

text \<open>The identity of the caller is undefined unless the header has three parts, and the last of them two.\<close>

definition svc_spiffe_id :: "rego_input \<Rightarrow> string option" where
  "svc_spiffe_id inp =
     (case client_cert inp of
        None \<Rightarrow> None
      | Some h \<Rightarrow>
          (case rego_split (CHR '';'') h of
             [_, _, uri_type_san] \<Rightarrow> (case rego_split (CHR ''='') uri_type_san of [_, client_id] \<Rightarrow> Some client_id | _ \<Rightarrow> None)
           | _ \<Rightarrow> None))"

definition allowed_paths :: "string list" where
  "allowed_paths = [''/hello'', ''/the/good/path'', ''/the/bad/path'']"

definition allowed_local_paths :: "string list" where
  "allowed_local_paths = [''/good/backend'', ''/good/db'']"

definition web_subnet :: "32 word \<times> nat" where
  "web_subnet = (ip 172 28 0 0, 16)"

definition web_allow :: "rego_input \<Rightarrow> bool" where
  "web_allow inp \<longleftrightarrow>
     input_path inp \<in> set allowed_paths \<and> input_method inp = ''GET'' \<and> cidr_contains web_subnet (source_address inp)
     \<or> source_address inp = localhost \<and> input_path inp \<in> set allowed_local_paths \<and> input_method inp = ''GET''"

definition backend_allow :: "rego_input \<Rightarrow> bool" where
  "backend_allow inp \<longleftrightarrow>
     input_path inp = ''/good/backend'' \<and> input_method inp = ''GET'' \<and> svc_spiffe_id inp = Some web_id
     \<or> source_address inp = localhost \<and> input_path inp = ''/good/db'' \<and> input_method inp = ''GET''"

definition db_allow :: "rego_input \<Rightarrow> bool" where
  "db_allow inp \<longleftrightarrow> input_path inp = ''/good/db'' \<and> input_method inp = ''GET'' \<and> svc_spiffe_id inp = Some backend_id"

text \<open>The policy servers by the addresses that the Envoys use.\<close>

definition opa :: "string \<Rightarrow> rego_input \<Rightarrow> bool" where
  "opa target inp =
     (if target = ''opa_web:9191'' then web_allow inp
      else if target = ''opa_be:9192'' then backend_allow inp
      else if target = ''opa_db:9193'' then db_allow inp
      else False)"

section \<open>The contract of Envoy\<close>

text \<open>The other side of a connection: its address, and its name if it has shown a certificate of the trust domain.\<close>

record peer =
  peer_address :: "32 word"
  certificate :: "string option"

datatype decision = Refused | Answer http_response | Forward string http_request

record proxy =
  decide :: "(string \<Rightarrow> rego_input \<Rightarrow> bool) \<Rightarrow> listener \<Rightarrow> peer \<Rightarrow> http_request \<Rightarrow> decision"
  unreachable :: http_response
  digest :: "string \<Rightarrow> string"

text \<open>No listener demands a certificate; a name that is shown must be accepted.\<close>

definition admitted :: "listener \<Rightarrow> peer \<Rightarrow> bool" where
  "admitted l p \<longleftrightarrow> identity l = None \<or> client_names l = []
     \<or> (case certificate p of None \<Rightarrow> True | Some c \<Rightarrow> c \<in> set (client_names l))"

text \<open>The header \<^verbatim>\<open>x-forwarded-client-cert\<close>, which is removed unless it is set from the certificate of the connection.\<close>

definition forwarded_cert :: "proxy \<Rightarrow> listener \<Rightarrow> peer \<Rightarrow> string option" where
  "forwarded_cert P l p =
     (case (identity l, certificate p) of
        (Some own, Some c) \<Rightarrow>
          if set_client_cert l then Some (''By='' @ own @ '';Hash='' @ digest P c @ '';URI='' @ c) else None
      | _ \<Rightarrow> None)"

definition rego_input_of :: "proxy \<Rightarrow> listener \<Rightarrow> peer \<Rightarrow> http_request \<Rightarrow> rego_input" where
  "rego_input_of P l p r = \<lparr>source_address = peer_address p, input_method = Method r, input_path = URLPath r,
     client_cert = forwarded_cert P l p\<rparr>"

definition permitted :: "proxy \<Rightarrow> (string \<Rightarrow> rego_input \<Rightarrow> bool) \<Rightarrow> listener \<Rightarrow> peer \<Rightarrow> http_request \<Rightarrow> bool" where
  "permitted P check l p r \<longleftrightarrow> (case ext_authz l of None \<Rightarrow> True | Some t \<Rightarrow> check t (rego_input_of P l p r))"

definition find_route :: "listener \<Rightarrow> string \<Rightarrow> string option" where
  "find_route l path = map_option snd (find (\<lambda>(pre, c). take (length pre) path = pre) (route_prefixes l))"

locale envoy_proxy =
  fixes P :: proxy
  assumes refused: "\<not> admitted l p \<Longrightarrow> decide P check l p r = Refused"
    and denied: "admitted l p \<Longrightarrow> \<not> permitted P check l p r \<Longrightarrow> \<exists>resp. decide P check l p r = Answer resp \<and> StatusCode resp = 403"
    and lost: "admitted l p \<Longrightarrow> permitted P check l p r \<Longrightarrow> find_route l (URLPath r) = None \<Longrightarrow>
      \<exists>resp. decide P check l p r = Answer resp \<and> StatusCode resp = 404"
    and routed: "admitted l p \<Longrightarrow> permitted P check l p r \<Longrightarrow> find_route l (URLPath r) = Some c \<Longrightarrow>
      \<exists>r'. decide P check l p r = Forward c r' \<and> Method r' = Method r \<and> URLPath r' = URLPath r"
    and unreachable_503: "StatusCode (unreachable P) = 503"
    and digest_hex: "CHR '';'' \<notin> set (digest P c)"
begin

lemma forwards_iff:
  "(case decide P check l p r of Forward c' r' \<Rightarrow> c' = c | _ \<Rightarrow> False)
     \<longleftrightarrow> admitted l p \<and> permitted P check l p r \<and> find_route l (URLPath r) = Some c"
proof (cases "admitted l p \<and> permitted P check l p r")
  case True
  then show ?thesis
    using lost [of l p check r] routed [of l p check r] by (cases "find_route l (URLPath r)") auto
next
  case False
  then show ?thesis using refused [of l p check r] denied [of l p check r] by (cases "admitted l p") auto
qed

end

text \<open>A proxy that does just that.\<close>

definition plain_answer :: "int \<Rightarrow> http_response" where
  "plain_answer code = \<lparr>StatusCode = code, ResponseHeader = fmempty, Body = []\<rparr>"

definition plain_proxy :: proxy where
  "plain_proxy = \<lparr>
     decide = (\<lambda>check l p r.
       let P = \<lparr>decide = (\<lambda>_ _ _ _. Refused), unreachable = plain_answer 503, digest = (\<lambda>_. ''0'')\<rparr>
       in if \<not> admitted l p then Refused
          else if \<not> permitted P check l p r then Answer (plain_answer 403)
          else (case find_route l (URLPath r) of None \<Rightarrow> Answer (plain_answer 404) | Some c \<Rightarrow> Forward c r)),
     unreachable = plain_answer 503, digest = (\<lambda>_. ''0'')\<rparr>"

lemma permitted_digest: "digest P = digest Q \<Longrightarrow> permitted P check l p r = permitted Q check l p r"
  by (simp add: permitted_def rego_input_of_def forwarded_cert_def split: option.split)

interpretation plain_envoy: envoy_proxy plain_proxy
proof (unfold_locales, goal_cases)
  case (2 l p check r)
  then show ?case
    using permitted_digest [of plain_proxy "\<lparr>decide = (\<lambda>_ _ _ _. Refused), unreachable = plain_answer 503, digest = (\<lambda>_. ''0'')\<rparr>" check l p r]
    by (auto simp: plain_proxy_def plain_answer_def)
next
  case (3 l p check r)
  then show ?case
    using permitted_digest [of plain_proxy "\<lparr>decide = (\<lambda>_ _ _ _. Refused), unreachable = plain_answer 503, digest = (\<lambda>_. ''0'')\<rparr>" check l p r]
    by (auto simp: plain_proxy_def plain_answer_def)
next
  case (4 l p check r c)
  then show ?case
    using permitted_digest [of plain_proxy "\<lparr>decide = (\<lambda>_ _ _ _. Refused), unreachable = plain_answer 503, digest = (\<lambda>_. ''0'')\<rparr>" check l p r]
    by (auto simp: plain_proxy_def)
qed (simp_all add: plain_proxy_def plain_answer_def)

section \<open>Who a policy takes the caller for\<close>

lemma rego_split_not_Nil [simp]: "rego_split sep s \<noteq> []"
  by (induction s) (auto split: list.split)

lemma rego_split_sep [simp]: "sep \<notin> set a \<Longrightarrow> rego_split sep (a @ sep # b) = a # rego_split sep b"
  by (induction a) auto

lemma rego_split_plain: "sep \<notin> set s \<Longrightarrow> rego_split sep s = [s]"
  by (induction s) auto

lemma rego_split_length: "length (rego_split sep s) = Suc (count_list s sep)"
  by (induction s) (auto split: list.split)

lemma rego_split_more: "sep \<in> set s \<Longrightarrow> \<exists>a b ws. rego_split sep s = a # b # ws"
proof -
  assume "sep \<in> set s"
  then have "2 \<le> length (rego_split sep s)" using count_list_0_iff [of s sep] by (simp add: rego_split_length)
  then show ?thesis by (cases "rego_split sep s"; cases "tl (rego_split sep s)") auto
qed

text \<open>The header names the certificate of the connection, whatever it was before; odd names are nobody's.\<close>

lemma forwarded_identity:
  assumes "CHR '';'' \<notin> set own" and "CHR '';'' \<notin> set d"
  shows "svc_spiffe_id \<lparr>source_address = a, input_method = m, input_path = path,
      client_cert = Some (''By='' @ own @ '';Hash='' @ d @ '';URI='' @ c)\<rparr>
    = (if CHR '';'' \<in> set c \<or> CHR ''='' \<in> set c then None else Some c)"
proof -
  have split: "rego_split (CHR '';'') (''By='' @ own @ '';Hash='' @ d @ '';URI='' @ c)
      = (''By='' @ own) # (''Hash='' @ d) # rego_split (CHR '';'') (''URI='' @ c)"
    using rego_split_sep [of "CHR '';''" "''By='' @ own"] rego_split_sep [of "CHR '';''" "''Hash='' @ d"] assms by simp
  show ?thesis
  proof (cases "CHR '';'' \<in> set c")
    case True
    then obtain w v ws where "rego_split (CHR '';'') (''URI='' @ c) = w # v # ws"
      using rego_split_more [of "CHR '';''" "''URI='' @ c"] by auto
    then show ?thesis using True split by (simp add: svc_spiffe_id_def)
  next
    case False
    then have semi: "rego_split (CHR '';'') (''URI='' @ c) = [''URI='' @ c]" by (intro rego_split_plain) simp
    have eq: "rego_split (CHR ''='') (''URI='' @ c) = ''URI'' # rego_split (CHR ''='') c"
      using rego_split_sep [of "CHR ''=''" "''URI''" c] by simp
    show ?thesis
    proof (cases "CHR ''='' \<in> set c")
      case True
      then obtain w v ws where "rego_split (CHR ''='') c = w # v # ws" using rego_split_more by blast
      then show ?thesis using True split semi eq by (simp add: svc_spiffe_id_def)
    next
      case no: False
      then show ?thesis using False split semi eq rego_split_plain [OF no] by (simp add: svc_spiffe_id_def)
    qed
  qed
qed

lemma ids [simp]:
  "CHR '';'' \<notin> set web_id" "CHR '';'' \<notin> set backend_id" "CHR '';'' \<notin> set db_id"
  "CHR ''='' \<notin> set web_id" "CHR ''='' \<notin> set backend_id" "CHR ''='' \<notin> set db_id"
  "web_id \<noteq> backend_id" "backend_id \<noteq> web_id"
  by (simp_all add: web_id_def backend_id_def db_id_def)

lemma caller_identity:
  assumes "envoy_proxy P" and "identity l = Some own" and "CHR '';'' \<notin> set own" and "set_client_cert l"
    and "CHR '';'' \<notin> set i" and "CHR ''='' \<notin> set i"
  shows "svc_spiffe_id (rego_input_of P l p r) = Some i \<longleftrightarrow> certificate p = Some i"
proof (cases "certificate p")
  case None
  then show ?thesis using assms(2) by (simp add: svc_spiffe_id_def rego_input_of_def forwarded_cert_def)
next
  case (Some c)
  then have "svc_spiffe_id (rego_input_of P l p r) = (if CHR '';'' \<in> set c \<or> CHR ''='' \<in> set c then None else Some c)"
    using forwarded_identity [OF assms(3) envoy_proxy.digest_hex [OF assms(1)]] assms(2,4)
    by (simp add: rego_input_of_def forwarded_cert_def)
  then show ?thesis using Some assms(5,6) by auto
qed

lemma no_identity:
  "identity l = None \<Longrightarrow> svc_spiffe_id (rego_input_of P l p r) = None"
  by (simp add: svc_spiffe_id_def rego_input_of_def forwarded_cert_def)

section \<open>The access matrix\<close>

definition passes :: "proxy \<Rightarrow> listener \<Rightarrow> peer \<Rightarrow> http_request \<Rightarrow> string \<Rightarrow> bool" where
  "passes P l p r c = (case decide P opa l p r of Forward c' r' \<Rightarrow> c' = c | _ \<Rightarrow> False)"



end
