(* ===== verification/Spire_Services.thy ===== *)
theory Spire_Services
  imports Http_Server
begin

text \<open>
  The three services of \<^verbatim>\<open>istio/envoy/security/envoy-spire-ext-authz/src\<close>: the web server calls the
  backend or the database, the backend calls the database, each through its own Envoy, which may
  refuse. (The files under \<^verbatim>\<open>spire-example/src\<close> are the same, byte for byte; \<open>Spire_Mesh\<close> deploys both.) The file system, the
  network and chi are parameters.
\<close>

section \<open>The common helpers\<close>

definition tryRead :: "string list \<Rightarrow> string" where
  "tryRead r = Read 1024 r"

definition noCache :: "handler \<Rightarrow> handler" where
  "noCache h r x =
     (let x = Header_Set ''Cache-Control'' ''no-cache'' x;
          x = Header_Set ''Expires'' ''0'' x
      in h r x)"

definition tag :: "http_request \<Rightarrow> string" where
  "tag r = ''['' @ RemoteAddr r @ ''] ''"

section \<open>The web server\<close>

definition serveTheGoodPath :: "http_client \<Rightarrow> handler" where
  "serveTheGoodPath client r x =
     (let beURL = ''http://localhost:8001/good/backend''
      in case NewRequest client ''GET'' beURL of
           Some err \<Rightarrow> (Return (), log_Printf (tag r @ ''failed to create request for backend server: '' @ err) x)
         | None \<Rightarrow>
             (let x = log_Printf (tag r @ ''Issuing GET '' @ beURL) x
              in case Do client ''GET'' beURL [] of
                   Inl err \<Rightarrow> (Return (), log_Printf (tag r @ ''failed to send request to backend server: '' @ err) x)
                 | Inr resp \<Rightarrow>
                     (let x = log_Printf (tag r @ ''GOT '' @ beURL) x;
                          body = tryRead (Body resp)
                      in if StatusCode resp \<noteq> 200
                         then (Return (), log_Printf (tag r @ ''unexpected backend server response: ''
                                 @ dec_int (StatusCode resp) @ [CHR 0x0A] @ body) x)
                         else (let x = log_Printf (tag r @ ''backend server response OK. Response body: '' @ body) x;
                                   msg = ''Allowed path: WEB -> '' @ body @ [CHR 0x0A]
                               in (Return (), Write msg x)))))"

definition serveTheBadPath :: "http_client \<Rightarrow> handler" where
  "serveTheBadPath client r x =
     (let dbURL = ''http://localhost:8001/good/db''
      in case NewRequest client ''GET'' dbURL of
           Some err \<Rightarrow> (Return (), log_Printf (tag r @ ''failed to create request for db server: '' @ err) x)
         | None \<Rightarrow>
             (let x = log_Printf (tag r @ ''Issuing GET '' @ dbURL) x
              in case Do client ''GET'' dbURL [] of
                   Inl err \<Rightarrow> (Return (), log_Printf (tag r @ ''failed to send request to db server: '' @ err) x)
                 | Inr resp \<Rightarrow>
                     (let x = log_Printf (tag r @ ''GOT '' @ dbURL) x;
                          body = tryRead (Body resp)
                      in if StatusCode resp \<noteq> 200
                         then (let x = log_Printf (tag r @ ''unexpected db server response: ''
                                         @ dec_int (StatusCode resp) @ [CHR 0x0A] @ body) x
                               in case WriteHeader (StatusCode resp) x of
                                    (Panic m, x) \<Rightarrow> (Panic m, x)
                                  | (Return _, x) \<Rightarrow> (Return (), Write (''Forbidden path: WEB -> DB'' @ [CHR 0x0A]) x))
                         else (let x = log_Printf (tag r @ ''db server response OK. Response body: '' @ body) x;
                                   msg = ''Allowed path: WEB -> '' @ body @ [CHR 0x0A]
                               in (Return (), Write msg x)))))"

definition serveHello :: handler where
  "serveHello r x = (Return (), Write (''Hello from the web service !'' @ [CHR 0x0A]) x)"

section \<open>The backend and the database\<close>

definition serveGoodBackend :: "http_client \<Rightarrow> handler" where
  "serveGoodBackend client r x =
     (let x = log_Printf (tag r @ Method r @ '' '' @ URLPath r) x;
          dbURL = ''http://localhost:8002/good/db''
      in case NewRequest client ''GET'' dbURL of
           Some err \<Rightarrow> (Return (), log_Printf (tag r @ ''failed to create request for db server: '' @ err) x)
         | None \<Rightarrow>
             (let x = log_Printf (tag r @ ''Issuing GET '' @ dbURL) x
              in case Do client ''GET'' dbURL [] of
                   Inl err \<Rightarrow> (Return (), log_Printf (tag r @ ''failed to send request to db server: '' @ err) x)
                 | Inr resp \<Rightarrow>
                     (let x = log_Printf (tag r @ ''GOT '' @ dbURL) x;
                          body = tryRead (Body resp)
                      in if StatusCode resp \<noteq> 200
                         then (Return (), log_Printf (tag r @ ''unexpected db server response: ''
                                 @ dec_int (StatusCode resp) @ [CHR 0x0A] @ body) x)
                         else (let x = log_Printf (tag r @ ''db server response OK. Response body: '' @ body) x;
                                   msg = ''BACKEND -> '' @ body
                               in (Return (), Write msg x)))))"

definition serveGoodDb :: handler where
  "serveGoodDb r x =
     (Return (), Write ''DB'' (log_Printf (tag r @ Method r @ '' '' @ URLPath r) x))"

section \<open>Starting a server\<close>

record os =
  OpenFile :: "string \<Rightarrow> string option"
  Listen :: "string \<Rightarrow> string option"
  Serve :: "string \<Rightarrow> string"

datatype log_target = LogFile string | Stdout | Stderr

text \<open>\<open>run\<close> ends with an error: one of its own, or the one that the server stops with.\<close>

record running =
  prefix :: string
  log_target :: log_target
  address :: string
  served :: handler

definition web_routes :: "http_client \<Rightarrow> routes" where
  "web_routes client = [(''/hello'', serveHello), (''/the/good/path'', serveTheGoodPath client),
     (''/the/bad/path'', serveTheBadPath client)]"

definition web_run :: "os \<Rightarrow> (routes \<Rightarrow> handler) \<Rightarrow> http_client \<Rightarrow> string \<Rightarrow> string \<Rightarrow> string \<times> running option" where
  "web_run os dispatch client addrFlag logFlag =
     (case (if logFlag \<noteq> '''' then OpenFile os logFlag else None) of
        Some err \<Rightarrow> (''unable to open log file: '' @ err, None)
      | None \<Rightarrow>
          (case Listen os addrFlag of
             Some err \<Rightarrow> (''unable to listen: '' @ err, None)
           | None \<Rightarrow> (Serve os addrFlag, Some \<lparr>prefix = ''web> '',
               log_target = (if logFlag \<noteq> '''' then LogFile logFlag else Stdout), address = addrFlag,
               served = with_middlewares [noCache] (dispatch (web_routes client))\<rparr>)))"

definition backend_run :: "os \<Rightarrow> (routes \<Rightarrow> handler) \<Rightarrow> http_client \<Rightarrow> string \<Rightarrow> string \<Rightarrow> string \<times> running option" where
  "backend_run os dispatch client addrFlag logFlag =
     (case (if logFlag \<noteq> '''' then OpenFile os logFlag else None) of
        Some err \<Rightarrow> (''unable to open log file: '' @ err, None)
      | None \<Rightarrow>
          (case Listen os addrFlag of
             Some err \<Rightarrow> (''unable to listen: '' @ err, None)
           | None \<Rightarrow> (Serve os addrFlag, Some \<lparr>prefix = ''backend> '',
               log_target = (if logFlag \<noteq> '''' then LogFile logFlag else Stdout), address = addrFlag,
               served = with_middlewares [noCache] (dispatch [(''/good/backend'', serveGoodBackend client)])\<rparr>)))"

definition db_run :: "os \<Rightarrow> (routes \<Rightarrow> handler) \<Rightarrow> string \<Rightarrow> string \<Rightarrow> string \<times> running option" where
  "db_run os dispatch addrFlag logFlag =
     (case (if logFlag \<noteq> '''' then OpenFile os logFlag else None) of
        Some err \<Rightarrow> (''unable to open log file: '' @ err, None)
      | None \<Rightarrow>
          (case Listen os addrFlag of
             Some err \<Rightarrow> (''unable to listen: '' @ err, None)
           | None \<Rightarrow> (Serve os addrFlag, Some \<lparr>prefix = ''db> '',
               log_target = (if logFlag \<noteq> '''' then LogFile logFlag else Stdout), address = addrFlag,
               served = with_middlewares [noCache] (dispatch [(''/good/db'', serveGoodDb)])\<rparr>)))"

section \<open>The handlers keep the contract\<close>

interpretation good_path: http_handler "serveTheGoodPath client" for client
  by unfold_locales (auto simp: serveTheGoodPath_def Let_def split: option.split sum.split)

interpretation backend: http_handler "serveGoodBackend client" for client
  by unfold_locales (auto simp: serveGoodBackend_def Let_def split: option.split sum.split)

interpretation db: http_handler serveGoodDb
  by unfold_locales (auto simp: serveGoodDb_def)

interpretation hello: http_handler serveHello
  by unfold_locales (auto simp: serveHello_def)

lemma WriteHeader_header: "WriteHeader c x = (r, y) \<Longrightarrow> header y = header x \<and> (well_formed x \<longrightarrow> well_formed y)"
  using WriteHeader_simps(1) [of c x] WriteHeader_simps(2) [of x c] by auto

interpretation bad_path: http_handler "serveTheBadPath client" for client
proof (unfold_locales, goal_cases)
  case (1 r x)
  show ?case
    by (auto simp: serveTheBadPath_def Let_def dest: WriteHeader_header split: option.split sum.split prod.split outcome.split)
next
  case (2 x r)
  then show ?case
    by (auto simp: serveTheBadPath_def Let_def dest: WriteHeader_header split: option.split sum.split prod.split outcome.split)
qed

section \<open>The three services together\<close>

definition get_request :: "string \<Rightarrow> http_request" where
  "get_request path = \<lparr>Method = ''GET'', URLPath = path, RawQuery = [], RemoteAddr = ''127.0.0.1'', RequestHeader = []\<rparr>"

definition respond :: "handler \<Rightarrow> string \<Rightarrow> http_response" where
  "respond h path = finish (snd (h (get_request path) fresh_exchange))"

text \<open>
  An Envoy in front of a service lets a request through or answers with a denial of its own.
  A client that sees exactly one service sees it through that Envoy.
\<close>

definition through_envoy :: "bool \<Rightarrow> http_response \<Rightarrow> http_response \<Rightarrow> string + http_response" where
  "through_envoy allowed denial resp = Inr (if allowed then resp else denial)"

definition db_service :: "(routes \<Rightarrow> handler) \<Rightarrow> handler" where
  "db_service dispatch = with_middlewares [noCache] (dispatch [(''/good/db'', serveGoodDb)])"

definition backend_client :: "(routes \<Rightarrow> handler) \<Rightarrow> http_response \<Rightarrow> bool \<Rightarrow> http_client" where
  "backend_client dispatch denial db_allowed = \<lparr>NewRequest = (\<lambda>_ _. None),
     Do = (\<lambda>_ url _. if url = ''http://localhost:8002/good/db''
            then through_envoy db_allowed denial (respond (db_service dispatch) ''/good/db'')
            else Inl ''no such host'')\<rparr>"

definition backend_service :: "(routes \<Rightarrow> handler) \<Rightarrow> http_response \<Rightarrow> bool \<Rightarrow> handler" where
  "backend_service dispatch denial db_allowed = with_middlewares [noCache]
     (dispatch [(''/good/backend'', serveGoodBackend (backend_client dispatch denial db_allowed))])"

definition web_client :: "(routes \<Rightarrow> handler) \<Rightarrow> http_response \<Rightarrow> bool \<Rightarrow> bool \<Rightarrow> bool \<Rightarrow> http_client" where
  "web_client dispatch denial web_backend backend_db web_db = \<lparr>NewRequest = (\<lambda>_ _. None),
     Do = (\<lambda>_ url _. if url = ''http://localhost:8001/good/backend''
            then through_envoy web_backend denial (respond (backend_service dispatch denial backend_db) ''/good/backend'')
            else if url = ''http://localhost:8001/good/db''
            then through_envoy web_db denial (respond (db_service dispatch) ''/good/db'')
            else Inl ''no such host'')\<rparr>"

definition web_service :: "(routes \<Rightarrow> handler) \<Rightarrow> http_response \<Rightarrow> bool \<Rightarrow> bool \<Rightarrow> bool \<Rightarrow> handler" where
  "web_service dispatch denial web_backend backend_db web_db = with_middlewares [noCache]
     (dispatch (web_routes (web_client dispatch denial web_backend backend_db web_db)))"

text \<open>The running servers serve these.\<close>

lemma running_services:
  "web_run os dispatch (web_client dispatch denial a b c) addr logf = (err, Some s) \<Longrightarrow>
     served s = web_service dispatch denial a b c"
  "backend_run os dispatch (backend_client dispatch denial b) addr logf = (err, Some s) \<Longrightarrow>
     served s = backend_service dispatch denial b"
  "db_run os dispatch addr logf = (err, Some s) \<Longrightarrow> served s = db_service dispatch"
  by (auto simp: web_run_def backend_run_def db_run_def web_service_def backend_service_def db_service_def
      split: option.splits if_splits)

definition no_cache_header :: "(string, string) fmap" where
  "no_cache_header = fmupd ''Expires'' ''0'' (fmupd ''Cache-Control'' ''no-cache'' fmempty)"

lemma respond_route:
  assumes "chi_router dispatch" and "map_of rs path = Some h"
  shows "respond (with_middlewares [noCache] (dispatch rs)) path
    = finish (snd (h (get_request path) (fresh_exchange\<lparr>header := no_cache_header\<rparr>)))"
  using chi_router.dispatch_get [OF assms(1), of "get_request path" rs h] assms(2)
  by (simp add: respond_def with_middlewares_def noCache_def Header_Set_def get_request_def
      no_cache_header_def fresh_exchange_def)

lemma well_formed_no_cache: "well_formed (fresh_exchange\<lparr>header := no_cache_header\<rparr>)"
  by (simp add: well_formed_def fresh_exchange_def)

lemma respond_headers:
  assumes "chi_router dispatch" and "map_of rs path = Some h" and "http_handler h"
  shows "ResponseHeader (respond (with_middlewares [noCache] (dispatch rs)) path) = no_cache_header"
  using http_handler.response_header [OF assms(3) well_formed_no_cache]
  by (simp add: respond_route [OF assms(1,2)])

lemma db_response:
  assumes "chi_router dispatch"
  shows "respond (db_service dispatch) ''/good/db''
    = \<lparr>StatusCode = 200, ResponseHeader = no_cache_header, Body = [''DB'']\<rparr>"
  unfolding db_service_def
  by (subst respond_route [OF assms, where h = serveGoodDb])
     (simp_all add: serveGoodDb_def exchange_defs)

lemma backend_response:
  assumes "chi_router dispatch" and "StatusCode denial \<noteq> 200"
  shows "respond (backend_service dispatch denial db_allowed) ''/good/backend''
    = \<lparr>StatusCode = 200, ResponseHeader = no_cache_header, Body = (if db_allowed then [''BACKEND -> DB''] else [])\<rparr>"
  unfolding backend_service_def
  by (subst respond_route [OF assms(1), where h = "serveGoodBackend (backend_client dispatch denial db_allowed)"])
     (simp_all add: serveGoodBackend_def backend_client_def through_envoy_def db_response [OF assms(1)] assms(2)
       tryRead_def Read_def exchange_defs Let_def)

section \<open>Properties\<close>

text \<open>C13: What the good path answers when the Envoys allow or refuse the calls in between: the text of
  the whole chain if both are allowed. A refusal is never reported: if the backend may not call
  the database the answer is still 200 and says that the path is allowed, with nothing after the
  arrow; if the web server may not call the backend it is 200 with no body at all.\<close>

theorem spire_good_path:
  assumes "chi_router dispatch" and "StatusCode denial \<noteq> 200"
  shows "respond (web_service dispatch denial web_backend backend_db web_db) ''/the/good/path''
    = \<lparr>StatusCode = 200, ResponseHeader = no_cache_header,
       Body = (if \<not> web_backend then []
               else if backend_db then [''Allowed path: WEB -> BACKEND -> DB'' @ [CHR 0x0A]]
               else [''Allowed path: WEB -> '' @ [CHR 0x0A]])\<rparr>"
  unfolding web_service_def
  by (subst respond_route [OF assms(1), where h = "serveTheGoodPath (web_client dispatch denial web_backend backend_db web_db)"])
     (simp_all add: web_routes_def serveTheGoodPath_def web_client_def through_envoy_def
       backend_response [OF assms] assms(2) tryRead_def Read_def exchange_defs Let_def)

definition forbidden :: http_response where
  "forbidden = \<lparr>StatusCode = 403, ResponseHeader = fmempty, Body = [''RBAC: access denied'']\<rparr>"

theorem spire_good_path_witness:
  "respond (web_service plain_dispatch forbidden True False False) ''/the/good/path''
    = \<lparr>StatusCode = 200, ResponseHeader = no_cache_header,
       Body = (if \<not> True then []
               else if False then [''Allowed path: WEB -> BACKEND -> DB'' @ [CHR 0x0A]]
               else [''Allowed path: WEB -> '' @ [CHR 0x0A]])\<rparr>"
  by (rule spire_good_path [OF plain.chi_router_axioms]) (simp add: forbidden_def)

text \<open>The bad path reports what it meets: the text of the database if the call is allowed, else the
  status of the denial and a text that says so.\<close>

theorem spire_bad_path:
  assumes "chi_router dispatch" and "StatusCode denial \<noteq> 200"
    and "100 \<le> StatusCode denial" and "StatusCode denial \<le> 999" and "body_allowed (StatusCode denial)"
  shows "respond (web_service dispatch denial web_backend backend_db web_db) ''/the/bad/path''
    = \<lparr>StatusCode = (if web_db then 200 else StatusCode denial), ResponseHeader = no_cache_header,
       Body = [(if web_db then ''Allowed path: WEB -> DB'' else ''Forbidden path: WEB -> DB'') @ [CHR 0x0A]]\<rparr>"
  unfolding web_service_def
  by (subst respond_route [OF assms(1), where h = "serveTheBadPath (web_client dispatch denial web_backend backend_db web_db)"])
     (use assms(2-) in \<open>simp_all add: web_routes_def serveTheBadPath_def web_client_def through_envoy_def
       db_response [OF assms(1)] tryRead_def Read_def WriteHeader_def exchange_defs Let_def\<close>)

theorem spire_bad_path_witness:
  "respond (web_service plain_dispatch forbidden True True False) ''/the/bad/path''
    = \<lparr>StatusCode = (if False then 200 else StatusCode forbidden), ResponseHeader = no_cache_header,
       Body = [(if False then ''Allowed path: WEB -> DB'' else ''Forbidden path: WEB -> DB'') @ [CHR 0x0A]]\<rparr>"
  by (rule spire_bad_path [OF plain.chi_router_axioms]) (simp_all add: forbidden_def body_allowed_def)

end
