(* ===== verification/Monitoring_Services.thy ===== *)
theory Monitoring_Services
  imports Http_Server
begin

text \<open>
  The services of \<^verbatim>\<open>istio/envoy/monitoring-and-tracing/monitoring-and-accesslog\<close> (those under
  \<^verbatim>\<open>monitoring\<close> are the same, byte for byte): A calls B and C and passes the tracing headers on.
  Its answer goes through \<open>fmt.Fprintf\<close> with the peers' bodies as the format: what \<open>fmt\<close> makes of a
  format without arguments is the parameter \<open>format\<close>, which leaves a text without percent signs
  alone. What is printed to the standard output is left out.
\<close>

section \<open>Header names\<close>

text \<open>\<open>http.Header\<close> keeps a name of token characters in its canonical form.\<close>

definition to_upper :: "char \<Rightarrow> char" where
  "to_upper c = (if 97 \<le> (of_char c :: nat) \<and> (of_char c :: nat) \<le> 122 then char_of ((of_char c :: nat) - 32) else c)"

definition to_lower :: "char \<Rightarrow> char" where
  "to_lower c = (if 65 \<le> (of_char c :: nat) \<and> (of_char c :: nat) \<le> 90 then char_of ((of_char c :: nat) + 32) else c)"

fun canonical_from :: "bool \<Rightarrow> string \<Rightarrow> string" where
  "canonical_from up [] = []"
| "canonical_from up (c # cs) = (if up then to_upper c else to_lower c) # canonical_from (c = CHR ''-'') cs"

definition CanonicalHeaderKey :: "string \<Rightarrow> string" where
  "CanonicalHeaderKey k = canonical_from True k"

definition Header_Get :: "headers \<Rightarrow> string \<Rightarrow> string" where
  "Header_Get hs k = (case map_of hs (CanonicalHeaderKey k) of Some v \<Rightarrow> v | None \<Rightarrow> '''')"

definition Header_Add :: "string \<Rightarrow> string \<Rightarrow> headers \<Rightarrow> headers" where
  "Header_Add k v hs = hs @ [(CanonicalHeaderKey k, v)]"

section \<open>The services\<close>

definition tracing_names :: "string list" where
  "tracing_names = [''x-request-id'', ''x-b3-traceid'', ''x-b3-spanid'', ''x-b3-parentspanid'',
     ''x-b3-sampled'', ''x-b3-flags'', ''x-ot-span-context'']"

definition propagate :: "http_request \<Rightarrow> headers" where
  "propagate r = foldl (\<lambda>hs k. Header_Add k (Header_Get (RequestHeader r) k) hs) [] tracing_names"

text \<open>
  One call: the request, the answer, the whole body. The errors are only printed, and the nil
  request or response is dereferenced after that.
\<close>

definition call_peer :: "http_client \<Rightarrow> (string \<Rightarrow> string) \<Rightarrow> string \<Rightarrow> handler" where
  "call_peer client format url r x =
     (case NewRequest client ''GET'' url of
        Some err \<Rightarrow> (Panic ''nil pointer dereference'', x)
      | None \<Rightarrow>
          (case Do client ''GET'' url (propagate r) of
             Inl err \<Rightarrow> (Panic ''nil pointer dereference'', x)
           | Inr resp \<Rightarrow> (Return (), Write (format (concat (Body resp))) x)))"

definition service_a_handler :: "http_client \<Rightarrow> (string \<Rightarrow> string) \<Rightarrow> handler" where
  "service_a_handler client format r x =
     (let x = Write (format ''Calling Service B: '') x
      in case call_peer client format ''http://service_a_envoy:8788/'' r x of
           (Panic m, x) \<Rightarrow> (Panic m, x)
         | (Return _, x) \<Rightarrow>
             (let x = Write (format (''Hello from service A.'' @ [CHR 0x0A])) x
              in call_peer client format ''http://service_a_envoy:8791/'' r x))"

definition service_b_handler :: "(string \<Rightarrow> string) \<Rightarrow> handler" where
  "service_b_handler format r x = (Return (), Write (format (''Hello from service B.'' @ [CHR 0x0A])) x)"

definition service_c_handler :: "(string \<Rightarrow> string) \<Rightarrow> handler" where
  "service_c_handler format r x = (Return (), Write (format (''Hello from service C.'' @ [CHR 0x0A])) x)"

interpretation service_a: http_handler "service_a_handler client format" for client format
proof (unfold_locales, goal_cases)
  case (1 r x)
  then show ?case
    by (auto simp: service_a_handler_def call_peer_def Let_def split: option.split sum.split)
next
  case (2 x r)
  then show ?case
    by (auto simp: service_a_handler_def call_peer_def Let_def split: option.split sum.split)
qed

interpretation service_b: http_handler "service_b_handler format" for format
  by unfold_locales (auto simp: service_b_handler_def)

interpretation service_c: http_handler "service_c_handler format" for format
  by unfold_locales (auto simp: service_c_handler_def)

lemma Write_Write: "Write b (Write a x) = Write (a @ b) x"
  by (auto simp: Write_def Let_def split: option.split)

section \<open>Properties\<close>

text \<open>Service A makes its two calls with exactly the seven tracing headers of the request it
  serves, one value each, empty where the request has none; if both are answered with bodies
  without percent signs, its answer is those bodies around its own texts. If a call fails the
  handler panics, and the second call is made only after the first was answered.\<close>

theorem service_a_relays:
  assumes "\<And>s. CHR ''%'' \<notin> set s \<Longrightarrow> format s = s"
    and "\<And>m u. NewRequest client m u = None"
  shows "map fst (propagate r) = map CanonicalHeaderKey tracing_names
    \<and> list_all (\<lambda>k. map_of (propagate r) (CanonicalHeaderKey k) = Some (Header_Get (RequestHeader r) k)) tracing_names
    \<and> (case (Do client ''GET'' ''http://service_a_envoy:8788/'' (propagate r),
             Do client ''GET'' ''http://service_a_envoy:8791/'' (propagate r)) of
         (Inr b, Inr c) \<Rightarrow>
           if CHR ''%'' \<in> set (concat (Body b)) \<union> set (concat (Body c)) then True
           else service_a_handler client format r x
             = (Return (), Write (''Calling Service B: '' @ concat (Body b) @ ''Hello from service A.'' @ [CHR 0x0A]
                  @ concat (Body c)) x)
       | (Inl _, _) \<Rightarrow> service_a_handler client format r x
             = (Panic ''nil pointer dereference'', Write ''Calling Service B: '' x)
       | (Inr b, Inl _) \<Rightarrow> fst (service_a_handler client format r x) = Panic ''nil pointer dereference'')"
proof -
  have 1: "map fst (propagate r) = map CanonicalHeaderKey tracing_names"
    by (simp add: propagate_def tracing_names_def Header_Add_def)
  have "list_all (\<lambda>k. map_of (propagate r) (CanonicalHeaderKey k) = Some (Header_Get (RequestHeader r) k)) tracing_names"
    by (simp add: propagate_def tracing_names_def Header_Add_def CanonicalHeaderKey_def to_upper_def to_lower_def)
  moreover have "case (Do client ''GET'' ''http://service_a_envoy:8788/'' (propagate r),
             Do client ''GET'' ''http://service_a_envoy:8791/'' (propagate r)) of
         (Inr b, Inr c) \<Rightarrow>
           if CHR ''%'' \<in> set (concat (Body b)) \<union> set (concat (Body c)) then True
           else service_a_handler client format r x
             = (Return (), Write (''Calling Service B: '' @ concat (Body b) @ ''Hello from service A.'' @ [CHR 0x0A]
                  @ concat (Body c)) x)
       | (Inl _, _) \<Rightarrow> service_a_handler client format r x
             = (Panic ''nil pointer dereference'', Write ''Calling Service B: '' x)
       | (Inr b, Inl _) \<Rightarrow> fst (service_a_handler client format r x) = Panic ''nil pointer dereference''"
    using assms
    by (simp add: service_a_handler_def call_peer_def Let_def Write_Write split: sum.split)
  ultimately show ?thesis using 1 by blast
qed

theorem service_a_relays_witness:
  "map fst (propagate \<lparr>Method = ''GET'', URLPath = ''/'', RawQuery = [], RemoteAddr = '''', RequestHeader = [(''X-Request-Id'', ''7'')]\<rparr>)
      = map CanonicalHeaderKey tracing_names"
  using service_a_relays [of "\<lambda>s. s" "\<lparr>NewRequest = (\<lambda>_ _. None), Do = (\<lambda>_ _ _. Inr (finish fresh_exchange))\<rparr>"
      "\<lparr>Method = ''GET'', URLPath = ''/'', RawQuery = [], RemoteAddr = '''', RequestHeader = [(''X-Request-Id'', ''7'')]\<rparr>" fresh_exchange]
  by (simp only: http_client.simps simp_thms)

end
