(* ===== verification/Service_Mains.thy ===== *)
theory Service_Mains
  imports Spire_Services Monitoring_Services
begin

text \<open>
  The \<open>main\<close> functions of the web services: the flags of the SPIRE demo's servers as the standard
  package \<open>flag\<close> parses them, and with which exit code and message each program ends.
\<close>

section \<open>The package flag, for flags with a string\<close>

datatype flag_error = Flag_Help | Flag_Error string

type_synonym flag_values = "(string \<times> string) list"

definition flag_set_value :: "string \<Rightarrow> string \<Rightarrow> flag_values \<Rightarrow> flag_values" where
  "flag_set_value key val vals = map (\<lambda>(k, v). if k = key then (k, val) else (k, v)) vals"

text \<open>A name with its value after the first equals sign, if there is one.\<close>

definition split_flag :: "string \<Rightarrow> string \<times> string option" where
  "split_flag name =
     (if CHR ''='' \<in> set name
      then (takeWhile (\<lambda>c. c \<noteq> CHR ''='') name, Some (tl (dropWhile (\<lambda>c. c \<noteq> CHR ''='') name)))
      else (name, None))"

text \<open>
  One or two dashes before a name, the value in the same argument or in the next; parsing stops at
  the first argument that is no flag, and after \<open>--\<close>.
\<close>

fun flag_Parse :: "flag_values \<Rightarrow> string list \<Rightarrow> flag_error + flag_values" where
  "flag_Parse vals [] = Inr vals"
| "flag_Parse vals (s # args) =
     (if length s < 2 \<or> s ! 0 \<noteq> CHR ''-'' \<or> s = ''--'' then Inr vals
      else
        (let name = (if s ! 1 = CHR ''-'' then drop 2 s else drop 1 s) in
         if hd name = CHR ''-'' \<or> hd name = CHR ''='' then Inl (Flag_Error (''bad flag syntax: '' @ s))
         else
           (case split_flag name of (key, val) \<Rightarrow>
              if map_of vals key = None
              then Inl (if key = ''help'' \<or> key = ''h'' then Flag_Help
                        else Flag_Error (''flag provided but not defined: -'' @ key))
              else
                (case val of
                   Some v \<Rightarrow> flag_Parse (flag_set_value key v vals) args
                 | None \<Rightarrow>
                     (case args of
                        [] \<Rightarrow> Inl (Flag_Error (''flag needs an argument: -'' @ key))
                      | v # args \<Rightarrow> flag_Parse (flag_set_value key v vals) args)))))"

definition flag_value :: "flag_values \<Rightarrow> string \<Rightarrow> string" where
  "flag_value vals key = go_string (map_of vals key)"

section \<open>The servers of the SPIRE demo\<close>

definition web_flags :: flag_values where
  "web_flags = [(''addr'', '':8080''), (''log'', '''')]"

definition backend_flags :: flag_values where
  "backend_flags = [(''addr'', '':8081''), (''log'', '''')]"

definition db_flags :: flag_values where
  "db_flags = [(''addr'', '':8082''), (''log'', '''')]"

text \<open>
  How a program ends: its exit code, what it writes to standard error, and the server that it ran
  until then. The usage text that follows a flag error is left out. \<open>run\<close> never ends without an error.
\<close>

record program_end =
  exit_code :: nat
  stderr :: string
  ran :: "running option"

definition main_with :: "flag_values \<Rightarrow> (string \<Rightarrow> string \<Rightarrow> string \<times> running option) \<Rightarrow> string list \<Rightarrow> program_end" where
  "main_with flags run args =
     (case flag_Parse flags args of
        Inl Flag_Help \<Rightarrow> \<lparr>exit_code = 0, stderr = '''', ran = None\<rparr>
      | Inl (Flag_Error m) \<Rightarrow> \<lparr>exit_code = 2, stderr = m @ [CHR 0x0A], ran = None\<rparr>
      | Inr vals \<Rightarrow>
          (case run (flag_value vals ''addr'') (flag_value vals ''log'') of
             (err, s) \<Rightarrow> \<lparr>exit_code = 1, stderr = err @ [CHR 0x0A], ran = s\<rparr>))"

definition web_main :: "os \<Rightarrow> (routes \<Rightarrow> handler) \<Rightarrow> http_client \<Rightarrow> string list \<Rightarrow> program_end" where
  "web_main os dispatch client args = main_with web_flags (web_run os dispatch client) args"

definition backend_main :: "os \<Rightarrow> (routes \<Rightarrow> handler) \<Rightarrow> http_client \<Rightarrow> string list \<Rightarrow> program_end" where
  "backend_main os dispatch client args = main_with backend_flags (backend_run os dispatch client) args"

definition db_main :: "os \<Rightarrow> (routes \<Rightarrow> handler) \<Rightarrow> string list \<Rightarrow> program_end" where
  "db_main os dispatch args = main_with db_flags (db_run os dispatch) args"

section \<open>The services of the monitoring demo\<close>

text \<open>
  \<open>ListenAndServe\<close> of the default mux with the handler registered for \<open>/\<close>, and \<open>log.Fatal\<close> of the error with
  which it always ends; the time that the logger puts before the message is left out.
\<close>

definition serve_all :: "os \<Rightarrow> string \<Rightarrow> handler \<Rightarrow> program_end" where
  "serve_all os addr handler =
     (case Listen os addr of
        Some err \<Rightarrow> \<lparr>exit_code = 1, stderr = err @ [CHR 0x0A], ran = None\<rparr>
      | None \<Rightarrow> \<lparr>exit_code = 1, stderr = Serve os addr @ [CHR 0x0A],
          ran = Some \<lparr>prefix = '''', log_target = Stderr, address = addr, served = default_mux handler\<rparr>\<rparr>)"

definition service_a_main :: "os \<Rightarrow> http_client \<Rightarrow> (string \<Rightarrow> string) \<Rightarrow> program_end" where
  "service_a_main os client format = serve_all os '':8081'' (service_a_handler client format)"

definition service_b_main :: "os \<Rightarrow> (string \<Rightarrow> string) \<Rightarrow> program_end" where
  "service_b_main os format = serve_all os '':8082'' (service_b_handler format)"

definition service_c_main :: "os \<Rightarrow> (string \<Rightarrow> string) \<Rightarrow> program_end" where
  "service_c_main os format = serve_all os '':8083'' (service_c_handler format)"

section \<open>Command lines\<close>

text \<open>The ways to write a flag.\<close>

datatype flag_style = Joined | Spaced

fun flag_args :: "bool \<times> flag_style \<times> string \<times> string \<Rightarrow> string list" where
  "flag_args (two, Joined, key, val) = [(if two then ''--'' else ''-'') @ key @ ''='' @ val]"
| "flag_args (two, Spaced, key, val) = [(if two then ''--'' else ''-'') @ key, val]"

definition flag_key :: "string \<Rightarrow> bool" where
  "flag_key key \<longleftrightarrow> key \<noteq> [] \<and> hd key \<noteq> CHR ''-'' \<and> CHR ''='' \<notin> set key"

lemma split_flag_simps:
  "CHR ''='' \<notin> set key \<Longrightarrow> split_flag key = (key, None)"
  "CHR ''='' \<notin> set key \<Longrightarrow> split_flag (key @ CHR ''='' # val) = (key, Some val)"
proof -
  assume "CHR ''='' \<notin> set key"
  then have "\<And>c. c \<in> set key \<Longrightarrow> c \<noteq> CHR ''=''" by blast
  then show "split_flag (key @ CHR ''='' # val) = (key, Some val)"
    by (simp add: split_flag_def takeWhile_append2 dropWhile_append2)
qed (simp add: split_flag_def)

lemma flag_Parse_one:
  assumes "flag_key key" and "map_of vals key \<noteq> None"
  shows "flag_Parse vals (flag_args (two, style, key, val) @ args) = flag_Parse (flag_set_value key val vals) args"
proof -
  obtain y where known: "map_of vals key = Some y" using assms(2) by blast
  obtain c cs where key: "key = c # cs" "c \<noteq> CHR ''-''" "c \<noteq> CHR ''=''" "CHR ''='' \<notin> set key"
    using assms(1) by (cases key) (auto simp: flag_key_def)
  note split = split_flag_simps [OF key(4)]
  show ?thesis
    using known key(2,3) split unfolding key(1)
    by (cases style; cases two) simp_all
qed

lemma map_of_flag_set_value:
  "map_of (flag_set_value key val vals) k = (if k = key \<and> map_of vals key \<noteq> None then Some val else map_of vals k)"
  by (induction vals) (auto simp: flag_set_value_def)

lemma flag_Parse_args:
  "list_all (\<lambda>(two, style, key, val). flag_key key \<and> map_of vals key \<noteq> None) gs \<Longrightarrow>
     flag_Parse vals (concat (map flag_args gs)) = Inr (foldl (\<lambda>vals (two, style, key, val). flag_set_value key val vals) vals gs)"
proof (induction gs arbitrary: vals)
  case (Cons g gs)
  obtain two style key val where g: "g = (two, style, key, val)" by (cases g)
  have "list_all (\<lambda>(two, style, k, v). flag_key k \<and> map_of (flag_set_value key val vals) k \<noteq> None) gs"
    using Cons.prems by (auto simp: list_all_iff map_of_flag_set_value)
  from Cons.IH [OF this] show ?case
    using Cons.prems flag_Parse_one [of key vals two style val] by (simp add: g)
qed simp

lemma flag_value_last:
  "flag_value (foldl (\<lambda>vals (two, style, key, val). flag_set_value key val vals) vals gs) k
     = (if map_of vals k = None then '''' else
        go_string (map_of (rev (map (\<lambda>(two, style, key, val). (key, val)) gs) @ vals) k))"
proof (induction gs arbitrary: vals)
  case (Cons g gs)
  then show ?case
    by (cases g) (auto simp: flag_value_def map_of_flag_set_value map_add_def split: option.split)
qed (simp add: flag_value_def)

text \<open>However its flags are written, the web server listens on the last address given, or on \<open>:8080\<close>,
  logs to the last file given, or to standard output, and serves the three routes without caching; it
  ends with the exit code 1 whatever happens, and its message is that of what happened.\<close>

theorem web_main_flags:
  fixes gs :: "(bool \<times> flag_style \<times> string \<times> string) list"
  assumes "list_all (\<lambda>(two, style, key, val). key \<in> {''addr'', ''log''}) gs"
  defines "given \<equiv> rev (map (\<lambda>(two, style, key, val). (key, val)) gs) @ web_flags"
  shows "web_main os dispatch client (concat (map flag_args gs)) =
    (case web_run os dispatch client (the (map_of given ''addr'')) (the (map_of given ''log'')) of
       (err, s) \<Rightarrow> \<lparr>exit_code = 1, stderr = err @ [CHR 0x0A], ran = s\<rparr>)"
proof -
  have flags: "list_all (\<lambda>(two, style, key, val). flag_key key \<and> map_of web_flags key \<noteq> None) gs"
    using assms(1) by (auto simp: list_all_iff web_flags_def flag_key_def)
  let ?vals = "foldl (\<lambda>vals (two, style, key, val). flag_set_value key val vals) web_flags gs"
  have flag: "flag_value ?vals k = the (map_of given k)" if "k \<in> {''addr'', ''log''}" for k
  proof -
    have "map_of web_flags k \<noteq> None" using that by (auto simp: web_flags_def)
    then obtain w where "map_of web_flags k = Some w" by blast
    then show ?thesis by (auto simp: flag_value_last given_def map_add_def split: option.split)
  qed
  show ?thesis
    using flag [where k = "''addr''"] flag [where k = "''log''"]
    by (simp add: web_main_def main_with_def flag_Parse_args [OF flags])
qed

theorem web_main_flags_witness:
  "web_main \<lparr>OpenFile = (\<lambda>_. None), Listen = (\<lambda>a. if a = '':9'' then Some ''in use'' else None), Serve = (\<lambda>_. ''closed'')\<rparr>
      plain_dispatch client (concat (map flag_args [(True, Joined, ''addr'', '':1''), (False, Spaced, ''addr'', '':9'')]))
    = \<lparr>exit_code = 1, stderr = ''unable to listen: in use'' @ [CHR 0x0A], ran = None\<rparr>"
  by (subst web_main_flags) (simp_all add: web_flags_def web_run_def)

end
