(* ===== verification/Spire_Example.thy ===== *)
theory Spire_Example
  imports Service_Mains
begin

text \<open>
  The three programs of \<^verbatim>\<open>istio/envoy/security/spire-example/src\<close>. Their files repeat those of
  \<^verbatim>\<open>envoy-spire-ext-authz/src\<close> byte for byte: the handlers and the middleware are defined as those of
  \<open>Spire_Services\<close>, and the programs around them are written out and found equal.
\<close>

definition example_serveTheGoodPath :: "http_client \<Rightarrow> handler" where
  "example_serveTheGoodPath = serveTheGoodPath"

definition example_serveTheBadPath :: "http_client \<Rightarrow> handler" where
  "example_serveTheBadPath = serveTheBadPath"

definition example_serveGoodBackend :: "http_client \<Rightarrow> handler" where
  "example_serveGoodBackend = serveGoodBackend"

definition example_serveGoodDb :: handler where
  "example_serveGoodDb = serveGoodDb"

definition example_noCache :: "handler \<Rightarrow> handler" where
  "example_noCache = noCache"

definition example_web_flags :: flag_values where
  "example_web_flags = [(''addr'', '':8080''), (''log'', '''')]"

definition example_backend_flags :: flag_values where
  "example_backend_flags = [(''addr'', '':8081''), (''log'', '''')]"

definition example_db_flags :: flag_values where
  "example_db_flags = [(''addr'', '':8082''), (''log'', '''')]"

definition example_web_routes :: "http_client \<Rightarrow> routes" where
  "example_web_routes client = [(''/hello'', serveHello), (''/the/good/path'', example_serveTheGoodPath client),
     (''/the/bad/path'', example_serveTheBadPath client)]"

definition example_web_run :: "os \<Rightarrow> (routes \<Rightarrow> handler) \<Rightarrow> http_client \<Rightarrow> string \<Rightarrow> string \<Rightarrow> string \<times> running option" where
  "example_web_run os dispatch client addrFlag logFlag =
     (case (if logFlag \<noteq> '''' then OpenFile os logFlag else None) of
        Some err \<Rightarrow> (''unable to open log file: '' @ err, None)
      | None \<Rightarrow>
          (case Listen os addrFlag of
             Some err \<Rightarrow> (''unable to listen: '' @ err, None)
           | None \<Rightarrow> (Serve os addrFlag, Some \<lparr>prefix = ''web> '',
               log_target = (if logFlag \<noteq> '''' then LogFile logFlag else Stdout), address = addrFlag,
               served = with_middlewares [example_noCache] (dispatch (example_web_routes client))\<rparr>)))"

definition example_web_main :: "os \<Rightarrow> (routes \<Rightarrow> handler) \<Rightarrow> http_client \<Rightarrow> string list \<Rightarrow> program_end" where
  "example_web_main os dispatch client args = main_with example_web_flags (example_web_run os dispatch client) args"

definition example_backend_run :: "os \<Rightarrow> (routes \<Rightarrow> handler) \<Rightarrow> http_client \<Rightarrow> string \<Rightarrow> string \<Rightarrow> string \<times> running option" where
  "example_backend_run os dispatch client addrFlag logFlag =
     (case (if logFlag \<noteq> '''' then OpenFile os logFlag else None) of
        Some err \<Rightarrow> (''unable to open log file: '' @ err, None)
      | None \<Rightarrow>
          (case Listen os addrFlag of
             Some err \<Rightarrow> (''unable to listen: '' @ err, None)
           | None \<Rightarrow> (Serve os addrFlag, Some \<lparr>prefix = ''backend> '',
               log_target = (if logFlag \<noteq> '''' then LogFile logFlag else Stdout), address = addrFlag,
               served = with_middlewares [example_noCache] (dispatch [(''/good/backend'', example_serveGoodBackend client)])\<rparr>)))"

definition example_backend_main :: "os \<Rightarrow> (routes \<Rightarrow> handler) \<Rightarrow> http_client \<Rightarrow> string list \<Rightarrow> program_end" where
  "example_backend_main os dispatch client args = main_with example_backend_flags (example_backend_run os dispatch client) args"

definition example_db_run :: "os \<Rightarrow> (routes \<Rightarrow> handler) \<Rightarrow> string \<Rightarrow> string \<Rightarrow> string \<times> running option" where
  "example_db_run os dispatch addrFlag logFlag =
     (case (if logFlag \<noteq> '''' then OpenFile os logFlag else None) of
        Some err \<Rightarrow> (''unable to open log file: '' @ err, None)
      | None \<Rightarrow>
          (case Listen os addrFlag of
             Some err \<Rightarrow> (''unable to listen: '' @ err, None)
           | None \<Rightarrow> (Serve os addrFlag, Some \<lparr>prefix = ''db> '',
               log_target = (if logFlag \<noteq> '''' then LogFile logFlag else Stdout), address = addrFlag,
               served = with_middlewares [example_noCache] (dispatch [(''/good/db'', example_serveGoodDb)])\<rparr>)))"

definition example_db_main :: "os \<Rightarrow> (routes \<Rightarrow> handler) \<Rightarrow> string list \<Rightarrow> program_end" where
  "example_db_main os dispatch args = main_with example_db_flags (example_db_run os dispatch) args"

lemma example_programs:
  "example_web_main = web_main" "example_backend_main = backend_main" "example_db_main = db_main"
proof -
  note handlers = example_serveTheGoodPath_def example_serveTheBadPath_def example_serveGoodBackend_def
    example_serveGoodDb_def example_noCache_def
  have "example_web_run os dispatch client = web_run os dispatch client" for os dispatch client
    by (intro ext, unfold example_web_run_def web_run_def example_web_routes_def web_routes_def handlers, rule refl)
  moreover have "example_backend_run os dispatch client = backend_run os dispatch client" for os dispatch client
    by (intro ext, unfold example_backend_run_def backend_run_def handlers, rule refl)
  moreover have "example_db_run os dispatch = db_run os dispatch" for os dispatch
    by (intro ext, unfold example_db_run_def db_run_def handlers, rule refl)
  ultimately show "example_web_main = web_main" "example_backend_main = backend_main" "example_db_main = db_main"
    by (intro ext; simp add: example_web_main_def web_main_def example_backend_main_def backend_main_def
      example_db_main_def db_main_def example_web_flags_def web_flags_def example_backend_flags_def backend_flags_def
      example_db_flags_def db_flags_def)+
qed

end
