(* ===== verification/Spire_Mesh.thy ===== *)
theory Spire_Mesh
  imports Spire_Envoys Spire_Example
begin

text \<open>
  The two SPIRE demos as they are deployed: the three programs, started as \<^verbatim>\<open>docker/*/conf/start_service.sh\<close>
  does, behind their Envoys. \<^verbatim>\<open>envoy-spire-ext-authz\<close> and \<^verbatim>\<open>spire-example\<close> hold the same programs, byte
  for byte, under different configurations. A request goes from Envoy to Envoy and server to server until
  it is answered.
\<close>

section \<open>Deployments\<close>

text \<open>By host: the configuration of its Envoy, its address, and its server with the address it listens on, if it runs.\<close>

record deployment =
  envoy_of :: "string \<Rightarrow> envoy"
  address_of :: "string \<Rightarrow> 32 word"
  server_of :: "string \<Rightarrow> http_client \<Rightarrow> running option"
  policies :: "string \<Rightarrow> rego_input \<Rightarrow> bool"

definition log_args :: "string list" where
  "log_args = [''-log'', ''/dev/stdout'']"

definition no_envoy :: envoy where
  "no_envoy = \<lparr>listeners = [], clusters = []\<rparr>"

definition ext_authz_demo :: "os \<Rightarrow> (routes \<Rightarrow> handler) \<Rightarrow> (string \<Rightarrow> 32 word) \<Rightarrow> deployment" where
  "ext_authz_demo os dispatch addresses = \<lparr>
     envoy_of = (\<lambda>host.
       if host = ''web'' then authz_web_envoy else if host = ''backend'' then authz_backend_envoy
       else if host = ''db'' then authz_db_envoy else no_envoy),
     address_of = addresses,
     server_of = (\<lambda>host client.
       if host = ''web'' then ran (web_main os dispatch client log_args)
       else if host = ''backend'' then ran (backend_main os dispatch client log_args)
       else if host = ''db'' then ran (db_main os dispatch log_args) else None),
     policies = opa\<rparr>"

definition spire_example_demo :: "os \<Rightarrow> (routes \<Rightarrow> handler) \<Rightarrow> (string \<Rightarrow> 32 word) \<Rightarrow> deployment" where
  "spire_example_demo os dispatch addresses = \<lparr>
     envoy_of = (\<lambda>host.
       if host = ''web'' then example_web_envoy else if host = ''backend'' then example_backend_envoy
       else if host = ''db'' then example_db_envoy else no_envoy),
     address_of = addresses,
     server_of = (\<lambda>host client.
       if host = ''web'' then ran (example_web_main os dispatch client log_args)
       else if host = ''backend'' then ran (example_backend_main os dispatch client log_args)
       else if host = ''db'' then ran (example_db_main os dispatch log_args) else None),
     policies = (\<lambda>_ _. False)\<rparr>"

section \<open>Requests on their way\<close>

text \<open>A URL of the host itself: port and path.\<close>

definition local_url :: "string \<Rightarrow> (string \<times> string) option" where
  "local_url url =
     (if take 17 url = ''http://localhost:''
      then Some (takeWhile (\<lambda>c. c \<noteq> CHR ''/'') (drop 17 url), dropWhile (\<lambda>c. c \<noteq> CHR ''/'') (drop 17 url))
      else None)"

definition port_listener :: "envoy \<Rightarrow> string \<Rightarrow> listener option" where
  "port_listener e port = find (\<lambda>l. listen_port l = port) (listeners e)"

text \<open>What Envoy makes of its own server: a handler that panics has its connection closed.\<close>

definition served_by :: "proxy \<Rightarrow> handler \<Rightarrow> http_request \<Rightarrow> http_response" where
  "served_by P h r = (case h r fresh_exchange of (Return _, x) \<Rightarrow> answered_with r x | (Panic _, x) \<Rightarrow> unreachable P)"

definition listens_at :: "running \<Rightarrow> string \<times> string \<Rightarrow> bool" where
  "listens_at s endpoint \<longleftrightarrow> fst endpoint = ''127.0.0.1'' \<and> address s = '':'' @ snd endpoint"

definition accepts_server :: "cluster \<Rightarrow> listener option \<Rightarrow> bool" where
  "accepts_server cl l = (case l of None \<Rightarrow> False | Some l \<Rightarrow> (case identity l of None \<Rightarrow> False | Some i \<Rightarrow> i \<in> set (server_names cl)))"

text \<open>The client of a server: its requests go to the Envoy of its own host.\<close>

definition local_peer :: peer where
  "local_peer = \<lparr>peer_address = localhost, certificate = None\<rparr>"

definition local_client :: "(string \<Rightarrow> peer \<Rightarrow> http_request \<Rightarrow> string + http_response) \<Rightarrow> http_client" where
  "local_client send = \<lparr>NewRequest = (\<lambda>_ _. None), Do = (\<lambda>m url hs.
     case local_url url of
       None \<Rightarrow> Inl ''no such host''
     | Some (port, path) \<Rightarrow> send port local_peer
         \<lparr>Method = m, URLPath = path, RawQuery = [], RemoteAddr = ''127.0.0.1'', RequestHeader = hs\<rparr>)\<rparr>"

text \<open>
  A request that a peer sends to a port of a host, with fuel for the number of Envoys that it may
  pass. Through a cluster without TLS an Envoy reaches the server of its own host, if that listens on
  the cluster's port. The handlers' own requests go back to the Envoy of their host.
\<close>

primrec fetch :: "nat \<Rightarrow> proxy \<Rightarrow> deployment \<Rightarrow> string \<Rightarrow> string \<Rightarrow> peer \<Rightarrow> http_request \<Rightarrow> string + http_response" where
  "fetch 0 P D host port p r = Inl ''timeout''"
| "fetch (Suc n) P D host port p r =
     (case port_listener (envoy_of D host) port of
        None \<Rightarrow> Inl ''connection refused''
      | Some l \<Rightarrow>
          (case decide P (policies D) l p r of
             Refused \<Rightarrow> Inl ''tls: bad certificate''
           | Answer resp \<Rightarrow> Inr resp
           | Forward c r' \<Rightarrow>
               (case map_of (clusters (envoy_of D host)) c of
                  None \<Rightarrow> Inr (unreachable P)
                | Some cl \<Rightarrow>
                    (case own_name cl of
                       None \<Rightarrow>
                         (case server_of D host (local_client (fetch n P D host)) of
                            None \<Rightarrow> Inr (unreachable P)
                          | Some s \<Rightarrow>
                              if listens_at s (upstream cl) then Inr (served_by P (served s) r') else Inr (unreachable P))
                     | Some own \<Rightarrow>
                         (case upstream cl of (host', port') \<Rightarrow>
                            if accepts_server cl (port_listener (envoy_of D host') port')
                            then (case fetch n P D host' port' \<lparr>peer_address = address_of D host, certificate = Some own\<rparr> r' of
                                    Inl _ \<Rightarrow> Inr (unreachable P)
                                  | Inr resp \<Rightarrow> Inr resp)
                            else Inr (unreachable P))))))"

declare fetch.simps(2) [simp del]

text \<open>The longest way, that of the good path, passes five Envoys.\<close>

definition demo_hops :: nat where
  "demo_hops = 5"

definition ask :: "nat \<Rightarrow> proxy \<Rightarrow> deployment \<Rightarrow> string \<Rightarrow> peer \<Rightarrow> string \<Rightarrow> (int \<times> string) option" where
  "ask n P D host p path =
     (case fetch (n + demo_hops) P D host ''8001'' p (get_request path) of
        Inl _ \<Rightarrow> None
      | Inr resp \<Rightarrow> Some (StatusCode resp, concat (Body resp)))"

section \<open>One hop\<close>

definition started :: "os \<Rightarrow> bool" where
  "started os \<longleftrightarrow> OpenFile os ''/dev/stdout'' = None
     \<and> Listen os '':8080'' = None \<and> Listen os '':8081'' = None \<and> Listen os '':8082'' = None"

definition at_address :: "running option \<Rightarrow> (string \<times> handler) option" where
  "at_address = map_option (\<lambda>s. (address s, served s))"

lemma started_mains:
  assumes "started os"
  shows "at_address (ran (web_main os dispatch client log_args))
      = Some ('':8080'', with_middlewares [noCache] (dispatch (web_routes client)))"
    and "at_address (ran (backend_main os dispatch client log_args))
      = Some ('':8081'', with_middlewares [noCache] (dispatch [(''/good/backend'', serveGoodBackend client)]))"
    and "at_address (ran (db_main os dispatch log_args))
      = Some ('':8082'', with_middlewares [noCache] (dispatch [(''/good/db'', serveGoodDb)]))"
  using assms
  by (simp_all add: at_address_def started_def log_args_def web_main_def backend_main_def db_main_def main_with_def web_flags_def
    backend_flags_def db_flags_def split_flag_def flag_set_value_def flag_value_def web_run_def backend_run_def db_run_def)

lemma served_route:
  assumes "chi_router dispatch" and "map_of rs (URLPath r) = Some h" and "Method r = ''GET''"
  shows "served_by P (with_middlewares [noCache] (dispatch rs)) r
    = (case h r (fresh_exchange\<lparr>header := no_cache_header\<rparr>) of (Return _, x) \<Rightarrow> finish x | (Panic _, x) \<Rightarrow> unreachable P)"
  using chi_router.dispatch_get [OF assms(1,3,2)]
  by (simp add: served_by_def answered_with_def assms(3) with_middlewares_def noCache_def Header_Set_def no_cache_header_def
      fresh_exchange_def split: prod.split outcome.split)

text \<open>GET requests, and what a listener permits of them.\<close>

definition is_get :: "http_request \<Rightarrow> string \<Rightarrow> bool" where
  "is_get r path \<longleftrightarrow> Method r = ''GET'' \<and> URLPath r = path"

definition gate :: "proxy \<Rightarrow> deployment \<Rightarrow> listener \<Rightarrow> peer \<Rightarrow> string \<Rightarrow> bool" where
  "gate P D l p path \<longleftrightarrow> permitted P (policies D) l p (get_request path)"

lemma permitted_gate: "is_get r path \<Longrightarrow> permitted P (policies D) l p r = gate P D l p path"
  by (simp add: is_get_def gate_def permitted_def rego_input_of_def get_request_def split: option.split)

definition text_reply :: "string \<Rightarrow> http_response" where
  "text_reply b = \<lparr>StatusCode = 200, ResponseHeader = no_cache_header, Body = [b]\<rparr>"

text \<open>
  What the two demos have in common: the ports, routes, clusters and identities, and the servers. The
  listeners \<open>lw\<close>, \<open>lb\<close>, \<open>le\<close> and \<open>ld\<close> are those of the web server, of the backend, of the backend's own
  requests, and of the database; they differ in what they permit.
\<close>

locale spire_mesh = envoy_proxy P + chi_router dispatch for P dispatch +
  fixes D :: deployment and lw lb le ld :: listener
  assumes ports: "port_listener (envoy_of D ''web'') ''8001'' = Some lw" "port_listener (envoy_of D ''backend'') ''8001'' = Some lb"
      "port_listener (envoy_of D ''backend'') ''8002'' = Some le" "port_listener (envoy_of D ''db'') ''8001'' = Some ld"
    and clusters: "clusters (envoy_of D ''web'') = web_clusters" "clusters (envoy_of D ''backend'') = backend_clusters"
      "clusters (envoy_of D ''db'') = db_clusters"
    and routes: "route_prefixes lw = web_route_table" "route_prefixes lb = [(''/good/backend'', ''backend_server'')]"
      "route_prefixes le = [(''/good/db'', ''backend_to_db_mtls'')]" "route_prefixes ld = [(''/good/db'', ''db_server'')]"
    and names: "identity lw = None" "identity le = None" "identity lb = Some backend_id" "client_names lb = [web_id]"
      "identity ld = Some db_id" "client_names ld = []"
    and servers: "at_address (server_of D ''web'' client) = Some ('':8080'', with_middlewares [noCache] (dispatch (web_routes client)))"
      "at_address (server_of D ''backend'' client) = Some ('':8081'', with_middlewares [noCache] (dispatch [(''/good/backend'', serveGoodBackend client)]))"
      "at_address (server_of D ''db'' client) = Some ('':8082'', with_middlewares [noCache] (dispatch [(''/good/db'', serveGoodDb)]))"
begin

lemma routes_found:
  "find_route lw ''/hello'' = Some ''web_server''" "find_route lw ''/the/good/path'' = Some ''web_server''"
  "find_route lw ''/the/bad/path'' = Some ''web_server''" "find_route lw ''/good/backend'' = Some ''web_to_backend_mtls''"
  "find_route lw ''/good/db'' = Some ''web_to_db_mtls''" "find_route lb ''/good/backend'' = Some ''backend_server''"
  "find_route le ''/good/db'' = Some ''backend_to_db_mtls''" "find_route ld ''/good/db'' = Some ''db_server''"
  by (simp_all add: find_route_def routes web_route_table_def)

lemma admitted_simps [simp]:
  "admitted lw p" "admitted le p" "admitted ld p" "admitted lb p \<longleftrightarrow> certificate p \<in> {None, Some web_id}"
  by (auto simp: admitted_def names split: option.split)

lemma forwarded:
  assumes "is_get r path" and "admitted l p" and "gate P D l p path" and "find_route l path = Some c"
  obtains r' where "decide P (policies D) l p r = Forward c r'" and "is_get r' path"
  using routed [of l p "policies D" r c] assms permitted_gate [OF assms(1)] by (auto simp: is_get_def)

lemma fetch_local:
  assumes "is_get r path" and "port_listener (envoy_of D host) port = Some l" and "admitted l p" and "gate P D l p path"
    and "find_route l path = Some c" and "map_of (envoy.clusters (envoy_of D host)) c = Some (local_cluster q)"
    and "at_address (server_of D host (local_client (fetch n P D host))) = Some (s, h)" and "\<And>r'. is_get r' path \<Longrightarrow> served_by P h r' = resp" and "s = '':'' @ q"
  shows "fetch (Suc n) P D host port p r = Inr resp"
proof -
  obtain r' where "decide P (policies D) l p r = Forward c r'" "is_get r' path" by (rule forwarded [OF assms(1,3,4,5)])
  then show ?thesis
    using assms(2,6,7,8,9) by (auto simp: fetch.simps(2) local_cluster_def at_address_def listens_at_def)
qed

lemma fetch_mtls:
  assumes "is_get r path" and "port_listener (envoy_of D host) port = Some l" and "admitted l p" and "gate P D l p path"
    and "find_route l path = Some c" and "map_of (envoy.clusters (envoy_of D host)) c = Some (mtls_cluster host' own server)"
    and "port_listener (envoy_of D host') ''8001'' = Some l'" and "identity l' = Some server"
    and "\<And>r'. is_get r' path \<Longrightarrow> fetch n P D host' ''8001'' \<lparr>peer_address = address_of D host, certificate = Some own\<rparr> r' = Inr resp"
  shows "fetch (Suc n) P D host port p r = Inr resp"
proof -
  obtain r' where "decide P (policies D) l p r = Forward c r'" "is_get r' path" by (rule forwarded [OF assms(1,3,4,5)])
  then show ?thesis
    using assms(2,6,7,8,9) by (simp add: fetch.simps(2) mtls_cluster_def accepts_server_def)
qed

lemma fetch_denied:
  assumes "is_get r path" and "port_listener (envoy_of D host) port = Some l" and "admitted l p" and "\<not> gate P D l p path"
  shows "\<exists>resp. fetch (Suc n) P D host port p r = Inr resp \<and> StatusCode resp = 403"
  using denied [of l p "policies D" r] assms permitted_gate [OF assms(1)] by (auto simp: fetch.simps(2))

text \<open>What the servers answer.\<close>

lemma answers:
  assumes "is_get r path" and "map_of rs path = Some h"
  shows "served_by P (with_middlewares [noCache] (dispatch rs)) r
    = (case h r (fresh_exchange\<lparr>header := no_cache_header\<rparr>) of (Return _, x) \<Rightarrow> finish x | (Panic _, x) \<Rightarrow> unreachable P)"
  using served_route [OF chi_router_axioms, of rs r h P] assms by (simp add: is_get_def)

lemma db_hop:
  assumes "is_get r ''/good/db''" and "gate P D ld p ''/good/db''"
  shows "fetch (Suc n) P D ''db'' ''8001'' p r = Inr (text_reply ''DB'')"
proof (rule fetch_local [OF assms(1) ports(4) _ assms(2) routes_found(8) _ servers(3)])
  show "map_of (envoy.clusters (envoy_of D ''db'')) ''db_server'' = Some (local_cluster ''8082'')"
    by (simp add: clusters db_clusters_def)
  fix r' assume r': "is_get r' ''/good/db''"
  show "served_by P (with_middlewares [noCache] (dispatch [(''/good/db'', serveGoodDb)])) r' = text_reply ''DB''"
    by (subst answers [OF r', where h = serveGoodDb]) (simp_all add: serveGoodDb_def exchange_defs text_reply_def)
qed simp_all

abbreviation from_backend :: peer where
  "from_backend \<equiv> \<lparr>peer_address = address_of D ''backend'', certificate = Some backend_id\<rparr>"

abbreviation from_web :: peer where
  "from_web \<equiv> \<lparr>peer_address = address_of D ''web'', certificate = Some web_id\<rparr>"

lemma egress_hop:
  assumes "is_get r ''/good/db''" and "gate P D le p ''/good/db''" and "gate P D ld from_backend ''/good/db''"
  shows "fetch (Suc (Suc n)) P D ''backend'' ''8002'' p r = Inr (text_reply ''DB'')"
proof (rule fetch_mtls [OF assms(1) ports(3) _ assms(2) routes_found(7) _ ports(4) names(5)])
  show "map_of (envoy.clusters (envoy_of D ''backend'')) ''backend_to_db_mtls'' = Some (mtls_cluster ''db'' backend_id db_id)"
    by (simp add: clusters backend_clusters_def)
  show "fetch (Suc n) P D ''db'' ''8001'' from_backend r' = Inr (text_reply ''DB'')" if "is_get r' ''/good/db''" for r'
    using that assms(3) by (rule db_hop)
qed simp

lemma backend_hop:
  assumes "is_get r ''/good/backend''" and "admitted lb p" and "gate P D lb p ''/good/backend''"
    and "gate P D le local_peer ''/good/db''" and "gate P D ld from_backend ''/good/db''"
  shows "fetch (Suc (Suc (Suc n))) P D ''backend'' ''8001'' p r = Inr (text_reply ''BACKEND -> DB'')"
proof (rule fetch_local [OF assms(1) ports(2) assms(2,3) routes_found(6) _ servers(2)])
  show "map_of (envoy.clusters (envoy_of D ''backend'')) ''backend_server'' = Some (local_cluster ''8081'')"
    by (simp add: clusters backend_clusters_def)
  let ?client = "local_client (fetch (Suc (Suc n)) P D ''backend'')"
  fix r' assume r': "is_get r' ''/good/backend''"
  have "Do ?client ''GET'' ''http://localhost:8002/good/db'' [] = Inr (text_reply ''DB'')"
    using egress_hop [OF _ assms(4,5)] by (simp add: local_client_def local_url_def is_get_def)
  moreover have "NewRequest ?client = (\<lambda>_ _. None)" by (simp add: local_client_def)
  ultimately show "served_by P (with_middlewares [noCache] (dispatch [(''/good/backend'', serveGoodBackend ?client)])) r'
      = text_reply ''BACKEND -> DB''"
    by (subst answers [OF r', where h = "serveGoodBackend ?client"])
       (simp_all add: serveGoodBackend_def exchange_defs text_reply_def tryRead_def Read_def Let_def)
qed simp

lemma web_to_backend:
  assumes "is_get r ''/good/backend''" and "gate P D lw p ''/good/backend''" and "gate P D lb from_web ''/good/backend''"
    and "gate P D le local_peer ''/good/db''" and "gate P D ld from_backend ''/good/db''"
  shows "fetch (Suc (Suc (Suc (Suc n)))) P D ''web'' ''8001'' p r = Inr (text_reply ''BACKEND -> DB'')"
proof (rule fetch_mtls [OF assms(1) ports(1) _ assms(2) routes_found(4) _ ports(2) names(3)])
  show "map_of (envoy.clusters (envoy_of D ''web'')) ''web_to_backend_mtls'' = Some (mtls_cluster ''backend'' web_id backend_id)"
    by (simp add: clusters web_clusters_def)
  show "fetch (Suc (Suc (Suc n))) P D ''backend'' ''8001'' from_web r' = Inr (text_reply ''BACKEND -> DB'')"
    if "is_get r' ''/good/backend''" for r'
    using that _ assms(3-5) by (rule backend_hop) simp
qed simp

lemma web_to_db:
  assumes "is_get r ''/good/db''" and "gate P D lw p ''/good/db''"
  shows "gate P D ld from_web ''/good/db'' \<Longrightarrow> fetch (Suc (Suc n)) P D ''web'' ''8001'' p r = Inr (text_reply ''DB'')"
    and "\<not> gate P D ld from_web ''/good/db'' \<Longrightarrow>
      \<exists>resp. fetch (Suc (Suc n)) P D ''web'' ''8001'' p r = Inr resp \<and> StatusCode resp = 403"
proof -
  have cluster: "map_of (envoy.clusters (envoy_of D ''web'')) ''web_to_db_mtls'' = Some (mtls_cluster ''db'' web_id db_id)"
    by (simp add: clusters web_clusters_def)
  note hop = fetch_mtls [OF assms(1) ports(1) admitted_simps(1) assms(2) routes_found(5) cluster ports(4) names(5)]
  show "fetch (Suc (Suc n)) P D ''web'' ''8001'' p r = Inr (text_reply ''DB'')" if "gate P D ld from_web ''/good/db''"
    by (rule hop) (use that in \<open>simp add: db_hop\<close>)
  show "\<exists>resp. fetch (Suc (Suc n)) P D ''web'' ''8001'' p r = Inr resp \<and> StatusCode resp = 403"
    if shut: "\<not> gate P D ld from_web ''/good/db''"
  proof -
    obtain r' where r': "decide P (policies D) lw p r = Forward ''web_to_db_mtls'' r'" "is_get r' ''/good/db''"
      by (rule forwarded [OF assms(1) admitted_simps(1) assms(2) routes_found(5)])
    from fetch_denied [OF r'(2) ports(4) admitted_simps(3) shut]
    obtain resp where "fetch (Suc n) P D ''db'' ''8001'' from_web r' = Inr resp" "StatusCode resp = 403" by blast
    then show ?thesis
      using r'(1) ports(1,4) cluster names(5) by (simp add: fetch.simps(2) mtls_cluster_def accepts_server_def)
  qed
qed

lemma web_page:
  assumes "is_get r path" and "gate P D lw p path" and "find_route lw path = Some ''web_server''"
    and "map_of (web_routes (local_client (fetch n P D ''web''))) path = Some h"
    and "\<And>r'. is_get r' path \<Longrightarrow>
      (case h r' (fresh_exchange\<lparr>header := no_cache_header\<rparr>) of (Return _, x) \<Rightarrow> finish x | (Panic _, x) \<Rightarrow> unreachable P) = resp"
  shows "fetch (Suc n) P D ''web'' ''8001'' p r = Inr resp"
proof (rule fetch_local [OF assms(1) ports(1) _ assms(2,3) _ servers(1)])
  show "map_of (envoy.clusters (envoy_of D ''web'')) ''web_server'' = Some (local_cluster ''8080'')"
    by (simp add: clusters web_clusters_def)
  show "served_by P (with_middlewares [noCache] (dispatch (web_routes (local_client (fetch n P D ''web''))))) r' = resp"
    if "is_get r' path" for r'
    by (subst answers [OF that assms(4)]) (rule assms(5) [OF that])
qed simp_all

lemma hello_page:
  assumes "is_get r ''/hello''" and "gate P D lw p ''/hello''"
  shows "fetch (Suc n) P D ''web'' ''8001'' p r = Inr (text_reply (''Hello from the web service !'' @ [CHR 0x0A]))"
  by (rule web_page [OF assms routes_found(1), where h = serveHello])
     (simp_all add: web_routes_def serveHello_def exchange_defs text_reply_def)

lemma good_page:
  assumes "is_get r ''/the/good/path''" and "gate P D lw p ''/the/good/path''" and "gate P D lw local_peer ''/good/backend''"
    and "gate P D lb from_web ''/good/backend''" and "gate P D le local_peer ''/good/db''" and "gate P D ld from_backend ''/good/db''"
  shows "fetch (Suc (Suc (Suc (Suc (Suc n))))) P D ''web'' ''8001'' p r
    = Inr (text_reply (''Allowed path: WEB -> BACKEND -> DB'' @ [CHR 0x0A]))"
proof (rule web_page [OF assms(1,2) routes_found(2)])
  let ?client = "local_client (fetch (Suc (Suc (Suc (Suc n)))) P D ''web'')"
  show "map_of (web_routes ?client) ''/the/good/path'' = Some (serveTheGoodPath ?client)" by (simp add: web_routes_def)
  have "Do ?client ''GET'' ''http://localhost:8001/good/backend'' [] = Inr (text_reply ''BACKEND -> DB'')"
    using web_to_backend [OF _ assms(3-6)] by (simp add: local_client_def local_url_def is_get_def)
  moreover have "NewRequest ?client = (\<lambda>_ _. None)" by (simp add: local_client_def)
  ultimately show "(case serveTheGoodPath ?client r' (fresh_exchange\<lparr>header := no_cache_header\<rparr>) of
      (Return _, x) \<Rightarrow> finish x | (Panic _, x) \<Rightarrow> unreachable P) = text_reply (''Allowed path: WEB -> BACKEND -> DB'' @ [CHR 0x0A])" for r'
    by (simp add: serveTheGoodPath_def exchange_defs text_reply_def tryRead_def Read_def Let_def)
qed

lemma bad_page:
  assumes "is_get r ''/the/bad/path''" and "gate P D lw p ''/the/bad/path''" and "gate P D lw local_peer ''/good/db''"
  shows "gate P D ld from_web ''/good/db'' \<Longrightarrow> fetch (Suc (Suc (Suc n))) P D ''web'' ''8001'' p r
      = Inr (text_reply (''Allowed path: WEB -> DB'' @ [CHR 0x0A]))"
    and "\<not> gate P D ld from_web ''/good/db'' \<Longrightarrow> fetch (Suc (Suc (Suc n))) P D ''web'' ''8001'' p r
      = Inr ((text_reply (''Forbidden path: WEB -> DB'' @ [CHR 0x0A]))\<lparr>StatusCode := 403\<rparr>)"
proof -
  let ?client = "local_client (fetch (Suc (Suc n)) P D ''web'')"
  let ?r = "\<lparr>Method = ''GET'', URLPath = ''/good/db'', RawQuery = [], RemoteAddr = ''127.0.0.1'', RequestHeader = []\<rparr>"
  have route: "map_of (web_routes ?client) ''/the/bad/path'' = Some (serveTheBadPath ?client)" by (simp add: web_routes_def)
  have sent: "Do ?client ''GET'' ''http://localhost:8001/good/db'' [] = fetch (Suc (Suc n)) P D ''web'' ''8001'' local_peer ?r"
    "NewRequest ?client = (\<lambda>_ _. None)"
    by (simp_all add: local_client_def local_url_def)
  have get: "is_get ?r ''/good/db''" by (simp add: is_get_def)
  note page = web_page [OF assms(1,2) routes_found(3) route]
  note defs = serveTheBadPath_def exchange_defs text_reply_def tryRead_def Read_def Let_def WriteHeader_def
  show "fetch (Suc (Suc (Suc n))) P D ''web'' ''8001'' p r = Inr (text_reply (''Allowed path: WEB -> DB'' @ [CHR 0x0A]))"
    if "gate P D ld from_web ''/good/db''"
    by (rule page) (use sent web_to_db(1) [OF get assms(3) that, of n] in \<open>simp add: defs\<close>)
  show "fetch (Suc (Suc (Suc n))) P D ''web'' ''8001'' p r
      = Inr ((text_reply (''Forbidden path: WEB -> DB'' @ [CHR 0x0A]))\<lparr>StatusCode := 403\<rparr>)"
    if shut: "\<not> gate P D ld from_web ''/good/db''"
  proof -
    obtain resp where "fetch (Suc (Suc n)) P D ''web'' ''8001'' local_peer ?r = Inr resp" "StatusCode resp = 403"
      using web_to_db(2) [OF get assms(3) shut] by blast
    then show ?thesis by (intro page) (use sent in \<open>simp add: defs\<close>)
  qed
qed

end

section \<open>The two demos\<close>

lemma ext_authz_mesh:
  assumes "envoy_proxy P" and "chi_router dispatch" and "started os"
  shows "spire_mesh P dispatch (ext_authz_demo os dispatch addresses) authz_web_listener authz_backend_listener
    authz_backend_egress authz_db_listener"
  unfolding spire_mesh_def spire_mesh_axioms_def
  using assms(1,2) started_mains [OF assms(3)]
  by (simp add: ext_authz_demo_def port_listener_def authz_web_envoy_def authz_backend_envoy_def authz_db_envoy_def
    authz_web_listener_def authz_backend_listener_def authz_backend_egress_def authz_db_listener_def)

lemma spire_example_mesh:
  assumes "envoy_proxy P" and "chi_router dispatch" and "started os"
  shows "spire_mesh P dispatch (spire_example_demo os dispatch addresses) example_web_listener example_backend_listener
    example_backend_egress example_db_listener"
  unfolding spire_mesh_def spire_mesh_axioms_def
  using assms(1,2) started_mains [OF assms(3)]
  by (simp add: spire_example_demo_def port_listener_def example_web_envoy_def example_backend_envoy_def example_db_envoy_def
    example_web_listener_def example_web_tls_listener_def example_backend_listener_def example_backend_egress_def
    example_db_listener_def example_programs)

definition free_os :: os where
  "free_os = \<lparr>OpenFile = (\<lambda>_. None), Listen = (\<lambda>_. None), Serve = (\<lambda>_. ''closed'')\<rparr>"

lemma free_os_started: "started free_os"
  by (simp add: started_def free_os_def)

interpretation authz_mesh: spire_mesh plain_proxy plain_dispatch "ext_authz_demo free_os plain_dispatch addresses"
    authz_web_listener authz_backend_listener authz_backend_egress authz_db_listener for addresses
  by (rule ext_authz_mesh [OF plain_envoy.envoy_proxy_axioms plain.chi_router_axioms free_os_started])

interpretation example_mesh: spire_mesh plain_proxy plain_dispatch "spire_example_demo free_os plain_dispatch addresses"
    example_web_listener example_backend_listener example_backend_egress example_db_listener for addresses
  by (rule spire_example_mesh [OF plain_envoy.envoy_proxy_axioms plain.chi_router_axioms free_os_started])

lemma get_request_is_get [simp]: "is_get (get_request path) path"
  by (simp add: is_get_def get_request_def)

text \<open>What the policies permit.\<close>

lemma authz_gates:
  fixes os dispatch addresses
  defines "D \<equiv> ext_authz_demo os dispatch addresses"
  assumes "envoy_proxy P"
  shows "gate P D authz_web_listener p path \<longleftrightarrow>
      path \<in> set allowed_paths \<and> cidr_contains web_subnet (peer_address p)
      \<or> peer_address p = localhost \<and> path \<in> set allowed_local_paths"
    and "gate P D authz_backend_listener p ''/good/backend'' \<longleftrightarrow> certificate p = Some web_id"
    and "gate P D authz_backend_egress p ''/good/db'' \<longleftrightarrow> peer_address p = localhost"
    and "gate P D authz_db_listener p ''/good/db'' \<longleftrightarrow> certificate p = Some backend_id"
  using caller_identity [OF assms(2), of authz_db_listener db_id backend_id p "get_request ''/good/db''"]
    caller_identity [OF assms(2), of authz_backend_listener backend_id web_id p "get_request ''/good/backend''"]
  by (auto simp: D_def gate_def permitted_def ext_authz_demo_def opa_def web_allow_def backend_allow_def db_allow_def
    rego_input_of_def get_request_def authz_web_listener_def authz_backend_listener_def authz_backend_egress_def authz_db_listener_def)

lemma example_gates:
  "gate P (spire_example_demo os dispatch addresses) example_web_listener p path"
  "gate P (spire_example_demo os dispatch addresses) example_backend_listener p path"
  "gate P (spire_example_demo os dispatch addresses) example_backend_egress p path"
  "gate P (spire_example_demo os dispatch addresses) example_db_listener p path"
  by (simp_all add: gate_def permitted_def example_web_listener_def example_backend_listener_def example_backend_egress_def
    example_db_listener_def)

text \<open>C9: \<^verbatim>\<open>envoy-spire-ext-authz\<close> as deployed. To a client in the subnet, with whatever certificate, the good
  path answers with the text of the whole chain and the bad path with 403 and \<open>Forbidden path\<close>; a client
  elsewhere gets 403 for every page. The ways to the backend and the database that the web server's
  Envoy keeps for its own host are closed with 403 to every other.\<close>

theorem ext_authz_demo_answers:
  fixes os dispatch addresses n P a c
  defines "D \<equiv> ext_authz_demo os dispatch addresses" and "p \<equiv> \<lparr>peer_address = a, certificate = c\<rparr>"
  assumes "envoy_proxy P" and "chi_router dispatch" and "started os"
  shows "(if cidr_contains web_subnet a
      then ask n P D ''web'' p ''/hello'' = Some (200, ''Hello from the web service !'' @ [CHR 0x0A])
         \<and> ask n P D ''web'' p ''/the/good/path'' = Some (200, ''Allowed path: WEB -> BACKEND -> DB'' @ [CHR 0x0A])
         \<and> ask n P D ''web'' p ''/the/bad/path'' = Some (403, ''Forbidden path: WEB -> DB'' @ [CHR 0x0A])
      else list_all (\<lambda>path. map_option fst (ask n P D ''web'' p path) = Some 403) allowed_paths)
    \<and> list_all (\<lambda>path. a = localhost \<or> map_option fst (ask n P D ''web'' p path) = Some 403) allowed_local_paths"
proof -
  note mesh = ext_authz_mesh [OF assms(3,4,5), of addresses, folded D_def]
  note gates = authz_gates [OF assms(3), of os dispatch addresses, folded D_def]
  have local: "\<not> cidr_contains web_subnet localhost"
    by (simp add: cidr_contains_def web_subnet_def localhost_def ip_def)
  have hops: "n + demo_hops = Suc (Suc (Suc (Suc (Suc n))))" by (simp add: demo_hops_def)
  have closed: "map_option fst (ask n P D ''web'' p path) = Some 403" if shut: "\<not> gate P D authz_web_listener p path" for path
  proof -
    obtain resp where "fetch (Suc (Suc (Suc (Suc (Suc n))))) P D ''web'' ''8001'' p (get_request path) = Inr resp" "StatusCode resp = 403"
      using spire_mesh.fetch_denied [OF mesh get_request_is_get spire_mesh.ports(1) [OF mesh] spire_mesh.admitted_simps(1) [OF mesh] shut]
      by blast
    then show ?thesis by (simp add: ask_def hops)
  qed
  show ?thesis
  proof (intro conjI)
    show "list_all (\<lambda>path. a = localhost \<or> map_option fst (ask n P D ''web'' p path) = Some 403) allowed_local_paths"
      using closed [of "''/good/backend''"] closed [of "''/good/db''"]
      by (auto simp: allowed_local_paths_def allowed_paths_def gates p_def)
    show "if cidr_contains web_subnet a
      then ask n P D ''web'' p ''/hello'' = Some (200, ''Hello from the web service !'' @ [CHR 0x0A])
         \<and> ask n P D ''web'' p ''/the/good/path'' = Some (200, ''Allowed path: WEB -> BACKEND -> DB'' @ [CHR 0x0A])
         \<and> ask n P D ''web'' p ''/the/bad/path'' = Some (403, ''Forbidden path: WEB -> DB'' @ [CHR 0x0A])
      else list_all (\<lambda>path. map_option fst (ask n P D ''web'' p path) = Some 403) allowed_paths"
    proof (cases "cidr_contains web_subnet a")
      case True
      have pages: "gate P D authz_web_listener p path" if "path \<in> set allowed_paths" for path
        using that True by (simp add: gates p_def)
      have own: "gate P D authz_web_listener local_peer ''/good/backend''" "gate P D authz_web_listener local_peer ''/good/db''"
        by (simp_all add: gates local_peer_def allowed_local_paths_def)
      have "ask n P D ''web'' p ''/hello'' = Some (200, ''Hello from the web service !'' @ [CHR 0x0A])"
        using spire_mesh.hello_page [OF mesh get_request_is_get pages] by (simp add: ask_def hops text_reply_def allowed_paths_def)
      moreover have "ask n P D ''web'' p ''/the/good/path'' = Some (200, ''Allowed path: WEB -> BACKEND -> DB'' @ [CHR 0x0A])"
        using spire_mesh.good_page [OF mesh get_request_is_get pages own(1)]
        by (simp add: ask_def hops text_reply_def allowed_paths_def gates local_peer_def)
      moreover have "ask n P D ''web'' p ''/the/bad/path'' = Some (403, ''Forbidden path: WEB -> DB'' @ [CHR 0x0A])"
        using spire_mesh.bad_page(2) [OF mesh get_request_is_get pages own(2)]
        by (simp add: ask_def hops text_reply_def allowed_paths_def gates)
      ultimately show ?thesis using True by simp
    next
      case False
      then show ?thesis
        using closed [of "''/hello''"] closed [of "''/the/good/path''"] closed [of "''/the/bad/path''"]
        by (auto simp: gates p_def allowed_paths_def allowed_local_paths_def)
    qed
  qed
qed

theorem ext_authz_demo_answers_witness:
  "list_all (\<lambda>path. map_option fst (ask 0 plain_proxy (ext_authz_demo free_os plain_dispatch (\<lambda>_. 0)) ''web''
      \<lparr>peer_address = ip 192 28 1 1, certificate = None\<rparr> path) = Some 403) allowed_paths
   \<and> ask 0 plain_proxy (ext_authz_demo free_os plain_dispatch (\<lambda>_. 0)) ''web''
      \<lparr>peer_address = ip 172 28 1 1, certificate = None\<rparr> ''/the/bad/path'' = Some (403, ''Forbidden path: WEB -> DB'' @ [CHR 0x0A])"
proof -
  have "\<not> cidr_contains web_subnet (ip 192 28 1 1)" "cidr_contains web_subnet (ip 172 28 1 1)"
    by (simp_all add: cidr_contains_def web_subnet_def ip_def)
  then show ?thesis
    using ext_authz_demo_answers [OF plain_envoy.envoy_proxy_axioms plain.chi_router_axioms free_os_started,
        of "ip 192 28 1 1" 0 "\<lambda>_. 0" None]
      ext_authz_demo_answers [OF plain_envoy.envoy_proxy_axioms plain.chi_router_axioms free_os_started,
        of "ip 172 28 1 1" 0 "\<lambda>_. 0" None]
    by (simp only: if_True if_False simp_thms)
qed

text \<open>C14: \<^verbatim>\<open>spire-example\<close> as deployed, asked by anyone: the good path answers as in the other demo, and so does
  the bad path, which is allowed, since the database's Envoy accepts every client; the web server's Envoy
  passes requests for the backend and the database on under its own name. The database is open to any
  certificate and to none; the backend refuses exactly the certificates of others.\<close>

theorem spire_example_answers:
  fixes os dispatch addresses n P a c
  defines "D \<equiv> spire_example_demo os dispatch addresses" and "p \<equiv> \<lparr>peer_address = a, certificate = c\<rparr>"
  assumes "envoy_proxy P" and "chi_router dispatch" and "started os"
  shows "ask n P D ''web'' p ''/hello'' = Some (200, ''Hello from the web service !'' @ [CHR 0x0A])
    \<and> ask n P D ''web'' p ''/the/good/path'' = Some (200, ''Allowed path: WEB -> BACKEND -> DB'' @ [CHR 0x0A])
    \<and> ask n P D ''web'' p ''/the/bad/path'' = Some (200, ''Allowed path: WEB -> DB'' @ [CHR 0x0A])
    \<and> ask n P D ''web'' p ''/good/backend'' = Some (200, ''BACKEND -> DB'')
    \<and> ask n P D ''web'' p ''/good/db'' = Some (200, ''DB'')
    \<and> ask n P D ''db'' p ''/good/db'' = Some (200, ''DB'')
    \<and> ask n P D ''backend'' p ''/good/backend'' = (if c \<in> {None, Some web_id} then Some (200, ''BACKEND -> DB'') else None)"
proof -
  note mesh = spire_example_mesh [OF assms(3,4,5), of addresses, folded D_def]
  note gates = example_gates [of P os dispatch addresses, folded D_def]
  note get = get_request_is_get
  have hops: "n + demo_hops = Suc (Suc (Suc (Suc (Suc n))))" by (simp add: demo_hops_def)
  have reply: "fetch (Suc (Suc (Suc (Suc (Suc n))))) P D host ''8001'' p (get_request path) = Inr (text_reply b) \<Longrightarrow>
      ask n P D host p path = Some (200, b)" for host path b
    by (simp add: ask_def hops text_reply_def)
  have "ask n P D ''web'' p ''/hello'' = Some (200, ''Hello from the web service !'' @ [CHR 0x0A])"
    by (rule reply spire_mesh.hello_page [OF mesh] get gates)+
  moreover have "ask n P D ''web'' p ''/the/good/path'' = Some (200, ''Allowed path: WEB -> BACKEND -> DB'' @ [CHR 0x0A])"
    by (rule reply spire_mesh.good_page [OF mesh] get gates)+
  moreover have "ask n P D ''web'' p ''/the/bad/path'' = Some (200, ''Allowed path: WEB -> DB'' @ [CHR 0x0A])"
    by (rule reply spire_mesh.bad_page(1) [OF mesh] get gates)+
  moreover have "ask n P D ''web'' p ''/good/backend'' = Some (200, ''BACKEND -> DB'')"
    by (rule reply spire_mesh.web_to_backend [OF mesh] get gates)+
  moreover have "ask n P D ''web'' p ''/good/db'' = Some (200, ''DB'')"
    by (rule reply spire_mesh.web_to_db(1) [OF mesh] get gates)+
  moreover have "ask n P D ''db'' p ''/good/db'' = Some (200, ''DB'')"
    by (rule reply spire_mesh.db_hop [OF mesh] get gates)+
  moreover have "ask n P D ''backend'' p ''/good/backend'' = (if c \<in> {None, Some web_id} then Some (200, ''BACKEND -> DB'') else None)"
  proof (cases "c \<in> {None, Some web_id}")
    case True
    then have "admitted example_backend_listener p" by (simp add: spire_mesh.admitted_simps(4) [OF mesh] p_def)
    then have "ask n P D ''backend'' p ''/good/backend'' = Some (200, ''BACKEND -> DB'')"
      by (intro reply spire_mesh.backend_hop [OF mesh] get gates)
    with True show ?thesis by simp
  next
    case False
    then have "\<not> admitted example_backend_listener p" by (simp add: spire_mesh.admitted_simps(4) [OF mesh] p_def)
    then have "decide P (policies D) example_backend_listener p (get_request ''/good/backend'') = Refused"
      by (rule envoy_proxy.refused [OF assms(3)])
    with False spire_mesh.ports(2) [OF mesh] show ?thesis by (simp add: ask_def hops fetch.simps(2))
  qed
  ultimately show ?thesis by blast
qed

theorem spire_example_answers_witness:
  "ask 0 plain_proxy (spire_example_demo free_os plain_dispatch (\<lambda>_. 0)) ''web'' \<lparr>peer_address = ip 10 0 0 1, certificate = None\<rparr>
     ''/the/bad/path'' = Some (200, ''Allowed path: WEB -> DB'' @ [CHR 0x0A])"
  using spire_example_answers [OF plain_envoy.envoy_proxy_axioms plain.chi_router_axioms free_os_started,
      of 0 "\<lambda>_. 0" "ip 10 0 0 1" None]
  by (simp only: simp_thms)

end
