(* ===== verification/Monitoring_Mesh.thy ===== *)
theory Monitoring_Mesh
  imports Service_Mains
begin

text \<open>
  The demo of \<^verbatim>\<open>istio/envoy/monitoring-and-tracing/monitoring\<close> as it is deployed: its three services,
  which are those of \<^verbatim>\<open>monitoring-and-accesslog\<close> byte for byte, behind the Envoys of
  \<^verbatim>\<open>*/envoy-config.yaml\<close>, two of which inject faults. What Envoy sends when it aborts a request or
  cannot reach its upstream is a parameter.
\<close>

section \<open>The programs\<close>

definition monitoring_a_handler :: "http_client \<Rightarrow> (string \<Rightarrow> string) \<Rightarrow> handler" where
  "monitoring_a_handler = service_a_handler"

definition monitoring_b_handler :: "(string \<Rightarrow> string) \<Rightarrow> handler" where
  "monitoring_b_handler = service_b_handler"

definition monitoring_c_handler :: "(string \<Rightarrow> string) \<Rightarrow> handler" where
  "monitoring_c_handler = service_c_handler"

definition monitoring_a_main :: "os \<Rightarrow> http_client \<Rightarrow> (string \<Rightarrow> string) \<Rightarrow> program_end" where
  "monitoring_a_main os client format = serve_all os '':8081'' (monitoring_a_handler client format)"

definition monitoring_b_main :: "os \<Rightarrow> (string \<Rightarrow> string) \<Rightarrow> program_end" where
  "monitoring_b_main os format = serve_all os '':8082'' (monitoring_b_handler format)"

definition monitoring_c_main :: "os \<Rightarrow> (string \<Rightarrow> string) \<Rightarrow> program_end" where
  "monitoring_c_main os format = serve_all os '':8083'' (monitoring_c_handler format)"

section \<open>The Envoys\<close>

text \<open>A listener sends every path to one cluster; a fault strikes some of the requests.\<close>

datatype fault = No_Fault | Abort int | Delay nat

fun aborts :: "fault \<Rightarrow> bool \<Rightarrow> int option" where
  "aborts (Abort code) True = Some code"
| "aborts _ _ = None"

record hop =
  hop_port :: string
  hop_upstream :: "string \<times> string"
  hop_fault :: fault

definition front_hops :: "hop list" where
  "front_hops = [\<lparr>hop_port = ''80'', hop_upstream = (''service_a_envoy'', ''8786''), hop_fault = No_Fault\<rparr>]"

definition service_a_hops :: "hop list" where
  "service_a_hops = [\<lparr>hop_port = ''8786'', hop_upstream = (''service_a'', ''8081''), hop_fault = No_Fault\<rparr>,
     \<lparr>hop_port = ''8788'', hop_upstream = (''service_b_envoy'', ''8789''), hop_fault = No_Fault\<rparr>,
     \<lparr>hop_port = ''8791'', hop_upstream = (''service_c_envoy'', ''8790''), hop_fault = No_Fault\<rparr>]"

definition service_b_hops :: "hop list" where
  "service_b_hops = [\<lparr>hop_port = ''8789'', hop_upstream = (''service_b'', ''8082''), hop_fault = Abort 503\<rparr>]"

definition service_c_hops :: "hop list" where
  "service_c_hops = [\<lparr>hop_port = ''8790'', hop_upstream = (''service_c'', ''8083''), hop_fault = Delay 1\<rparr>]"

definition hops_of :: "string \<Rightarrow> hop list" where
  "hops_of host =
     (if host = ''front_envoy'' then front_hops else if host = ''service_a_envoy'' then service_a_hops
      else if host = ''service_b_envoy'' then service_b_hops else if host = ''service_c_envoy'' then service_c_hops else [])"

section \<open>Requests on their way\<close>

text \<open>Host, port and path of a URL.\<close>

definition parse_url :: "string \<Rightarrow> (string \<times> string \<times> string) option" where
  "parse_url url =
     (if take 7 url = ''http://''
      then let rest = drop 7 url; after = tl (dropWhile (\<lambda>c. c \<noteq> CHR '':'') rest)
           in Some (takeWhile (\<lambda>c. c \<noteq> CHR '':'') rest, takeWhile (\<lambda>c. c \<noteq> CHR ''/'') after, dropWhile (\<lambda>c. c \<noteq> CHR ''/'') after)
      else None)"

definition mesh_client :: "(string \<Rightarrow> string \<Rightarrow> http_request \<Rightarrow> string + http_response) \<Rightarrow> http_client" where
  "mesh_client send = \<lparr>NewRequest = (\<lambda>_ _. None), Do = (\<lambda>m url hs.
     case parse_url url of
       None \<Rightarrow> Inl ''no such host''
     | Some (host, port, path) \<Rightarrow> send host port \<lparr>Method = m, URLPath = path, RawQuery = [], RemoteAddr = '''', RequestHeader = hs\<rparr>)\<rparr>"

text \<open>What a host's program serves on a port, if it listens there; a program that panics closes the connection.\<close>

definition program_at :: "os \<Rightarrow> (string \<Rightarrow> string) \<Rightarrow> http_client \<Rightarrow> string \<Rightarrow> running option" where
  "program_at os format client host =
     (if host = ''service_a'' then ran (monitoring_a_main os client format)
      else if host = ''service_b'' then ran (monitoring_b_main os format)
      else if host = ''service_c'' then ran (monitoring_c_main os format) else None)"

definition answer_of :: "running option \<Rightarrow> string \<Rightarrow> http_request \<Rightarrow> string + http_response" where
  "answer_of s port r =
     (case s of
        None \<Rightarrow> Inl ''connection refused''
      | Some s \<Rightarrow> if address s = '':'' @ port
          then (case served s r fresh_exchange of (Return _, x) \<Rightarrow> Inr (answered_with r x) | (Panic _, x) \<Rightarrow> Inl ''EOF'')
          else Inl ''connection refused'')"

text \<open>
  A request to a port of a host, with fuel for the hosts that it may pass. An Envoy routes the paths that start
  with a slash. \<open>strikes host\<close> says whether
  the fault of a host's Envoy strikes; a delay changes nothing in the answer.
\<close>

primrec travel :: "nat \<Rightarrow> os \<Rightarrow> (string \<Rightarrow> string) \<Rightarrow> (int \<Rightarrow> http_response) \<Rightarrow> (string \<Rightarrow> bool) \<Rightarrow> string \<Rightarrow> string \<Rightarrow> http_request
    \<Rightarrow> string + http_response" where
  "travel 0 os format reply strikes host port r = Inl ''timeout''"
| "travel (Suc n) os format reply strikes host port r =
     (if hops_of host = [] then
        answer_of (program_at os format (mesh_client (travel n os format reply strikes)) host) port r
      else
        (case find (\<lambda>h. hop_port h = port) (hops_of host) of
           None \<Rightarrow> Inl ''connection refused''
         | Some h \<Rightarrow>
             (case aborts (hop_fault h) (strikes host) of
                Some code \<Rightarrow> Inr (reply code)
              | None \<Rightarrow>
                  if rooted (URLPath r)
                  then (case travel n os format reply strikes (fst (hop_upstream h)) (snd (hop_upstream h)) r of
                     Inl _ \<Rightarrow> Inr (reply 503)
                   | Inr resp \<Rightarrow> Inr resp)
                  else Inr (reply 404))))"

declare travel.simps(2) [simp del]

lemma travel_envoy:
  "hops_of host = hs \<Longrightarrow> hs \<noteq> [] \<Longrightarrow>
     find (\<lambda>h. hop_port h = port) hs = Some \<lparr>hop_port = port, hop_upstream = (host', port'), hop_fault = ft\<rparr> \<Longrightarrow>
     travel (Suc n) os format reply strikes host port r =
       (case aborts ft (strikes host) of
          Some code \<Rightarrow> Inr (reply code)
        | None \<Rightarrow> if rooted (URLPath r)
            then (case travel n os format reply strikes host' port' r of Inl _ \<Rightarrow> Inr (reply 503) | Inr resp \<Rightarrow> Inr resp)
            else Inr (reply 404))"
  by (simp add: travel.simps(2) split: option.split)

lemma travel_program:
  "hops_of host = [] \<Longrightarrow> travel (Suc n) os format reply strikes host port r
     = answer_of (program_at os format (mesh_client (travel n os format reply strikes)) host) port r"
  by (simp add: travel.simps(2))

definition page :: "string \<Rightarrow> http_response" where
  "page b = \<lparr>StatusCode = 200, ResponseHeader = fmempty, Body = [b]\<rparr>"

definition free_ports :: "os \<Rightarrow> bool" where
  "free_ports os \<longleftrightarrow> Listen os '':8081'' = None \<and> Listen os '':8082'' = None \<and> Listen os '':8083'' = None"

lemma finish_page: "b \<noteq> [] \<Longrightarrow> finish (Write b fresh_exchange) = page b"
  by (simp add: exchange_defs page_def)

lemma service_b_hop:
  assumes "\<And>s. CHR ''%'' \<notin> set s \<Longrightarrow> format s = s" and "free_ports os"
    and "Method r = ''GET''" and "URLPath r = ''/''"
  shows "travel (Suc (Suc n)) os format reply strikes ''service_b_envoy'' ''8789'' r
    = Inr (if strikes ''service_b_envoy'' then reply 503 else page (''Hello from service B.'' @ [CHR 0x0A]))"
proof -
  have "travel (Suc n) os format reply strikes ''service_b'' ''8082'' r = Inr (page (''Hello from service B.'' @ [CHR 0x0A]))"
    using assms
    by (simp add: travel_program hops_of_def program_at_def answer_of_def monitoring_b_main_def monitoring_b_handler_def
      serve_all_def free_ports_def default_mux_def answered_with_def service_b_handler_def finish_page)
  moreover have "rooted (URLPath r)" by (simp add: assms(4) rooted_def)
  ultimately show ?thesis
    by (cases "strikes ''service_b_envoy''") (simp_all add: travel_envoy [of _ service_b_hops] hops_of_def service_b_hops_def)
qed

lemma service_c_hop:
  assumes "\<And>s. CHR ''%'' \<notin> set s \<Longrightarrow> format s = s" and "free_ports os"
    and "Method r = ''GET''" and "URLPath r = ''/''"
  shows "travel (Suc (Suc n)) os format reply strikes ''service_c_envoy'' ''8790'' r
    = Inr (page (''Hello from service C.'' @ [CHR 0x0A]))"
proof -
  have "travel (Suc n) os format reply strikes ''service_c'' ''8083'' r = Inr (page (''Hello from service C.'' @ [CHR 0x0A]))"
    using assms
    by (simp add: travel_program hops_of_def program_at_def answer_of_def monitoring_c_main_def monitoring_c_handler_def
      serve_all_def free_ports_def default_mux_def answered_with_def service_c_handler_def finish_page)
  moreover have "rooted (URLPath r)" by (simp add: assms(4) rooted_def)
  ultimately show ?thesis
    by (simp add: travel_envoy [of _ service_c_hops] hops_of_def service_c_hops_def)
qed

lemma service_a_calls:
  fixes n os format reply strikes
  defines "client \<equiv> mesh_client (travel (Suc (Suc (Suc n))) os format reply strikes)"
  assumes "\<And>s. CHR ''%'' \<notin> set s \<Longrightarrow> format s = s" and "free_ports os"
  shows "Do client ''GET'' ''http://service_a_envoy:8788/'' hs
      = Inr (if strikes ''service_b_envoy'' then reply 503 else page (''Hello from service B.'' @ [CHR 0x0A]))"
    and "Do client ''GET'' ''http://service_a_envoy:8791/'' hs = Inr (page (''Hello from service C.'' @ [CHR 0x0A]))"
    and "NewRequest client = (\<lambda>_ _. None)"
proof -
  have hops: "hops_of ''service_a_envoy'' = service_a_hops" by (simp add: hops_of_def)
  show "Do client ''GET'' ''http://service_a_envoy:8788/'' hs
      = Inr (if strikes ''service_b_envoy'' then reply 503 else page (''Hello from service B.'' @ [CHR 0x0A]))"
    using service_b_hop [OF assms(2,3)]
    by (simp add: client_def mesh_client_def parse_url_def rooted_def travel_envoy [OF hops] service_a_hops_def)
  show "Do client ''GET'' ''http://service_a_envoy:8791/'' hs = Inr (page (''Hello from service C.'' @ [CHR 0x0A]))"
    using service_c_hop [OF assms(2,3)]
    by (simp add: client_def mesh_client_def parse_url_def rooted_def travel_envoy [OF hops] service_a_hops_def)
  show "NewRequest client = (\<lambda>_ _. None)" by (simp add: client_def mesh_client_def)
qed

section \<open>The property\<close>

text \<open>A path that means the same with and without percent escapes: it starts with a slash and has no other characters than these.\<close>

definition plain_path :: "string \<Rightarrow> bool" where
  "plain_path p \<longleftrightarrow> rooted p \<and> list_all (\<lambda>c. 48 \<le> (of_char c :: nat) \<and> (of_char c :: nat) \<le> 57
     \<or> 65 \<le> (of_char c :: nat) \<and> (of_char c :: nat) \<le> 90 \<or> 97 \<le> (of_char c :: nat) \<and> (of_char c :: nat) \<le> 122
     \<or> c \<in> set ''-._~/'') p"

text \<open>Service A's page, with what the Envoy of B makes of B's part.\<close>

definition a_page :: "(int \<Rightarrow> http_response) \<Rightarrow> bool \<Rightarrow> string" where
  "a_page reply struck = ''Calling Service B: ''
     @ (if struck then concat (Body (reply 503)) else ''Hello from service B.'' @ [CHR 0x0A])
     @ ''Hello from service A.'' @ [CHR 0x0A] @ ''Hello from service C.'' @ [CHR 0x0A]"

lemma front_to_service_a:
  assumes "plain_path (URLPath r)"
    and "travel (Suc n) os format reply strikes ''service_a'' ''8081'' r = Inr resp"
  shows "travel (Suc (Suc (Suc n))) os format reply strikes ''front_envoy'' ''80'' r = Inr resp"
proof -
  have hops: "hops_of ''service_a_envoy'' = service_a_hops" "hops_of ''front_envoy'' = front_hops"
    by (simp_all add: hops_of_def)
  show ?thesis
    using assms by (simp add: travel_envoy [OF hops(1)] travel_envoy [OF hops(2)] service_a_hops_def front_hops_def plain_path_def)
qed

lemma service_a_answer:
  assumes "\<And>s. CHR ''%'' \<notin> set s \<Longrightarrow> format s = s" and "CHR ''%'' \<notin> set (concat (Body (reply 503)))" and "free_ports os"
    and "Method r \<noteq> ''CONNECT''" and "plain_path (URLPath r)" and "cleanPath (URLPath r) = URLPath r"
  shows "travel (Suc (Suc (Suc (Suc n)))) os format reply strikes ''service_a'' ''8081'' r
    = Inr \<lparr>StatusCode = 200, ResponseHeader = fmempty,
        Body = (if Method r = ''HEAD'' then [] else [a_page reply (strikes ''service_b_envoy'')])\<rparr>"
proof -
  have hops: "hops_of ''service_a'' = []" by (simp add: hops_of_def)
  have path: "URLPath r \<noteq> ''*''" using assms(5) by (auto simp: plain_path_def)
  let ?client = "mesh_client (travel (Suc (Suc (Suc n))) os format reply strikes)"
  note calls = service_a_calls [OF assms(1,3), of n reply strikes]
  have handler: "service_a_handler ?client format r fresh_exchange
      = (Return (), Write (a_page reply (strikes ''service_b_envoy'')) fresh_exchange)"
    using calls assms(1,2) by (simp add: service_a_handler_def call_peer_def page_def Write_Write a_page_def)
  have "a_page reply (strikes ''service_b_envoy'') \<noteq> []" by (simp add: a_page_def)
  from finish_page [OF this] show ?thesis
    using assms(3,4,6) handler path
    by (simp add: travel_program hops program_at_def answer_of_def monitoring_a_main_def monitoring_a_handler_def serve_all_def
      free_ports_def default_mux_def answered_with_def page_def)
qed

lemma service_a_redirect:
  assumes "free_ports os" and "Method r \<noteq> ''CONNECT''" and "plain_path (URLPath r)" and "cleanPath (URLPath r) \<noteq> URLPath r"
  shows "\<exists>resp. travel (Suc n) os format reply strikes ''service_a'' ''8081'' r = Inr resp \<and> StatusCode resp = 301
    \<and> fmlookup (ResponseHeader resp) ''Location'' = Some (hexEscapeNonASCII (cleanPath (URLPath r) @ request_query r))"
proof -
  have hops: "hops_of ''service_a'' = []" by (simp add: hops_of_def)
  have path: "URLPath r \<noteq> ''*''" using assms(3) by (auto simp: plain_path_def)
  show ?thesis
    using assms(1,2,4) path
    by (simp add: travel_program hops program_at_def answer_of_def monitoring_a_main_def serve_all_def
      free_ports_def default_mux_def answered_with_def RedirectPermanently_def WriteHeader_def Header_Set_def Let_def exchange_defs)
qed

lemma plain_path_clean:
  assumes "plain_path p"
  shows "plain_path (cleanPath p)"
proof -
  have p: "rooted p" using assms by (simp add: plain_path_def)
  then have "CHR ''/'' \<in> set p" by (auto simp: rooted_def dest: hd_in_set)
  with p filepath_Clean_chars [of p] have "set (cleanPath p) \<subseteq> set p"
    by (auto simp: cleanPath_def rooted_def Let_def)
  moreover have "rooted (cleanPath p)" by (rule cleanPath_elements [of p]) (simp add: rooted_def)
  ultimately show ?thesis using assms by (auto simp: plain_path_def list_all_iff)
qed

text \<open>C36: What the front Envoy answers to a request for a path of plain characters, with any method but CONNECT.
  For a clean path it is service A's page with the texts of B and C, the body left out for HEAD. It is never
  an error: when the Envoy of B aborts the call with 503, the text of its error page stands where B's
  greeting would, under status 200; the delays of C's Envoy change nothing. For any other path it is the
  permanent redirect of Go's default mux to the clean path with the same query, and who follows it gets the page.\<close>

theorem monitoring_answer:
  fixes n os format reply strikes r
  assumes "\<And>s. CHR ''%'' \<notin> set s \<Longrightarrow> format s = s" and "CHR ''%'' \<notin> set (concat (Body (reply 503)))" and "free_ports os"
    and "Method r \<noteq> ''CONNECT''" and "plain_path (URLPath r)"
  defines "send \<equiv> travel (n + 6) os format reply strikes ''front_envoy'' ''80''"
  defines "answer \<equiv> Inr \<lparr>StatusCode = 200, ResponseHeader = fmempty, Body = (if Method r = ''HEAD'' then []
        else [''Calling Service B: ''
          @ (if strikes ''service_b_envoy'' then concat (Body (reply 503)) else ''Hello from service B.'' @ [CHR 0x0A])
          @ ''Hello from service A.'' @ [CHR 0x0A] @ ''Hello from service C.'' @ [CHR 0x0A]])\<rparr>"
  shows "if cleanPath (URLPath r) = URLPath r then send r = answer
    else send (r\<lparr>URLPath := cleanPath (URLPath r)\<rparr>) = answer
      \<and> (\<exists>resp. send r = Inr resp \<and> StatusCode resp = 301
          \<and> fmlookup (ResponseHeader resp) ''Location'' = Some (hexEscapeNonASCII (cleanPath (URLPath r) @ request_query r)))"
proof -
  have six: "n + 6 = Suc (Suc (Suc (Suc (Suc (Suc n)))))" by simp
  have answer: "answer = Inr \<lparr>StatusCode = 200, ResponseHeader = fmempty,
      Body = (if Method r = ''HEAD'' then [] else [a_page reply (strikes ''service_b_envoy'')])\<rparr>"
    by (simp add: answer_def a_page_def)
  have clean: "send r' = answer"
    if "Method r' = Method r" "plain_path (URLPath r')" "cleanPath (URLPath r') = URLPath r'" for r'
    using front_to_service_a [OF that(2) service_a_answer [where reply = reply and format = format, OF assms(1-3) _ that(2,3)]]
      assms(4) that(1)
    by (simp add: send_def answer six)
  show ?thesis
  proof (cases "cleanPath (URLPath r) = URLPath r")
    case True
    with clean [of r] assms(5) show ?thesis by simp
  next
    case False
    obtain resp where resp: "travel (Suc (Suc (Suc (Suc n)))) os format reply strikes ''service_a'' ''8081'' r = Inr resp" "StatusCode resp = 301"
        "fmlookup (ResponseHeader resp) ''Location'' = Some (hexEscapeNonASCII (cleanPath (URLPath r) @ request_query r))"
      using service_a_redirect [OF assms(3-5) False] by blast
    have "send r = Inr resp" using front_to_service_a [OF assms(5) resp(1)] by (simp add: send_def six)
    with False resp clean [of "r\<lparr>URLPath := cleanPath (URLPath r)\<rparr>"] plain_path_clean [OF assms(5)] show ?thesis by simp
  qed
qed

definition monitoring_get :: "string \<Rightarrow> http_request" where
  "monitoring_get path = \<lparr>Method = ''GET'', URLPath = path, RawQuery = ''q=1'', RemoteAddr = [], RequestHeader = []\<rparr>"

definition faulty_front :: "http_request \<Rightarrow> string + http_response" where
  "faulty_front = travel (0 + 6) \<lparr>OpenFile = (\<lambda>_. None), Listen = (\<lambda>_. None), Serve = (\<lambda>_. [])\<rparr> (\<lambda>s. s)
      (\<lambda>code. \<lparr>StatusCode = code, ResponseHeader = fmempty, Body = [''fault filter abort'']\<rparr>) (\<lambda>_. True) ''front_envoy'' ''80''"

theorem monitoring_answer_witness:
  "faulty_front (monitoring_get ''/'') = Inr (page (''Calling Service B: fault filter abortHello from service A.'' @ [CHR 0x0A]
      @ ''Hello from service C.'' @ [CHR 0x0A]))
   \<and> (case faulty_front (monitoring_get ''//a/../b'') of
        Inr resp \<Rightarrow> StatusCode resp = 301 \<and> fmlookup (ResponseHeader resp) ''Location'' = Some ''/b?q=1''
      | Inl _ \<Rightarrow> False)"
proof -
  let ?os = "\<lparr>OpenFile = (\<lambda>_. None), Listen = (\<lambda>_. None), Serve = (\<lambda>_. [])\<rparr> :: os"
  let ?reply = "\<lambda>code. \<lparr>StatusCode = code, ResponseHeader = fmempty, Body = [''fault filter abort'']\<rparr>"
  have os: "free_ports ?os" by (simp add: free_ports_def)
  have reply: "CHR ''%'' \<notin> set (concat (Body (?reply 503)))" by simp
  note answer = monitoring_answer [where format = "\<lambda>s. s" and reply = ?reply and n = 0 and strikes = "\<lambda>_. True", OF _ reply os, folded faulty_front_def]
  have clean: "cleanPath ''//a/../b'' = ''/b''" by (simp add: cleanPath_def filepath_Clean_def clean_step_def)
  have b: "hexEscapeNonASCII ''/b?q=1'' = ''/b?q=1''" by (simp add: hexEscapeNonASCII_def)
  show ?thesis
    using answer [of "monitoring_get ''/''"] answer [of "monitoring_get ''//a/../b''"]
    by (auto simp: monitoring_get_def plain_path_def rooted_def page_def clean b request_query_def)
qed

end
