(* ===== verification/Gencerts.thy ===== *)
theory Gencerts
  imports Proto_Wire
begin

text \<open>
  The certificate generator \<^verbatim>\<open>istio/envoy/security/envoy-spire-ext-authz/gencerts.go\<close> (the file of
  \<^verbatim>\<open>spire-example\<close> is a copy): it makes a root key and certificate and, for each name given on the
  command line, an agent's key and certificate, writes them as PEM files and prints fingerprints.
  The packages \<open>crypto\<close>, \<open>pem\<close> and \<open>ioutil\<close> work on keys, random numbers and files that no source of the
  repository describes: they are a record of parameters, with the contract \<open>crypto_files\<close>.
\<close>

section \<open>path/filepath\<close>

text \<open>
  \<open>filepath.Join\<close> on Unix: the elements that are not empty are joined with slashes, and the result is cleaned.
\<close>

definition filepath_Join :: "string list \<Rightarrow> string" where
  "filepath_Join es =
     (let es = filter (\<lambda>e. e \<noteq> []) es in if es = [] then [] else filepath_Clean (strings_Join es ''/''))"

lemma join_nonempty: "list_all plain_element es \<Longrightarrow> es \<noteq> [] \<Longrightarrow> strings_Join es ''/'' \<noteq> []"
  by (cases es; cases "tl es") (auto simp: plain_element_def)

lemma hd_join: "plain_element e \<Longrightarrow> hd (strings_Join (e # es) ''/'') = hd e"
  by (cases es) (auto simp: plain_element_def)

lemma filepath_Join_plain:
  assumes "list_all plain_element es" and "es \<noteq> []"
  shows "filepath_Join es = strings_Join es ''/''"
proof -
  have "filter (\<lambda>e. e \<noteq> []) es = es" using assms(1) by (auto simp: plain_element_def list_all_iff)
  moreover have "hd (strings_Join es ''/'') \<noteq> CHR ''/''"
    using assms by (cases es) (auto simp: hd_join plain_element_def dest: hd_in_set)
  ultimately show ?thesis
    using assms join_nonempty [OF assms]
    by (simp add: filepath_Join_def filepath_Clean_def split_slash_join clean_plain Let_def)
qed

text \<open>Joining to what a join gave is joining all.\<close>

lemma strings_Join_append:
  "es \<noteq> [] \<Longrightarrow> fs \<noteq> [] \<Longrightarrow> strings_Join (es @ fs) sep = strings_Join es sep @ sep @ strings_Join fs sep"
proof (induction es sep rule: strings_Join.induct)
  case (2 x sep)
  then show ?case by (cases fs) auto
qed auto

lemma filepath_Join_join:
  assumes "list_all plain_element (es @ [f])" and "es \<noteq> []"
  shows "filepath_Join [strings_Join es ''/'', f] = strings_Join (es @ [f]) ''/''"
proof -
  let ?p = "strings_Join (es @ [f]) ''/''"
  have es: "list_all plain_element es" "f \<noteq> []" using assms(1) by (auto simp: plain_element_def)
  have p: "strings_Join [strings_Join es ''/'', f] ''/'' = ?p" by (simp add: strings_Join_append [OF assms(2)])
  have "hd ?p \<noteq> CHR ''/''"
    using assms by (cases es) (auto simp: hd_join plain_element_def dest: hd_in_set)
  then show ?thesis
    using assms join_nonempty [OF es(1) assms(2)] es(2) join_nonempty [OF assms(1)]
    by (simp add: filepath_Join_def filepath_Clean_def p split_slash_join [OF assms(1)] clean_plain [OF assms(1)] Let_def
        del: strings_Join.simps list_all_append foldl_append)
qed

section \<open>Certificates\<close>

text \<open>The members of \<open>x509.Certificate\<close> that are set or read, for templates and parsed certificates alike.\<close>

type_synonym date = "nat \<times> nat \<times> nat \<times> nat \<times> nat \<times> nat"

record 'p Certificate =
  SerialNumber :: nat
  BasicConstraintsValid :: bool
  IsCA :: bool
  KeyUsage :: nat
  NotAfter :: date
  Subject_CommonName :: string
  Issuer_CommonName :: string
  PublicKey :: "'p option"
  Raw :: string

definition zero_Certificate :: "'p Certificate" where
  "zero_Certificate = \<lparr>SerialNumber = 0, BasicConstraintsValid = False, IsCA = False, KeyUsage = 0, NotAfter = (1, 1, 1, 0, 0, 0),
     Subject_CommonName = '''', Issuer_CommonName = '''', PublicKey = None, Raw = ''''\<rparr>"

definition neverExpires :: date where
  "neverExpires = (9999, 12, 31, 23, 59, 59)"

definition KeyUsageDigitalSignature :: nat where
  "KeyUsageDigitalSignature = 1"

text \<open>
  The libraries over keys \<open>'k\<close>, public keys \<open>'p\<close> and a world \<open>'w\<close> of random numbers and files; an error
  is \<open>Inl\<close> or \<open>Some\<close>.
\<close>

record ('k, 'p, 'w) libs =
  rsa_GenerateKey :: "nat \<Rightarrow> 'w \<Rightarrow> (string + 'k) \<times> 'w"
  Public :: "'k \<Rightarrow> 'p"
  x509_CreateCertificate :: "'p Certificate \<Rightarrow> 'p Certificate \<Rightarrow> 'p \<Rightarrow> 'k \<Rightarrow> 'w \<Rightarrow> (string + string) \<times> 'w"
  x509_ParseCertificate :: "string \<Rightarrow> string + 'p Certificate"
  x509_MarshalPKCS8PrivateKey :: "'k \<Rightarrow> string + string"
  pem_Encode :: "string \<Rightarrow> string \<Rightarrow> string"
  sha1_Sum :: "string \<Rightarrow> string"
  ioutil_WriteFile :: "string \<Rightarrow> string \<Rightarrow> nat \<Rightarrow> 'w \<Rightarrow> string option \<times> 'w"

section \<open>The program\<close>

definition checkErr :: "string option \<Rightarrow> unit outcome" where
  "checkErr err = (case err of None \<Rightarrow> Return () | Some e \<Rightarrow> Panic e)"

text \<open>A result that an error turns into a panic.\<close>

definition checked_result :: "string + 'a \<Rightarrow> 'a outcome" where
  "checked_result r = (case checkErr (case r of Inl e \<Rightarrow> Some e | Inr _ \<Rightarrow> None) of
     Panic e \<Rightarrow> Panic e | Return _ \<Rightarrow> Return (projr r))"

lemma checked_result_simps [simp]: "checked_result (Inl e) = Panic e" "checked_result (Inr v) = Return v"
  by (simp_all add: checked_result_def checkErr_def)

definition generateRSAKey :: "('k, 'p, 'w) libs \<Rightarrow> 'w \<Rightarrow> 'k outcome \<times> 'w" where
  "generateRSAKey L w = (let (r, w) = rsa_GenerateKey L 768 w in (checked_result r, w))"

definition createCertificate :: "('k, 'p, 'w) libs \<Rightarrow> 'k \<Rightarrow> 'p Certificate \<Rightarrow> 'k \<Rightarrow> 'p Certificate \<Rightarrow> 'w
    \<Rightarrow> 'p Certificate outcome \<times> 'w" where
  "createCertificate L key tmpl parentKey parent w =
     (let (certDER, w) = x509_CreateCertificate L tmpl parent (Public L key) parentKey w
      in case checked_result certDER of
           Panic e \<Rightarrow> (Panic e, w)
         | Return der \<Rightarrow> (checked_result (x509_ParseCertificate L der), w))"

definition createRootCertificate :: "('k, 'p, 'w) libs \<Rightarrow> 'k \<Rightarrow> 'p Certificate \<Rightarrow> 'w \<Rightarrow> 'p Certificate outcome \<times> 'w" where
  "createRootCertificate L key tmpl w = createCertificate L key tmpl key tmpl w"

definition writeKey :: "('k, 'p, 'w) libs \<Rightarrow> string \<Rightarrow> 'k \<Rightarrow> 'w \<Rightarrow> unit outcome \<times> 'w" where
  "writeKey L path key w =
     (case checked_result (x509_MarshalPKCS8PrivateKey L key) of
        Panic e \<Rightarrow> (Panic e, w)
      | Return keyBytes \<Rightarrow>
          (let pemBytes = pem_Encode L ''PRIVATE KEY'' keyBytes;
               (err, w) = ioutil_WriteFile L path pemBytes 0x180 w
           in (checkErr err, w)))"

definition writeCerts :: "('k, 'p, 'w) libs \<Rightarrow> string \<Rightarrow> 'p Certificate list \<Rightarrow> 'w \<Rightarrow> unit outcome \<times> 'w" where
  "writeCerts L path certs w =
     (let data = foldl (\<lambda>data cert. data @ pem_Encode L ''CERTIFICATE'' (Raw cert)) [] certs;
          (err, w) = ioutil_WriteFile L path data 0x1A4 w
      in (checkErr err, w))"

text \<open>One round of the loop over the names, and the loop: the lines printed come with the result.\<close>

definition gen_agent :: "('k, 'p, 'w) libs \<Rightarrow> 'k \<Rightarrow> 'p Certificate \<Rightarrow> string \<Rightarrow> 'w \<Rightarrow> string outcome \<times> 'w" where
  "gen_agent L caKey caCert name w =
     (case generateRSAKey L w of
        (Panic e, w) \<Rightarrow> (Panic e, w)
      | (Return agentKey, w) \<Rightarrow>
          (case createCertificate L agentKey (zero_Certificate\<lparr>SerialNumber := 1, KeyUsage := KeyUsageDigitalSignature,
                  NotAfter := neverExpires, Subject_CommonName := name @ '' agent''\<rparr>) caKey caCert w of
             (Panic e, w) \<Rightarrow> (Panic e, w)
           | (Return agentCert, w) \<Rightarrow>
               (let dir = filepath_Join [''docker'', name, ''conf''] in
                case writeKey L (filepath_Join [dir, ''agent.key.pem'']) agentKey w of
                  (Panic e, w) \<Rightarrow> (Panic e, w)
                | (Return _, w) \<Rightarrow>
                    (case writeCerts L (filepath_Join [dir, ''agent.crt.pem'']) [agentCert] w of
                       (Panic e, w) \<Rightarrow> (Panic e, w)
                     | (Return _, w) \<Rightarrow>
                         (let fingerprint = sha1_Sum L (Raw agentCert)
                          in (Return (hex_EncodeToString fingerprint @ '' '' @ name), w))))))"

fun gen_agents :: "('k, 'p, 'w) libs \<Rightarrow> 'k \<Rightarrow> 'p Certificate \<Rightarrow> string list \<Rightarrow> 'w \<Rightarrow> (unit outcome \<times> string list) \<times> 'w" where
  "gen_agents L caKey caCert [] w = ((Return (), []), w)"
| "gen_agents L caKey caCert (name # names) w =
     (case gen_agent L caKey caCert name w of
        (Panic e, w) \<Rightarrow> ((Panic e, []), w)
      | (Return line, w) \<Rightarrow> (let ((r, ls), w) = gen_agents L caKey caCert names w in ((r, line # ls), w)))"

datatype gen_exit = Usage | Ran "unit outcome" "string list"

text \<open>\<open>main\<close> on the arguments after the program's name; without any it prints its usage and exits with 1.\<close>

definition gencerts_main :: "('k, 'p, 'w) libs \<Rightarrow> string list \<Rightarrow> 'w \<Rightarrow> gen_exit \<times> 'w" where
  "gencerts_main L names w =
     (if names = [] then (Usage, w)
      else case generateRSAKey L w of
             (Panic e, w) \<Rightarrow> (Ran (Panic e) [], w)
           | (Return caKey, w) \<Rightarrow>
               (case createRootCertificate L caKey (zero_Certificate\<lparr>SerialNumber := 1, BasicConstraintsValid := True,
                       IsCA := True, NotAfter := neverExpires, Subject_CommonName := ''agent CA''\<rparr>) w of
                  (Panic e, w) \<Rightarrow> (Ran (Panic e) [], w)
                | (Return caCert, w) \<Rightarrow>
                    (case writeCerts L (filepath_Join [''docker'', ''spire-server'', ''conf'', ''agent-cacert.pem'']) [caCert] w of
                       (Panic e, w) \<Rightarrow> (Ran (Panic e) [], w)
                     | (Return _, w) \<Rightarrow>
                         (let ((r, ls), w) = gen_agents L caKey caCert names w in (Ran r ls, w)))))"

text \<open>A name need not be a plain element: the path is cleaned, and may lead out of its directory.\<close>

lemma dotdot_escapes: "filepath_Join [''docker'', ''..'', ''conf''] = ''conf''"
  by (simp add: filepath_Join_def filepath_Clean_def clean_step_def)

section \<open>The contract of the libraries\<close>

text \<open>
  Keys and certificates leave the files alone. A certificate that was created parses to its template
  with the issuer, the public key and the bytes filled in, and is signed by the signer's key. A file that
  was written has the new content, under the mode it had before or else the given one under the
  process's mask, and no other file has changed; \<open>files\<close> looks files up by their clean paths.
\<close>

locale crypto_files =
  fixes L :: "('k, 'p, 'w) libs"
    and files :: "'w \<Rightarrow> string \<Rightarrow> (string \<times> nat) option"
    and masked :: "nat \<Rightarrow> nat"
    and valid_for :: "'p Certificate \<Rightarrow> 'p \<Rightarrow> bool"
  assumes key_files: "rsa_GenerateKey L n w = (rk, w') \<Longrightarrow> files w' = files w"
    and certificate_files: "x509_CreateCertificate L tmpl parent pub key w = (rc, w') \<Longrightarrow> files w' = files w"
    and created: "x509_CreateCertificate L tmpl parent pub key w = (Inr der, w') \<Longrightarrow>
      \<exists>c. x509_ParseCertificate L der = Inr c \<and> valid_for c (Public L key)
        \<and> c = tmpl\<lparr>Issuer_CommonName := Subject_CommonName parent, PublicKey := Some pub, Raw := der\<rparr>"
    and written: "ioutil_WriteFile L path content mode w = (None, w') \<Longrightarrow> filepath_Clean path = path \<Longrightarrow>
      files w' = (files w)(path \<mapsto> (content, case files w path of Some (_, m) \<Rightarrow> m | None \<Rightarrow> masked mode))"
    and write_failed: "ioutil_WriteFile L path content mode w = (Some e, w') \<Longrightarrow> filepath_Clean path = path \<Longrightarrow>
      q \<noteq> path \<Longrightarrow> files w' q = files w q"

definition agent_file :: "string \<Rightarrow> string \<Rightarrow> string" where
  "agent_file name f = ''docker/'' @ name @ ''/conf/'' @ f"

lemma clean_join: "list_all plain_element es \<Longrightarrow> es \<noteq> [] \<Longrightarrow> filepath_Clean (strings_Join es ''/'') = strings_Join es ''/''"
proof -
  assume es: "list_all plain_element es" "es \<noteq> []"
  then have "filepath_Join [strings_Join es ''/''] = filepath_Clean (strings_Join es ''/'')"
    using join_nonempty by (simp add: filepath_Join_def)
  moreover have "hd (strings_Join es ''/'') \<noteq> CHR ''/''"
    using es by (cases es) (auto simp: hd_join plain_element_def dest: hd_in_set)
  ultimately show ?thesis
    using es join_nonempty [OF es] by (simp add: filepath_Clean_def split_slash_join clean_plain Let_def)
qed

lemma agent_paths:
  assumes "plain_element name" and "plain_element f"
  shows "filepath_Join [filepath_Join [''docker'', name, ''conf''], f] = agent_file name f"
    and "filepath_Clean (agent_file name f) = agent_file name f"
proof -
  have es: "list_all plain_element ([''docker'', name, ''conf''] @ [f])"
    using assms by (simp add: plain_element_def [of "''docker''"] plain_element_def [of "''conf''"])
  have dir: "filepath_Join [''docker'', name, ''conf''] = strings_Join [''docker'', name, ''conf''] ''/''"
    by (rule filepath_Join_plain) (use es in auto)
  have path: "agent_file name f = strings_Join ([''docker'', name, ''conf''] @ [f]) ''/''"
    by (simp add: agent_file_def)
  show "filepath_Join [filepath_Join [''docker'', name, ''conf''], f] = agent_file name f"
    unfolding dir path by (rule filepath_Join_join [OF es]) simp
  show "filepath_Clean (agent_file name f) = agent_file name f"
    unfolding path by (rule clean_join [OF es]) simp
qed

lemma agent_file_eq:
  "plain_element n \<Longrightarrow> plain_element n' \<Longrightarrow> agent_file n f = agent_file n' f' \<longleftrightarrow> n = n' \<and> f = f'"
proof
  assume plain: "plain_element n" "plain_element n'" and eq: "agent_file n f = agent_file n' f'"
  then have e: "n @ ''/'' @ (''conf/'' @ f) = n' @ ''/'' @ (''conf/'' @ f')" by (simp add: agent_file_def)
  have "split_slash (n @ CHR ''/'' # s) = n # split_slash s" if "plain_element n" for n s
    using split_slash_plain [of n "CHR ''/'' # s"] that by (simp add: plain_element_def)
  with plain have "n = n'" using arg_cong [OF e, of "\<lambda>s. hd (split_slash s)"] by simp
  with e show "n = n' \<and> f = f'" by simp
qed simp

lemma plain_files: "plain_element ''agent.key.pem''" "plain_element ''agent.crt.pem''" "plain_element ''agent-cacert.pem''"
  "plain_element ''spire-server''"
  by (simp_all add: plain_element_def)

text \<open>What is on disk for a name that is done: the key, a certificate for it by the root key, and the line printed.\<close>

definition kept_mode :: "(nat \<Rightarrow> nat) \<Rightarrow> (string \<times> nat) option \<Rightarrow> nat \<Rightarrow> nat" where
  "kept_mode masked old mode = (case old of Some (_, m) \<Rightarrow> m | None \<Rightarrow> masked mode)"

definition agent_done :: "('k, 'p, 'w) libs \<Rightarrow> ('w \<Rightarrow> string \<Rightarrow> (string \<times> nat) option) \<Rightarrow> (nat \<Rightarrow> nat)
    \<Rightarrow> ('p Certificate \<Rightarrow> 'p \<Rightarrow> bool) \<Rightarrow> 'k \<Rightarrow> 'w \<Rightarrow> 'w \<Rightarrow> string \<Rightarrow> string \<Rightarrow> bool" where
  "agent_done L files masked valid_for caKey w0 w name line \<longleftrightarrow>
     (\<exists>key keyBytes cert.
        x509_MarshalPKCS8PrivateKey L key = Inr keyBytes
        \<and> files w (agent_file name ''agent.key.pem'') = Some (pem_Encode L ''PRIVATE KEY'' keyBytes,
            kept_mode masked (files w0 (agent_file name ''agent.key.pem'')) 0x180)
        \<and> files w (agent_file name ''agent.crt.pem'') = Some (pem_Encode L ''CERTIFICATE'' (Raw cert),
            kept_mode masked (files w0 (agent_file name ''agent.crt.pem'')) 0x1A4)
        \<and> x509_ParseCertificate L (Raw cert) = Inr cert \<and> valid_for cert (Public L caKey)
        \<and> PublicKey cert = Some (Public L key) \<and> Subject_CommonName cert = name @ '' agent''
        \<and> Issuer_CommonName cert = ''agent CA'' \<and> SerialNumber cert = 1 \<and> \<not> IsCA cert
        \<and> line = hex_EncodeToString (sha1_Sum L (Raw cert)) @ '' '' @ name)"

context crypto_files
begin

lemma generate_files: "generateRSAKey L w = (r, w') \<Longrightarrow> files w' = files w"
  by (auto simp: generateRSAKey_def dest: key_files split: prod.splits)

lemma create_files: "createCertificate L key tmpl parentKey parent w = (r, w') \<Longrightarrow> files w' = files w"
  by (auto simp: createCertificate_def dest: certificate_files split: prod.splits outcome.splits)

lemma create_result:
  assumes "createCertificate L key tmpl parentKey parent w = (Return c, w')"
  shows "c = tmpl\<lparr>Issuer_CommonName := Subject_CommonName parent, PublicKey := Some (Public L key), Raw := Raw c\<rparr>"
    and "x509_ParseCertificate L (Raw c) = Inr c" and "valid_for c (Public L parentKey)"
proof -
  obtain der where der: "x509_CreateCertificate L tmpl parent (Public L key) parentKey w = (Inr der, w')"
    and c: "checked_result (x509_ParseCertificate L der) = Return c"
    using assms by (auto simp: createCertificate_def checked_result_def checkErr_def split: prod.splits outcome.splits sum.splits)
  from created [OF der] c
  show "c = tmpl\<lparr>Issuer_CommonName := Subject_CommonName parent, PublicKey := Some (Public L key), Raw := Raw c\<rparr>"
    and "x509_ParseCertificate L (Raw c) = Inr c" and "valid_for c (Public L parentKey)"
    by auto
qed

lemma writeKey_ok:
  assumes "writeKey L path key w = (Return u, w')" and "filepath_Clean path = path"
  shows "\<exists>keyBytes. x509_MarshalPKCS8PrivateKey L key = Inr keyBytes
    \<and> files w' = (files w)(path \<mapsto> (pem_Encode L ''PRIVATE KEY'' keyBytes, kept_mode masked (files w path) 0x180))"
  using assms
  by (auto simp: writeKey_def checkErr_def checked_result_def kept_mode_def split: prod.splits outcome.splits sum.splits option.splits
      dest!: written)

lemma writeCerts_ok:
  assumes "writeCerts L path [c] w = (Return u, w')" and "filepath_Clean path = path"
  shows "files w' = (files w)(path \<mapsto> (pem_Encode L ''CERTIFICATE'' (Raw c), kept_mode masked (files w path) 0x1A4))"
  using assms by (auto simp: writeCerts_def checkErr_def kept_mode_def split: prod.splits option.splits dest!: written)

lemma write_other:
  "ioutil_WriteFile L path content mode w = (e, w') \<Longrightarrow> filepath_Clean path = path \<Longrightarrow> q \<noteq> path \<Longrightarrow> files w' q = files w q"
  by (cases e) (auto dest: written write_failed)

lemma write_others:
  "writeKey L path key w = (r, w') \<Longrightarrow> filepath_Clean path = path \<Longrightarrow> q \<noteq> path \<Longrightarrow> files w' q = files w q"
  "writeCerts L path cs w = (r, w') \<Longrightarrow> filepath_Clean path = path \<Longrightarrow> q \<noteq> path \<Longrightarrow> files w' q = files w q"
  by (auto simp: writeKey_def writeCerts_def dest: write_other split: prod.splits outcome.splits)

lemma agent_others:
  assumes "gen_agent L caKey caCert name w = (r, w')" and "plain_element name"
    and "q \<noteq> agent_file name ''agent.key.pem''" and "q \<noteq> agent_file name ''agent.crt.pem''"
  shows "files w' q = files w q"
  using assms(1,3,4) agent_paths [OF assms(2) plain_files(1)] agent_paths [OF assms(2) plain_files(2)]
  by (auto simp: gen_agent_def Let_def split: prod.splits outcome.splits
      dest!: generate_files create_files write_others [where q = q])

lemma agent_ok:
  assumes "gen_agent L caKey caCert name w = (Return line, w')" and "plain_element name"
    and "Subject_CommonName caCert = ''agent CA''"
  shows "agent_done L files masked valid_for caKey w w' name line"
proof -
  let ?kp = "agent_file name ''agent.key.pem''" and ?cp = "agent_file name ''agent.crt.pem''"
  note paths = agent_paths [OF assms(2) plain_files(1)] agent_paths [OF assms(2) plain_files(2)]
  have neq: "?kp \<noteq> ?cp" using agent_file_eq [OF assms(2,2)] by simp
  obtain key w1 cert w2 u3 w3 u4 where w1: "generateRSAKey L w = (Return key, w1)"
    and w2: "createCertificate L key (zero_Certificate\<lparr>SerialNumber := 1, KeyUsage := KeyUsageDigitalSignature,
                  NotAfter := neverExpires, Subject_CommonName := name @ '' agent''\<rparr>) caKey caCert w1 = (Return cert, w2)"
    and w3: "writeKey L ?kp key w2 = (Return u3, w3)" and w4: "writeCerts L ?cp [cert] w3 = (Return u4, w')"
    and line: "line = hex_EncodeToString (sha1_Sum L (Raw cert)) @ '' '' @ name"
    using assms(1) by (auto simp: gen_agent_def Let_def paths split: prod.splits outcome.splits)
  have w: "files w2 = files w" using generate_files [OF w1] create_files [OF w2] by simp
  obtain keyBytes where key: "x509_MarshalPKCS8PrivateKey L key = Inr keyBytes"
    and f3: "files w3 = (files w)(?kp \<mapsto> (pem_Encode L ''PRIVATE KEY'' keyBytes, kept_mode masked (files w ?kp) 0x180))"
    using writeKey_ok [OF w3 paths(2)] w by auto
  have f4: "files w' = (files w3)(?cp \<mapsto> (pem_Encode L ''CERTIFICATE'' (Raw cert), kept_mode masked (files w ?cp) 0x1A4))"
    using writeCerts_ok [OF w4 paths(4)] f3 neq by simp
  have f: "files w' ?kp = Some (pem_Encode L ''PRIVATE KEY'' keyBytes, kept_mode masked (files w ?kp) 0x180)"
    "files w' ?cp = Some (pem_Encode L ''CERTIFICATE'' (Raw cert), kept_mode masked (files w ?cp) 0x1A4)"
    using f3 f4 neq by simp_all
  have c: "cert = zero_Certificate\<lparr>SerialNumber := 1, KeyUsage := KeyUsageDigitalSignature, NotAfter := neverExpires,
      Subject_CommonName := name @ '' agent'', Issuer_CommonName := ''agent CA'', PublicKey := Some (Public L key), Raw := Raw cert\<rparr>"
    using create_result(1) [OF w2] assms(3) by simp
  have fields: "PublicKey cert = Some (Public L key)" "Subject_CommonName cert = name @ '' agent''"
    "Issuer_CommonName cert = ''agent CA''" "SerialNumber cert = 1" "\<not> IsCA cert"
    by (subst c, simp add: zero_Certificate_def)+
  show ?thesis
    unfolding agent_done_def using key f create_result(2,3) [OF w2] fields line by blast
qed

lemma agents_ok:
  assumes "Subject_CommonName caCert = ''agent CA''"
  shows "gen_agents L caKey caCert names w = ((r, ls), w') \<Longrightarrow> distinct names \<Longrightarrow> list_all plain_element names \<Longrightarrow>
    list_all2 (agent_done L files masked valid_for caKey w w') (take (length ls) names) ls
    \<and> (r = Return () \<longleftrightarrow> length ls = length names) \<and> length ls \<le> length names
    \<and> (\<forall>q. q \<notin> (\<Union>n \<in> set names. {agent_file n ''agent.key.pem'', agent_file n ''agent.crt.pem''}) \<longrightarrow> files w' q = files w q)"
proof (induction names arbitrary: w r ls)
  case (Cons name names)
  have plain: "plain_element name" "list_all plain_element names" using Cons.prems(3) by simp_all
  obtain rl w1 where one: "gen_agent L caKey caCert name w = (rl, w1)" by fastforce
  show ?case
  proof (cases rl)
    case (Panic e)
    then show ?thesis
      using Cons.prems(1) one agent_others [OF one plain(1)] by auto
  next
    case (Return line)
    with one Cons.prems(1) obtain ls2 where rest: "gen_agents L caKey caCert names w1 = ((r, ls2), w')" and ls: "ls = line # ls2"
      by (auto split: prod.splits)
    note IH = Cons.IH [OF rest _ plain(2)]
    have "distinct names" using Cons.prems(2) by simp
    note IH = IH [OF this]
    have sep: "agent_file n f \<noteq> agent_file name f'" "agent_file name f' \<noteq> agent_file n f" if "n \<in> set names" for n f f'
      using agent_file_eq [OF _ plain(1), of n f f'] that Cons.prems(2) plain(2) by (auto simp: list_all_iff)
    have same: "agent_done L files masked valid_for caKey w1 w' n l = agent_done L files masked valid_for caKey w w' n l"
      if "n \<in> set names" for n l
      using agent_others [OF one plain(1)] sep [OF that] by (simp add: agent_done_def)
    have "list_all2 (agent_done L files masked valid_for caKey w w') (take (length ls2) names) ls2"
      using IH same by (auto elim!: list.rel_mono_strong dest: in_set_takeD)
    moreover have "agent_done L files masked valid_for caKey w w' name line"
    proof -
      have "files w' (agent_file name f) = files w1 (agent_file name f)" for f
        using IH sep by blast
      with agent_ok [OF one [unfolded Return] plain(1) assms] show ?thesis by (simp add: agent_done_def)
    qed
    ultimately show ?thesis
      using IH agent_others [OF one plain(1)] by (auto simp: ls)
  qed
qed simp

end

section \<open>A small library\<close>

text \<open>
  Keys are numbers in sequence and their own public keys; a certificate is a protobuf message that
  names its signer. It refuses what its format has no room for.
\<close>

record small_world =
  next_key :: nat
  disk :: "string \<Rightarrow> (string \<times> nat) option"

definition small_certificate :: "nat Certificate \<Rightarrow> nat Certificate \<Rightarrow> nat \<Rightarrow> nat \<Rightarrow> field list" where
  "small_certificate tmpl parent pub signer =
     [(1, Varint (word_of_nat (SerialNumber tmpl))), (2, Varint (of_bool (BasicConstraintsValid tmpl))),
      (3, Varint (of_bool (IsCA tmpl))), (4, Varint (word_of_nat (KeyUsage tmpl))),
      (5, Bytes (Subject_CommonName tmpl)), (6, Bytes (Subject_CommonName parent)),
      (7, Varint (word_of_nat pub)), (8, Varint (word_of_nat signer))]"

definition small_parse :: "string \<Rightarrow> string + nat Certificate" where
  "small_parse der =
     (case parse_fields der of
        Some [(_, Varint s), (_, Varint b), (_, Varint ca), (_, Varint ku), (_, Bytes subj), (_, Bytes iss), (_, Varint p), _] \<Rightarrow>
          Inr \<lparr>SerialNumber = unat s, BasicConstraintsValid = (b = 1), IsCA = (ca = 1), KeyUsage = unat ku, NotAfter = neverExpires,
            Subject_CommonName = subj, Issuer_CommonName = iss, PublicKey = Some (unat p), Raw = der\<rparr>
      | _ \<Rightarrow> Inl ''malformed certificate'')"

definition small_signed :: "nat Certificate \<Rightarrow> nat \<Rightarrow> bool" where
  "small_signed c p \<longleftrightarrow> (case parse_fields (Raw c) of Some fs \<Rightarrow> (8, Varint (word_of_nat p)) \<in> set fs | None \<Rightarrow> False)"

definition small_write :: "string \<Rightarrow> string \<Rightarrow> nat \<Rightarrow> small_world \<Rightarrow> small_world" where
  "small_write p d m w = w\<lparr>disk := (disk w)(p \<mapsto> (d, case disk w p of Some (_, m) \<Rightarrow> m | None \<Rightarrow> m))\<rparr>"

definition small_libs :: "(nat, nat, small_world) libs" where
  "small_libs = \<lparr>
     rsa_GenerateKey = (\<lambda>_ w. (Inr (next_key w), w\<lparr>next_key := Suc (next_key w)\<rparr>)),
     Public = (\<lambda>k. k),
     x509_CreateCertificate = (\<lambda>tmpl parent pub key w.
       if SerialNumber tmpl < 2 ^ 64 \<and> KeyUsage tmpl < 2 ^ 64 \<and> NotAfter tmpl = neverExpires \<and> pub < 2 ^ 64
          \<and> length (encode_fields (small_certificate tmpl parent pub key)) < 2 ^ 64
       then (Inr (encode_fields (small_certificate tmpl parent pub key)), w)
       else (Inl ''template out of range'', w)),
     x509_ParseCertificate = small_parse,
     x509_MarshalPKCS8PrivateKey = (\<lambda>k. Inr (varint k)),
     pem_Encode = (\<lambda>t b. ''-----BEGIN '' @ t @ ''-----'' @ b),
     sha1_Sum = fnv128a_Sum,
     ioutil_WriteFile = (\<lambda>p d m w. (None, small_write p d m w))\<rparr>"

lemma small_certificate_parse:
  "length (encode_fields (small_certificate tmpl parent pub key)) < 2 ^ 64 \<Longrightarrow>
     parse_fields (encode_fields (small_certificate tmpl parent pub key)) = Some (small_certificate tmpl parent pub key)"
  by (rule parse_small) (simp_all add: small_certificate_def field_number_ok_def)

interpretation small: crypto_files small_libs disk "\<lambda>m. m" small_signed
proof (unfold_locales, goal_cases)
  case (3 tmpl parent pub key w der w')
  then have der: "der = encode_fields (small_certificate tmpl parent pub key)"
    and ranges: "SerialNumber tmpl < 2 ^ 64" "KeyUsage tmpl < 2 ^ 64" "NotAfter tmpl = neverExpires" "pub < 2 ^ 64"
    and parse: "parse_fields der = Some (small_certificate tmpl parent pub key)"
    by (auto simp: small_libs_def small_certificate_parse split: if_splits)
  show ?case
    using ranges parse
    by (cases tmpl) (simp add: small_libs_def small_parse_def small_signed_def small_certificate_def unat_of_nat)
qed (auto simp: small_libs_def small_write_def split: if_splits)

section \<open>Properties\<close>

text \<open>C19: What \<open>gencerts\<close> leaves behind, whether it ends or panics on the way, for distinct names that are plain
  path elements: there is one root key, whose self-signed CA certificate is in \<open>agent-cacert.pem\<close> as soon as
  any line is printed; the lines printed belong to the first names, in order, and each of these names has on
  disk its private key and a certificate for that key's public part, signed by the root, with the fingerprint
  that its line shows. The run ended without a panic exactly if every name has its line. All certificates,
  the root's included, have the issuer \<open>agent CA\<close> and the serial number 1.\<close>

theorem gencerts_output:
  assumes "crypto_files L files masked valid_for" and "distinct names" and "list_all plain_element names"
    and "gencerts_main L names w = (Ran r ls, w')" and "ls \<noteq> []"
  shows "\<exists>caKey caCert.
      files w' (agent_file ''spire-server'' ''agent-cacert.pem'') = Some (pem_Encode L ''CERTIFICATE'' (Raw caCert),
        kept_mode masked (files w (agent_file ''spire-server'' ''agent-cacert.pem'')) 0x1A4)
      \<and> x509_ParseCertificate L (Raw caCert) = Inr caCert \<and> valid_for caCert (Public L caKey) \<and> IsCA caCert
      \<and> PublicKey caCert = Some (Public L caKey) \<and> SerialNumber caCert = 1 \<and> Issuer_CommonName caCert = ''agent CA''
      \<and> list_all2 (agent_done L files masked valid_for caKey w w') (take (length ls) names) ls
      \<and> (r = Return () \<longleftrightarrow> length ls = length names)"
proof -
  let ?ca = "agent_file ''spire-server'' ''agent-cacert.pem''"
  note lib = assms(1)
  have path: "filepath_Join [''docker'', ''spire-server'', ''conf'', ''agent-cacert.pem''] = ?ca"
    using filepath_Join_plain [of "[''docker'', ''spire-server'', ''conf'', ''agent-cacert.pem'']"]
    by (simp add: plain_element_def agent_file_def)
  have clean: "filepath_Clean ?ca = ?ca" by (rule agent_paths(2) [OF plain_files(4,3)])
  obtain caKey w1 caCert w2 u w3 where w1: "generateRSAKey L w = (Return caKey, w1)"
    and w2: "createCertificate L caKey (zero_Certificate\<lparr>SerialNumber := 1, BasicConstraintsValid := True, IsCA := True,
        NotAfter := neverExpires, Subject_CommonName := ''agent CA''\<rparr>) caKey
        (zero_Certificate\<lparr>SerialNumber := 1, BasicConstraintsValid := True, IsCA := True,
        NotAfter := neverExpires, Subject_CommonName := ''agent CA''\<rparr>) w1 = (Return caCert, w2)"
    and w3: "writeCerts L ?ca [caCert] w2 = (Return u, w3)"
    and run: "gen_agents L caKey caCert names w3 = ((r, ls), w')"
    using assms(4,5) by (auto simp: gencerts_main_def createRootCertificate_def path split: if_splits prod.splits outcome.splits)
  have files: "files w2 = files w"
    using crypto_files.generate_files [OF lib w1] crypto_files.create_files [OF lib w2] by simp
  have f3: "files w3 = (files w)(?ca \<mapsto> (pem_Encode L ''CERTIFICATE'' (Raw caCert), kept_mode masked (files w ?ca) 0x1A4))"
    using crypto_files.writeCerts_ok [OF lib w3 clean] files by simp
  have c: "caCert = zero_Certificate\<lparr>SerialNumber := 1, BasicConstraintsValid := True, IsCA := True, NotAfter := neverExpires,
      Subject_CommonName := ''agent CA'', Issuer_CommonName := ''agent CA'', PublicKey := Some (Public L caKey), Raw := Raw caCert\<rparr>"
    using crypto_files.create_result(1) [OF lib w2] by simp
  have fields: "IsCA caCert" "PublicKey caCert = Some (Public L caKey)" "SerialNumber caCert = 1"
    "Issuer_CommonName caCert = ''agent CA''" "Subject_CommonName caCert = ''agent CA''"
    by (subst c, simp add: zero_Certificate_def)+
  have ne: "?ca \<noteq> agent_file n f" if "plain_element n" "f \<in> {''agent.key.pem'', ''agent.crt.pem''}" for n f
    using agent_file_eq [OF plain_files(4) that(1)] that(2) by auto
  note agents = crypto_files.agents_ok [OF lib fields(5) run assms(2,3)]
  have "files w' ?ca = files w3 ?ca"
    using agents ne assms(3) by (auto simp: list_all_iff)
  moreover have "agent_done L files masked valid_for caKey w3 w' n l = agent_done L files masked valid_for caKey w w' n l"
    if "plain_element n" for n l
    using ne [OF that, of "''agent.key.pem''"] ne [OF that, of "''agent.crt.pem''"] by (simp add: agent_done_def f3)
  then have "list_all2 (agent_done L files masked valid_for caKey w w') (take (length ls) names) ls"
    using agents assms(3) by (auto simp: list_all_iff elim!: list.rel_mono_strong dest: in_set_takeD)
  ultimately show ?thesis
    using agents fields crypto_files.create_result(2,3) [OF lib w2] f3 by (intro exI [of _ caKey] exI [of _ caCert]) simp
qed

definition empty_disk :: small_world where
  "empty_disk = \<lparr>next_key = 0, disk = (\<lambda>_. None)\<rparr>"

lemma small_certificate_length:
  assumes "length (Subject_CommonName tmpl) < 2 ^ 64" and "length (Subject_CommonName parent) < 2 ^ 64"
  shows "length (encode_fields (small_certificate tmpl parent pub key)) \<le>
    160 + length (Subject_CommonName tmpl) + length (Subject_CommonName parent)"
proof -
  have v: "length (encode_field (n, Varint x)) \<le> 20" if "n < 100" for n x
    using length_varint [of "n * 8" 9] length_varint [of "unat x" 9] unat_less_2_64 [of x] that
    by (simp add: encode_field_def)
  have b: "length (encode_field (n, Bytes s)) \<le> 20 + length s" if "n < 100" "length s < 2 ^ 64" for n s
    using length_varint [of "n * 8 + 2" 9] length_varint [of "length s" 9] that
    by (simp add: encode_field_def)
  show ?thesis
    using v [of 1 "word_of_nat (SerialNumber tmpl)"] v [of 2 "of_bool (BasicConstraintsValid tmpl)"] v [of 3 "of_bool (IsCA tmpl)"]
      v [of 4 "word_of_nat (KeyUsage tmpl)"] b [of 5, OF _ assms(1)] b [of 6, OF _ assms(2)]
      v [of 7 "word_of_nat pub"] v [of 8 "word_of_nat key"]
    by (simp add: small_certificate_def)
qed

lemma small_create:
  assumes "SerialNumber tmpl < 2 ^ 64" "KeyUsage tmpl < 2 ^ 64" "NotAfter tmpl = neverExpires" "key < 2 ^ 64"
    and "length (Subject_CommonName tmpl) < 100" and "length (Subject_CommonName parent) < 100"
  shows "createCertificate small_libs key tmpl parentKey parent w =
    (Return (tmpl\<lparr>Issuer_CommonName := Subject_CommonName parent, PublicKey := Some key,
       Raw := encode_fields (small_certificate tmpl parent key parentKey)\<rparr>), w)"
proof -
  let ?der = "encode_fields (small_certificate tmpl parent key parentKey)"
  have "length ?der < 2 ^ 64"
    using small_certificate_length [of tmpl parent key parentKey] assms(5,6) by simp
  then have make: "x509_CreateCertificate small_libs tmpl parent (Public small_libs key) parentKey w = (Inr ?der, w)"
    using assms by (simp add: small_libs_def)
  have "Public small_libs key = key" by (simp add: small_libs_def)
  then show ?thesis
    using small.created [OF make] make by (auto simp: createCertificate_def)
qed

lemma small_steps:
  "rsa_GenerateKey small_libs n w = (Inr (next_key w), w\<lparr>next_key := Suc (next_key w)\<rparr>)"
  "x509_MarshalPKCS8PrivateKey small_libs k = Inr (varint k)"
  "ioutil_WriteFile small_libs p d m w = (None, small_write p d m w)"
  "next_key (small_write p d m w) = next_key w"
  by (simp_all add: small_libs_def small_write_def)

lemma small_key: "generateRSAKey small_libs w = (Return (next_key w), w\<lparr>next_key := Suc (next_key w)\<rparr>)"
  by (simp add: generateRSAKey_def small_steps)

lemma small_writeKey: "\<exists>d. writeKey small_libs p k w = (Return (), small_write p d 0x180 w)"
  by (simp add: writeKey_def small_steps checkErr_def Let_def) blast

lemma small_writeCerts: "\<exists>d. writeCerts small_libs p cs w = (Return (), small_write p d 0x1A4 w)"
  by (simp add: writeCerts_def small_steps checkErr_def Let_def) blast

lemma small_agent:
  assumes "next_key w < 2 ^ 64" and "length name < 90" and "length (Subject_CommonName caCert) < 100"
  shows "\<exists>line w'. gen_agent small_libs caKey caCert name w = (Return line, w')"
proof -
  obtain cert where cert: "createCertificate small_libs (next_key w) (zero_Certificate\<lparr>SerialNumber := 1,
      KeyUsage := KeyUsageDigitalSignature, NotAfter := neverExpires, Subject_CommonName := name @ '' agent''\<rparr>) caKey caCert
      (w\<lparr>next_key := Suc (next_key w)\<rparr>) = (Return cert, w\<lparr>next_key := Suc (next_key w)\<rparr>)"
    using assms by (simp add: small_create zero_Certificate_def KeyUsageDigitalSignature_def)
  obtain d where d: "writeKey small_libs p k w = (Return (), small_write p (d p k w) 0x180 w)" for p k w
    using small_writeKey by metis
  obtain e where e: "writeCerts small_libs p cs w = (Return (), small_write p (e p cs w) 0x1A4 w)" for p cs w
    using small_writeCerts by metis
  show ?thesis by (simp add: gen_agent_def small_key cert [simplified] d e Let_def)
qed

theorem gencerts_output_witness:
  "\<exists>line w' caKey caCert. gencerts_main small_libs [''web''] empty_disk = (Ran (Return ()) [line], w')
    \<and> small_signed caCert caKey \<and> IsCA caCert
    \<and> agent_done small_libs disk (\<lambda>m. m) small_signed caKey empty_disk w' ''web'' line"
proof -
  let ?tmpl = "zero_Certificate\<lparr>SerialNumber := 1, BasicConstraintsValid := True, IsCA := True,
    NotAfter := neverExpires, Subject_CommonName := ''agent CA''\<rparr>" and ?w = "empty_disk\<lparr>next_key := 1\<rparr>"
  have key: "generateRSAKey small_libs empty_disk = (Return 0, ?w)" by (simp add: small_key empty_disk_def)
  obtain ca where root: "createRootCertificate small_libs 0 ?tmpl ?w = (Return ca, ?w)" and ca: "Subject_CommonName ca = ''agent CA''"
    by (simp add: createRootCertificate_def small_create zero_Certificate_def)
  let ?path = "filepath_Join [''docker'', ''spire-server'', ''conf'', ''agent-cacert.pem'']"
  obtain d where put: "writeCerts small_libs ?path [ca] ?w = (Return (), small_write ?path d 0x1A4 ?w)"
    using small_writeCerts by blast
  have "next_key (small_write ?path d 0x1A4 ?w) < 2 ^ 64" by (simp add: small_steps)
  then obtain line w' where agent: "gen_agent small_libs 0 ca ''web'' (small_write ?path d 0x1A4 ?w) = (Return line, w')"
    using small_agent [of "small_write ?path d 0x1A4 ?w" "''web''" ca 0] ca by auto
  have run: "gencerts_main small_libs [''web''] empty_disk = (Ran (Return ()) [line], w')"
    using root put agent by (simp add: gencerts_main_def key)
  have "distinct [''web'']" "list_all plain_element [''web'']" by (simp_all add: plain_element_def)
  from gencerts_output [OF small.crypto_files_axioms this run list.distinct(2)] obtain caKey caCert where "small_signed caCert (Public small_libs caKey)" and "IsCA caCert"
    and "list_all2 (agent_done small_libs disk (\<lambda>m. m) small_signed caKey empty_disk w') (take (length [line]) [''web'']) [line]"
    by blast
  then have "small_signed caCert caKey \<and> IsCA caCert \<and> agent_done small_libs disk (\<lambda>m. m) small_signed caKey empty_disk w' ''web'' line"
    by (simp add: small_libs_def)
  with run show ?thesis by blast
qed

end
