(* ===== verification/Cobra_Cli.thy ===== *)
theory Cobra_Cli
  imports Go_Stdlib
begin

text \<open>
  The command-line tool \<^verbatim>\<open>dev/cobra\<close>: how flags, environment and configuration file are combined
  (\<^verbatim>\<open>cmd/time.go\<close> and \<^verbatim>\<open>backup/stringenv.go\<close>), the commands \<open>time\<close>, \<open>wget\<close> and \<open>ping\<close> and the hooks
  of the root command. The packages cobra, pflag and viper are not part of the repository: a flag
  set and a viper are records of parameters, and \<open>flag_set\<close> is the contract of the first.
\<close>

section \<open>Flags and configuration\<close>

record 'f flags =
  VisitAll :: "'f \<Rightarrow> string list"
  Changed :: "'f \<Rightarrow> string \<Rightarrow> bool"
  Value :: "'f \<Rightarrow> string \<Rightarrow> string"
  Set :: "string \<Rightarrow> string \<Rightarrow> 'f \<Rightarrow> string option \<times> 'f"

record viper =
  IsSet :: "string \<Rightarrow> bool"
  GetString :: "string \<Rightarrow> string"

definition defaultConfigFilename :: string where
  "defaultConfigFilename = ''stingoftheviper''"

definition envPrefix :: string where
  "envPrefix = ''DUBBO''"

definition replaceHyphenWithCamelCase :: bool where
  "replaceHyphenWithCamelCase = False"

definition config_name :: "string \<Rightarrow> string" where
  "config_name name = (if replaceHyphenWithCamelCase then filter (\<lambda>c. c \<noteq> CHR ''-'') name else name)"

text \<open>
  The function that \<open>VisitAll\<close> is given; \<open>GetString\<close> is viper's value in the format \<open>%v\<close>. The error
  of \<open>Set\<close> is dropped.
\<close>

definition bind_flag :: "'f flags \<Rightarrow> viper \<Rightarrow> 'f \<Rightarrow> string \<Rightarrow> 'f" where
  "bind_flag F v f name =
     (let configName = config_name name
      in if \<not> Changed F f name \<and> IsSet v configName
         then (let val = GetString v configName in snd (Set F name val f))
         else f)"

definition bindFlags :: "'f flags \<Rightarrow> viper \<Rightarrow> 'f \<Rightarrow> 'f" where
  "bindFlags F v f = foldl (bind_flag F v) f (VisitAll F f)"

text \<open>
  \<open>time\<close> looks at the environment only: \<open>new_viper\<close> is a viper with the given prefix, the given
  replacements in the names of variables, and \<open>AutomaticEnv\<close>.
\<close>

definition initialize :: "'f flags \<Rightarrow> (string \<Rightarrow> (string \<times> string) list \<Rightarrow> viper) \<Rightarrow> 'f \<Rightarrow> string option \<times> 'f" where
  "initialize F new_viper f =
     (let v = new_viper envPrefix [(''-'', ''_'')] in (None, bindFlags F v f))"

datatype config_error = ConfigFileNotFoundError | ConfigError string

text \<open>\<open>backup\<close> reads a configuration file as well: a missing one is no error, any other error is.\<close>

definition initializeConfig :: "'f flags \<Rightarrow> (string \<Rightarrow> string \<Rightarrow> config_error option \<times> (string \<Rightarrow> (string \<times> string) list \<Rightarrow> viper))
    \<Rightarrow> 'f \<Rightarrow> string option \<times> 'f" where
  "initializeConfig F read_config f =
     (let (err, new_viper) = read_config defaultConfigFilename ''.''
      in case err of
           Some (ConfigError e) \<Rightarrow> (Some e, f)
         | _ \<Rightarrow> (let v = new_viper envPrefix [(''-'', ''_'')] in (None, bindFlags F v f)))"

section \<open>Commands\<close>

definition root_hooks :: "string list" where
  "root_hooks = [''ROOT [step_1] PersistentPreRun:'', ''ROOT [step_2] PreRun:'', ''ROOT [step_3] Run:'',
     ''ROOT [step_4] PostRun:'', ''ROOT [step_5] PersistentPostRun:'']"

definition time_PersistentPreRun :: "'f flags \<Rightarrow> (string \<Rightarrow> (string \<times> string) list \<Rightarrow> viper) \<Rightarrow> 'f
    \<Rightarrow> string list \<times> 'f" where
  "time_PersistentPreRun F new_viper f = ([''[step_1] PersistentPreRun:''], snd (initialize F new_viper f))"

text \<open>The loop runs \<open>echoTimes\<close> times, or not at all if that is not positive.\<close>

function echo_loop :: "int \<Rightarrow> int \<Rightarrow> string list \<Rightarrow> string list" where
  "echo_loop i echoTimes args =
     (if i < echoTimes then (''Echo:'' @ strings_Join args '' '') # echo_loop (i + 1) echoTimes args else [])"
  by pat_completeness auto
termination
  by (relation "measure (\<lambda>(i, n, args). nat (n - i))") auto

declare echo_loop.simps [simp del]

definition time_Run :: "int \<Rightarrow> int \<Rightarrow> string list \<Rightarrow> string list" where
  "time_Run echoTimes echoSeconds args =
     [''[step_3] Run:'', ''echoTime:'' @ dec_int echoTimes @ '', echoSeceond:'' @ dec_int echoSeconds]
     @ echo_loop 0 echoTimes args"

definition time_other_hooks :: "string list" where
  "time_other_hooks = [''[step_2] PreRun:'', ''[step_4] PostRun:'', ''[step_5] PersistentPostRun:'']"

definition ping_Run :: "string list" where
  "ping_Run = [''ping called'']"

text \<open>\<open>log.Fatal\<close> ends the process, deferred calls included.\<close>

datatype 'a process = Continues 'a | Exits string

definition check :: "string option \<Rightarrow> unit process" where
  "check err = (case err of None \<Rightarrow> Continues () | Some e \<Rightarrow> Exits e)"

text \<open>
  \<open>Download\<close> over a file system of type \<open>'d\<close>: \<open>os_Create\<close> truncates the file, \<open>http_Get\<close> yields the
  status and the body, \<open>io_Copy\<close> writes what it could.
\<close>

record 'd system =
  os_Create :: "string \<Rightarrow> 'd \<Rightarrow> string option \<times> 'd"
  http_Get :: "string \<Rightarrow> string + int \<times> string"
  io_Copy :: "string \<Rightarrow> string \<Rightarrow> 'd \<Rightarrow> string option \<times> 'd"

definition Download :: "'d system \<Rightarrow> string \<Rightarrow> string \<Rightarrow> 'd \<Rightarrow> (string list \<times> unit process) \<times> 'd" where
  "Download S url path d =
     (let (err, d) = os_Create S path d
      in case check err of
           Exits e \<Rightarrow> (([], Exits e), d)
         | Continues _ \<Rightarrow>
             (let res = http_Get S url
              in case check (case res of Inl e \<Rightarrow> Some e | Inr _ \<Rightarrow> None) of
                   Exits e \<Rightarrow> (([], Exits e), d)
                 | Continues _ \<Rightarrow>
                     (let (err, d) = io_Copy S path (snd (projr res)) d
                      in case check err of
                           Exits e \<Rightarrow> (([], Exits e), d)
                         | Continues _ \<Rightarrow> (([''save as'' @ path], Continues ()), d))))"

text \<open>cobra runs the command with exactly one argument.\<close>

definition wget_Run :: "'d system \<Rightarrow> string \<Rightarrow> string list \<Rightarrow> 'd \<Rightarrow> (string list \<times> unit process) \<times> 'd" where
  "wget_Run S out args d =
     (let ((ls, exit), d) = Download S (hd args) out d in ((''---wget running---'' # ls, exit), d))"

lemma Download_ignores_status:
  "http_Get S url = Inr (status, body) \<Longrightarrow> os_Create S path d = (None, d1) \<Longrightarrow> io_Copy S path body d1 = (None, d2) \<Longrightarrow>
     Download S url path d = (([''save as'' @ path], Continues ()), d2)"
  by (simp add: Download_def check_def)

section \<open>The contract of a flag set\<close>

text \<open>
  \<open>VisitAll\<close> visits each flag once, in an order that setting flags does not change; \<open>Set\<close> stores a
  value that the flag accepts and marks the flag as changed, and does nothing with any other.
\<close>

locale flag_set =
  fixes F :: "'f flags"
    and accepts :: "string \<Rightarrow> string \<Rightarrow> bool"
  assumes visit_distinct: "distinct (VisitAll F f)"
    and set_accepted: "accepts n v \<Longrightarrow> \<exists>f'. Set F n v f = (None, f')
      \<and> Value F f' = (Value F f)(n := v) \<and> Changed F f' = (Changed F f)(n := True)"
    and set_refused: "\<not> accepts n v \<Longrightarrow> \<exists>e f'. Set F n v f = (Some e, f')
      \<and> Value F f' = Value F f \<and> Changed F f' = Changed F f"
begin

definition overridden :: "viper \<Rightarrow> 'f \<Rightarrow> string \<Rightarrow> bool" where
  "overridden v f n \<longleftrightarrow> \<not> Changed F f n \<and> IsSet v (config_name n) \<and> accepts n (GetString v (config_name n))"

lemma bind_flag_value:
  "Value F (bind_flag F v f n) = (if overridden v f n then (Value F f)(n := GetString v (config_name n)) else Value F f)"
  "Changed F (bind_flag F v f n) = (if overridden v f n then (Changed F f)(n := True) else Changed F f)"
  using set_accepted [of n "GetString v (config_name n)" f] set_refused [of n "GetString v (config_name n)" f]
  by (cases "accepts n (GetString v (config_name n))"; auto simp: bind_flag_def overridden_def Let_def)+

lemma bind_flags_value:
  "distinct ns \<Longrightarrow> Value F (foldl (bind_flag F v) f ns) m =
     (if m \<in> set ns \<and> overridden v f m then GetString v (config_name m) else Value F f m)"
proof (induction ns arbitrary: f)
  case (Cons n ns)
  have "overridden v (bind_flag F v f n) m = overridden v f m" if "m \<noteq> n" for m
    using that by (simp add: overridden_def bind_flag_value)
  then show ?case
    using Cons by (auto simp: bind_flag_value)
qed simp

end

section \<open>A flag set as a list\<close>

type_synonym flag_list = "(string \<times> (string \<times> bool)) list"

definition list_flags :: "(string \<Rightarrow> string \<Rightarrow> bool) \<Rightarrow> flag_list flags" where
  "list_flags accepts = \<lparr>
     VisitAll = (\<lambda>f. remdups (map fst f)),
     Changed = (\<lambda>f n. case map_of f n of Some (_, c) \<Rightarrow> c | None \<Rightarrow> False),
     Value = (\<lambda>f n. case map_of f n of Some (v, _) \<Rightarrow> v | None \<Rightarrow> ''''),
     Set = (\<lambda>n v f. if accepts n v then (None, (n, v, True) # f) else (Some ''invalid argument'', f))\<rparr>"

interpretation list_flags: flag_set "list_flags accepts" accepts for accepts
  by unfold_locales (auto simp: list_flags_def fun_eq_iff)

lemma length_echo_loop: "echo_loop i n args = replicate (nat (n - i)) (''Echo:'' @ strings_Join args '' '')"
proof (induction i n args rule: echo_loop.induct)
  case (1 i n args)
  show ?case
  proof (cases "i < n")
    case True
    then have "nat (n - i) = Suc (nat (n - (i + 1)))" by simp
    with True "1.IH" show ?thesis by (subst echo_loop.simps) simp
  next
    case False
    then show ?thesis by (subst echo_loop.simps) simp
  qed
qed

section \<open>Properties\<close>

text \<open>C34: The precedence of a flag's value: what the command line gave stays; else what viper has, if
  the flag accepts it; else the default. So it is for every visited flag under \<open>initialize\<close> and,
  unless the configuration file is broken, when nothing changes, under \<open>initializeConfig\<close>. A value
  that the flag refuses is dropped without an error.\<close>

theorem bindFlags_precedence:
  assumes "flag_set F accepts"
  shows "list_all (\<lambda>n. Value F (snd (initialize F new_viper f)) n =
      (let v = new_viper ''DUBBO'' [(''-'', ''_'')] in
       if Changed F f n then Value F f n
       else if IsSet v n \<and> accepts n (GetString v n) then GetString v n
       else Value F f n)) (VisitAll F f)
    \<and> initializeConfig F read_config f =
       (case fst (read_config ''stingoftheviper'' ''.'') of
          Some (ConfigError e) \<Rightarrow> (Some e, f)
        | _ \<Rightarrow> initialize F (snd (read_config ''stingoftheviper'' ''.'')) f)"
proof -
  have "config_name n = n" for n by (simp add: config_name_def replaceHyphenWithCamelCase_def)
  then have "list_all (\<lambda>n. Value F (snd (initialize F new_viper f)) n =
      (let v = new_viper ''DUBBO'' [(''-'', ''_'')] in
       if Changed F f n then Value F f n
       else if IsSet v n \<and> accepts n (GetString v n) then GetString v n
       else Value F f n)) (VisitAll F f)"
    using flag_set.bind_flags_value [OF assms flag_set.visit_distinct [OF assms]]
    by (simp add: list_all_iff initialize_def bindFlags_def envPrefix_def Let_def flag_set.overridden_def [OF assms])
  then show ?thesis
    by (simp add: initializeConfig_def initialize_def defaultConfigFilename_def case_prod_beta
        split: option.split config_error.split)
qed

text \<open>Three flags: one from the command line, one from the environment, one refused.\<close>

definition demo_flags :: flag_list where
  "demo_flags = [(''color'', ''blue'', True), (''name'', ''x'', False), (''times'', ''1'', False)]"

definition demo_viper :: viper where
  "demo_viper = \<lparr>IsSet = (\<lambda>_. True), GetString = (\<lambda>_. ''many'')\<rparr>"

theorem bindFlags_precedence_witness:
  "Value (list_flags (\<lambda>n v. n \<noteq> ''times'')) (snd (initialize (list_flags (\<lambda>n v. n \<noteq> ''times'')) (\<lambda>_ _. demo_viper) demo_flags)) ''color'' = ''blue''
   \<and> Value (list_flags (\<lambda>n v. n \<noteq> ''times'')) (snd (initialize (list_flags (\<lambda>n v. n \<noteq> ''times'')) (\<lambda>_ _. demo_viper) demo_flags)) ''name'' = ''many''
   \<and> Value (list_flags (\<lambda>n v. n \<noteq> ''times'')) (snd (initialize (list_flags (\<lambda>n v. n \<noteq> ''times'')) (\<lambda>_ _. demo_viper) demo_flags)) ''times'' = ''1''"
  using bindFlags_precedence [OF list_flags.flag_set_axioms [of "\<lambda>n v. n \<noteq> ''times''"],
      where new_viper = "\<lambda>_ _. demo_viper" and f = demo_flags and read_config = "\<lambda>_ _. (None, \<lambda>_ _. demo_viper)"]
  by (simp add: demo_flags_def demo_viper_def list_flags_def)

end
