(* ===== verification/Cobra_Commands.thy ===== *)
theory Cobra_Commands
  imports Cobra_Cli
begin

text \<open>
  The commands of \<^verbatim>\<open>dev/cobra\<close> as they are registered (\<^verbatim>\<open>cmd/root.go\<close>, \<^verbatim>\<open>cmd/time.go\<close>, \<^verbatim>\<open>cmd/ping.go\<close>,
  \<^verbatim>\<open>cmd/wget.go\<close>), the program of \<^verbatim>\<open>backup/stringenv.go\<close>, and what a run of them does. cobra, which
  finds the command, parses its flags and calls its hooks, is a parameter; the contract \<open>cobra\<close> is its
  documentation, in version 1.6.1, which \<^verbatim>\<open>go.mod\<close> names.
\<close>

section \<open>Registration\<close>

datatype flag_kind = Int_Flag | String_Flag | Bool_Flag

record flag_spec =
  flag_Name :: string
  Shorthand :: string
  Kind :: flag_kind
  DefValue :: string

datatype positional = ArbitraryArgs | MinimumNArgs nat | ExactArgs nat

fun admits :: "positional \<Rightarrow> string list \<Rightarrow> bool" where
  "admits ArbitraryArgs args = True"
| "admits (MinimumNArgs n) args = (n \<le> length args)"
| "admits (ExactArgs n) args = (length args = n)"

text \<open>A hook goes on, returns an error, or ends the process as \<open>log.Fatal\<close> does.\<close>

datatype status = Go_On | Failed string | Fatal string

record ('f, 'd) world =
  printed :: "string list"
  flag_state :: 'f
  disk :: 'd

type_synonym ('f, 'd) hook = "string list \<Rightarrow> ('f, 'd) world \<Rightarrow> status \<times> ('f, 'd) world"

record ('f, 'd) command =
  Use :: string
  Args :: positional
  Flags :: "flag_spec list"
  PersistentFlags :: "flag_spec list"
  RequiredFlags :: "string list"
  PersistentPreRun :: "('f, 'd) hook option"
  PreRun :: "('f, 'd) hook option"
  Run :: "('f, 'd) hook option"
  PostRun :: "('f, 'd) hook option"
  PersistentPostRun :: "('f, 'd) hook option"

record ('f, 'd) app =
  root :: "('f, 'd) command"
  subcommands :: "('f, 'd) command list"

definition print_lines :: "string list \<Rightarrow> ('f, 'd) world \<Rightarrow> ('f, 'd) world" where
  "print_lines ls w = w\<lparr>printed := printed w @ ls\<rparr>"

definition print_hook :: "string \<Rightarrow> ('f, 'd) hook" where
  "print_hook l = (\<lambda>args w. (Go_On, print_lines [l] w))"

section \<open>The commands\<close>

text \<open>\<^verbatim>\<open>cmd/root.go\<close>: the hooks of the root command print a line each.\<close>

definition root_flags :: "flag_spec list" where
  "root_flags = [\<lparr>flag_Name = ''toggle'', Shorthand = ''t'', Kind = Bool_Flag, DefValue = ''false''\<rparr>]"

definition root_persistent_flags :: "flag_spec list" where
  "root_persistent_flags =
     [\<lparr>flag_Name = ''verbose'', Shorthand = ''v'', Kind = Bool_Flag, DefValue = ''false''\<rparr>,
      \<lparr>flag_Name = ''config'', Shorthand = ''c'', Kind = String_Flag, DefValue = []\<rparr>]"

definition rootCmd :: "('f, 'd) command" where
  "rootCmd = \<lparr>Use = ''cobra'', Args = ArbitraryArgs,
     Flags = root_flags, PersistentFlags = root_persistent_flags, RequiredFlags = [],
     PersistentPreRun = Some (print_hook (root_hooks ! 0)), PreRun = Some (print_hook (root_hooks ! 1)),
     Run = Some (print_hook (root_hooks ! 2)), PostRun = Some (print_hook (root_hooks ! 3)),
     PersistentPostRun = Some (print_hook (root_hooks ! 4))\<rparr>"

text \<open>
  \<^verbatim>\<open>cmd/time.go\<close>: the variables \<open>echoTimes\<close> and \<open>echoSeconds\<close> are those of the two flags; \<open>int_of\<close> is
  pflag's reading of an integer. The error of \<open>initialize\<close> is not looked at.
\<close>

definition times_flag :: flag_spec where
  "times_flag = \<lparr>flag_Name = ''times'', Shorthand = ''t'', Kind = Int_Flag, DefValue = ''1''\<rparr>"

definition second_flag :: flag_spec where
  "second_flag = \<lparr>flag_Name = ''second-slash'', Shorthand = ''s'', Kind = Int_Flag, DefValue = ''0''\<rparr>"

definition timeCmd :: "'f flags \<Rightarrow> (string \<Rightarrow> (string \<times> string) list \<Rightarrow> viper) \<Rightarrow> (string \<Rightarrow> int) \<Rightarrow> ('f, 'd) command" where
  "timeCmd F new_viper int_of = \<lparr>Use = ''time'', Args = MinimumNArgs 1,
     Flags = [times_flag, second_flag],
     PersistentFlags = [], RequiredFlags = [],
     PersistentPreRun = Some (\<lambda>args w.
       case time_PersistentPreRun F new_viper (flag_state w) of
         (ls, f) \<Rightarrow> (Go_On, (print_lines ls w)\<lparr>flag_state := f\<rparr>)),
     PreRun = Some (print_hook (time_other_hooks ! 0)),
     Run = Some (\<lambda>args w.
       (Go_On, print_lines (time_Run (int_of (Value F (flag_state w) ''times''))
          (int_of (Value F (flag_state w) ''second-slash'')) args) w)),
     PostRun = Some (print_hook (time_other_hooks ! 1)),
     PersistentPostRun = Some (print_hook (time_other_hooks ! 2))\<rparr>"

text \<open>\<^verbatim>\<open>cmd/ping.go\<close>.\<close>

definition pingCmd :: "('f, 'd) command" where
  "pingCmd = \<lparr>Use = ''ping'', Args = ArbitraryArgs, Flags = [], PersistentFlags = [], RequiredFlags = [],
     PersistentPreRun = None, PreRun = None, Run = Some (\<lambda>args w. (Go_On, print_lines ping_Run w)),
     PostRun = None, PersistentPostRun = None\<rparr>"

text \<open>\<^verbatim>\<open>cmd/wget.go\<close>.\<close>

definition output_flag :: flag_spec where
  "output_flag = \<lparr>flag_Name = ''output'', Shorthand = ''o'', Kind = String_Flag, DefValue = []\<rparr>"

definition wgetCmd :: "'f flags \<Rightarrow> 'd system \<Rightarrow> ('f, 'd) command" where
  "wgetCmd F S = \<lparr>Use = ''wget'', Args = ExactArgs 1,
     Flags = [output_flag],
     PersistentFlags = [], RequiredFlags = [''output''],
     PersistentPreRun = None, PreRun = None,
     Run = Some (\<lambda>args w.
       case wget_Run S (Value F (flag_state w) ''output'') args (disk w) of
         ((ls, exit), d) \<Rightarrow> (case exit of Continues _ \<Rightarrow> Go_On | Exits e \<Rightarrow> Fatal e, (print_lines ls w)\<lparr>disk := d\<rparr>)),
     PostRun = None, PersistentPostRun = None\<rparr>"

definition cobra_app :: "'f flags \<Rightarrow> (string \<Rightarrow> (string \<times> string) list \<Rightarrow> viper) \<Rightarrow> (string \<Rightarrow> int) \<Rightarrow> 'd system
    \<Rightarrow> ('f, 'd) app" where
  "cobra_app F new_viper int_of S =
     \<lparr>root = rootCmd, subcommands = [pingCmd, timeCmd F new_viper int_of, wgetCmd F S]\<rparr>"

text \<open>
  \<^verbatim>\<open>backup/stringenv.go\<close>: one command with two flags; its \<open>PersistentPreRunE\<close> returns the error of
  \<open>initializeConfig\<close>.
\<close>

definition number_flag :: flag_spec where
  "number_flag = \<lparr>flag_Name = ''number'', Shorthand = ''n'', Kind = Int_Flag, DefValue = ''7''\<rparr>"

definition color_flag :: flag_spec where
  "color_flag = \<lparr>flag_Name = ''favorite-color'', Shorthand = ''c'', Kind = String_Flag, DefValue = ''red''\<rparr>"

definition NewRootCommand :: "'f flags \<Rightarrow> (string \<Rightarrow> string \<Rightarrow> config_error option \<times> (string \<Rightarrow> (string \<times> string) list \<Rightarrow> viper))
    \<Rightarrow> (string \<Rightarrow> int) \<Rightarrow> ('f, 'd) command" where
  "NewRootCommand F read_config int_of = \<lparr>Use = ''stingoftheviper'', Args = ArbitraryArgs,
     Flags = [number_flag, color_flag],
     PersistentFlags = [], RequiredFlags = [],
     PersistentPreRun = Some (\<lambda>args w.
       case initializeConfig F read_config (flag_state w) of
         (err, f) \<Rightarrow> (case err of None \<Rightarrow> Go_On | Some e \<Rightarrow> Failed e, w\<lparr>flag_state := f\<rparr>)),
     PreRun = None,
     Run = Some (\<lambda>args w. (Go_On, print_lines
       [''Your favorite color is: '' @ Value F (flag_state w) ''favorite-color'',
        ''The magic number is: '' @ dec_int (int_of (Value F (flag_state w) ''number''))] w)),
     PostRun = None, PersistentPostRun = None\<rparr>"

text \<open>\<open>Execute\<close> and the two \<open>main\<close> functions exit with 1 on an error.\<close>

definition exit_code :: "status \<Rightarrow> nat" where
  "exit_code s = (case s of Go_On \<Rightarrow> 0 | Failed _ \<Rightarrow> 1 | Fatal _ \<Rightarrow> 1)"

section \<open>The contract of cobra\<close>

text \<open>
  The flags of a command are its own and the persistent ones of the root. Its hooks run in order:
  the persistent ones are the root's if it has none itself, required flags are looked at before \<open>Run\<close>,
  and what is not \<open>Go_On\<close> ends the run.
\<close>

definition command_flags :: "('f, 'd) app \<Rightarrow> ('f, 'd) command \<Rightarrow> flag_spec list" where
  "command_flags A c = Flags c @ PersistentFlags c @ (if Use c = Use (root A) then [] else PersistentFlags (root A))"

definition or_else :: "'a option \<Rightarrow> 'a option \<Rightarrow> 'a option" where
  "or_else a b = (case a of Some _ \<Rightarrow> a | None \<Rightarrow> b)"

fun run_hooks :: "('f, 'd) hook list \<Rightarrow> ('f, 'd) hook" where
  "run_hooks [] args w = (Go_On, w)"
| "run_hooks (h # hs) args w = (case h args w of (Go_On, w) \<Rightarrow> run_hooks hs args w | (s, w) \<Rightarrow> (s, w))"

definition optional :: "('f, 'd) hook option \<Rightarrow> ('f, 'd) hook list" where
  "optional h = (case h of None \<Rightarrow> [] | Some h \<Rightarrow> [h])"

lemma optional_simps [simp]: "optional None = []" "optional (Some h) = [h]"
  by (simp_all add: optional_def)

lemma or_else_simps [simp]: "or_else None b = b" "or_else (Some a) b = Some a"
  by (simp_all add: or_else_def)

definition required_hook :: "'f flags \<Rightarrow> string \<Rightarrow> string list \<Rightarrow> ('f, 'd) hook" where
  "required_hook F msg required =
     (\<lambda>args w. (if list_all (Changed F (flag_state w)) required then Go_On else Failed msg, w))"

definition command_hooks :: "'f flags \<Rightarrow> string \<Rightarrow> ('f, 'd) app \<Rightarrow> ('f, 'd) command \<Rightarrow> ('f, 'd) hook list" where
  "command_hooks F msg A c =
     optional (or_else (PersistentPreRun c) (PersistentPreRun (root A))) @ optional (PreRun c)
     @ [required_hook F msg (RequiredFlags c)] @ optional (Run c) @ optional (PostRun c)
     @ optional (or_else (PersistentPostRun c) (PersistentPostRun (root A)))"

text \<open>The value of a flag when the viper v has been bound to flags in the state f.\<close>

definition resolved :: "'f flags \<Rightarrow> (flag_kind \<Rightarrow> string \<Rightarrow> bool) \<Rightarrow> viper \<Rightarrow> 'f \<Rightarrow> flag_spec \<Rightarrow> string" where
  "resolved F kind_ok v f s =
     (if Changed F f (flag_Name s) then Value F f (flag_Name s)
      else if IsSet v (flag_Name s) \<and> kind_ok (Kind s) (GetString v (flag_Name s)) then GetString v (flag_Name s)
      else DefValue s)"

text \<open>
  Finding the command and parsing its flags may fail, and then no hook runs. Fresh flags have their
  defaults; parsing sets the flags of the command line and leaves the others alone.
\<close>

locale cobra = flag_set F accepts for F :: "'f flags" and accepts +
  fixes A :: "('f, 'd) app"
    and kind_ok :: "flag_kind \<Rightarrow> string \<Rightarrow> bool"
    and new_flags :: "flag_spec list \<Rightarrow> 'f"
    and dispatch :: "string list \<Rightarrow> string + ('f, 'd) command \<times> string list"
    and parse :: "('f, 'd) command \<Rightarrow> string list \<Rightarrow> 'f \<Rightarrow> string + string list \<times> 'f"
    and Execute :: "string list \<Rightarrow> 'd \<Rightarrow> status \<times> string list \<times> 'd"
  assumes kinds: "c \<in> set (root A # subcommands A) \<Longrightarrow> s \<in> set (command_flags A c) \<Longrightarrow>
      accepts (flag_Name s) v = kind_ok (Kind s) v"
    and strings_ok: "kind_ok String_Flag v"
    and fresh: "c \<in> set (root A # subcommands A) \<Longrightarrow> s \<in> set (command_flags A c) \<Longrightarrow>
      Value F (new_flags (command_flags A c)) (flag_Name s) = DefValue s
      \<and> flag_Name s \<in> set (VisitAll F (new_flags (command_flags A c)))"
    and parsed: "parse c argv f = Inr (args, f') \<Longrightarrow> set (VisitAll F f') = set (VisitAll F f)
      \<and> (Changed F f' n \<or> Value F f' n = Value F f n)"
    and executed: "dispatch argv = Inr (c, rest) \<Longrightarrow> parse c rest (new_flags (command_flags A c)) = Inr (args, f) \<Longrightarrow>
      admits (Args c) args \<Longrightarrow> Run c \<noteq> None \<Longrightarrow>
      \<exists>msg. Execute argv d = (case run_hooks (command_hooks F msg A c) args \<lparr>printed = [], flag_state = f, disk = d\<rparr> of
        (s, w) \<Rightarrow> (s, printed w, disk w))"
    and refused: "dispatch argv = Inr (c, rest) \<Longrightarrow> parse c rest (new_flags (command_flags A c)) = Inr (args, f) \<Longrightarrow>
      \<not> admits (Args c) args \<Longrightarrow> \<exists>e. Execute argv d = (Failed e, [], d)"
begin

lemma bound_value:
  assumes "c \<in> set (root A # subcommands A)" and "s \<in> set (command_flags A c)"
    and "parse c rest (new_flags (command_flags A c)) = Inr (args, f)"
  shows "Value F (bindFlags F v f) (flag_Name s) = resolved F kind_ok v f s"
proof -
  have "config_name n = n" for n by (simp add: config_name_def replaceHyphenWithCamelCase_def)
  then have "Value F (bindFlags F v f) (flag_Name s) =
      (if flag_Name s \<in> set (VisitAll F f) \<and> overridden v f (flag_Name s) then GetString v (flag_Name s) else Value F f (flag_Name s))"
    using bind_flags_value [OF visit_distinct, of v f f "flag_Name s"] by (simp add: bindFlags_def)
  with parsed [OF assms(3), of "flag_Name s"] fresh [OF assms(1,2)] kinds [OF assms(1,2)] show ?thesis
    by (auto simp: resolved_def overridden_def config_name_def replaceHyphenWithCamelCase_def)
qed

end

section \<open>A small cobra\<close>

text \<open>
  The command comes first, flags are given as \<open>--name value\<close> or \<open>-x value\<close>, a boolean flag without a
  value. Integers are digits.
\<close>

definition small_kind :: "flag_kind \<Rightarrow> string \<Rightarrow> bool" where
  "small_kind k v = (case k of
     Int_Flag \<Rightarrow> v \<noteq> [] \<and> list_all (\<lambda>c. c \<in> set ''0123456789'') v
   | Bool_Flag \<Rightarrow> v = ''true'' \<or> v = ''false''
   | String_Flag \<Rightarrow> True)"

definition small_accepts :: "flag_spec list \<Rightarrow> string \<Rightarrow> string \<Rightarrow> bool" where
  "small_accepts all n v =
     (case find (\<lambda>s. flag_Name s = n) all of None \<Rightarrow> True | Some s \<Rightarrow> small_kind (Kind s) v)"

definition small_new :: "flag_spec list \<Rightarrow> flag_list" where
  "small_new ss = map (\<lambda>s. (flag_Name s, DefValue s, False)) ss"

definition small_dispatch :: "('f, 'd) app \<Rightarrow> string list \<Rightarrow> string + ('f, 'd) command \<times> string list" where
  "small_dispatch A argv = (case argv of [] \<Rightarrow> Inr (root A, [])
     | name # rest \<Rightarrow> (case find (\<lambda>c. Use c = name) (subcommands A) of
         None \<Rightarrow> if subcommands A = [] then Inr (root A, argv) else Inl ''unknown command''
       | Some c \<Rightarrow> Inr (c, rest)))"

definition flag_named :: "flag_spec list \<Rightarrow> string \<Rightarrow> flag_spec option" where
  "flag_named ss w = find (\<lambda>s. w = ''--'' @ flag_Name s \<or> w = ''-'' @ Shorthand s) ss"

definition small_set :: "flag_spec list \<Rightarrow> string \<Rightarrow> string \<Rightarrow> flag_list \<Rightarrow> flag_list option" where
  "small_set all n v f = (if small_accepts all n v \<and> n \<in> set (map fst f) then Some ((n, v, True) # f) else None)"

fun small_parse :: "flag_spec list \<Rightarrow> flag_spec list \<Rightarrow> string list \<Rightarrow> flag_list \<Rightarrow> string + string list \<times> flag_list" where
  "small_parse all ss [] f = Inr ([], f)"
| "small_parse all ss (w # ws) f =
     (case flag_named ss w of
        None \<Rightarrow>
          if w \<noteq> [] \<and> hd w = CHR ''-'' then Inl ''unknown flag''
          else (case small_parse all ss ws f of Inl e \<Rightarrow> Inl e | Inr (args, f) \<Rightarrow> Inr (w # args, f))
      | Some s \<Rightarrow>
          if Kind s = Bool_Flag then
            (case small_set all (flag_Name s) ''true'' f of None \<Rightarrow> Inl ''invalid argument'' | Some f \<Rightarrow> small_parse all ss ws f)
          else (case ws of
                  [] \<Rightarrow> Inl ''flag needs an argument''
                | v # ws \<Rightarrow>
                    (case small_set all (flag_Name s) v f of None \<Rightarrow> Inl ''invalid argument'' | Some f \<Rightarrow> small_parse all ss ws f)))"

definition small_Execute :: "flag_spec list \<Rightarrow> (flag_list, 'd) app \<Rightarrow> string list \<Rightarrow> 'd \<Rightarrow> status \<times> string list \<times> 'd" where
  "small_Execute all A argv d =
     (case small_dispatch A argv of
        Inl e \<Rightarrow> (Failed e, [], d)
      | Inr (c, rest) \<Rightarrow>
          (case small_parse all (command_flags A c) rest (small_new (command_flags A c)) of
             Inl e \<Rightarrow> (Failed e, [], d)
           | Inr (args, f) \<Rightarrow>
               if admits (Args c) args
               then (case run_hooks (command_hooks (list_flags (small_accepts all)) ''required flags not set'' A c) args
                       \<lparr>printed = [], flag_state = f, disk = d\<rparr> of (s, w) \<Rightarrow> (s, printed w, disk w))
               else (Failed ''wrong number of arguments'', [], d)))"

definition grown :: "flag_list \<Rightarrow> flag_list \<Rightarrow> bool" where
  "grown f f' \<longleftrightarrow> set (map fst f') = set (map fst f)
     \<and> (\<forall>n acc. (Changed (list_flags acc) f n \<longrightarrow> Changed (list_flags acc) f' n)
          \<and> (Changed (list_flags acc) f' n \<or> Value (list_flags acc) f' n = Value (list_flags acc) f n))"

lemma grown_refl [simp]: "grown f f"
  by (simp add: grown_def)

lemma grown_trans: "grown f g \<Longrightarrow> grown g h \<Longrightarrow> grown f h"
  unfolding grown_def by metis

lemma small_set_grown: "small_set A n v f = Some g \<Longrightarrow> grown f g"
  by (auto simp: small_set_def grown_def list_flags_def simp del: set_map split: if_splits)

lemma small_parse_grown: "small_parse A ss ws f = Inr (args, g) \<Longrightarrow> grown f g"
proof (induction A ss ws f arbitrary: args rule: small_parse.induct)
  case (2 A ss w ws f)
  show ?case
  proof (cases "flag_named ss w")
    case None
    then show ?thesis using "2.prems" "2.IH"(1) [OF None] by (auto split: if_splits sum.splits)
  next
    case (Some s)
    show ?thesis
    proof (cases "Kind s = Bool_Flag")
      case True
      then obtain h where h: "small_set A (flag_Name s) ''true'' f = Some h" and "small_parse A ss ws h = Inr (args, g)"
        using "2.prems" Some by (auto split: option.splits)
      then show ?thesis using "2.IH"(2) [OF Some True h] small_set_grown grown_trans by blast
    next
      case False
      then obtain v ws2 h where ws: "ws = v # ws2" and h: "small_set A (flag_Name s) v f = Some h" and "small_parse A ss ws2 h = Inr (args, g)"
        using "2.prems" Some by (auto split: option.splits list.splits)
      then show ?thesis using "2.IH"(3) [OF Some False ws h] small_set_grown grown_trans by blast
    qed
  qed
qed simp

definition app_ok :: "flag_spec list \<Rightarrow> ('f, 'd) app \<Rightarrow> bool" where
  "app_ok all A \<longleftrightarrow> list_all (\<lambda>c. distinct (map flag_Name (command_flags A c))
     \<and> list_all (\<lambda>s. find (\<lambda>t. flag_Name t = flag_Name s) all = Some s) (command_flags A c)) (root A # subcommands A)"

lemma small_new_value:
  assumes "distinct (map flag_Name ss)" and "s \<in> set ss"
  shows "Value (list_flags acc) (small_new ss) (flag_Name s) = DefValue s"
proof -
  have "map_of (small_new ss) (flag_Name s) = Some (DefValue s, False)"
    by (rule map_of_is_SomeI) (use assms in \<open>auto simp: small_new_def comp_def image_iff\<close>)
  then show ?thesis by (simp add: list_flags_def)
qed

lemma small_cobra:
  assumes "app_ok all A"
  shows "cobra (list_flags (small_accepts all)) (small_accepts all) A small_kind small_new (small_dispatch A)
    (\<lambda>c. small_parse all (command_flags A c)) (small_Execute all A)"
proof (unfold_locales, goal_cases)
  case (1 c s v)
  then show ?case using assms by (auto simp: app_ok_def list_all_iff small_accepts_def)
next
  case (2 v)
  then show ?case by (simp add: small_kind_def)
next
  case (3 c s)
  then have "distinct (map flag_Name (command_flags A c))" using assms by (auto simp: app_ok_def list_all_iff)
  then have "Value (list_flags (small_accepts all)) (small_new (command_flags A c)) (flag_Name s) = DefValue s"
    using 3(2) by (rule small_new_value)
  moreover have "flag_Name s \<in> set (VisitAll (list_flags (small_accepts all)) (small_new (command_flags A c)))"
    using 3(2) by (auto simp: list_flags_def small_new_def image_iff)
  ultimately show ?case by simp
next
  case (4 c argv f args f' n)
  have "set (VisitAll (list_flags acc) g) = set (map fst g)" for acc g by (simp add: list_flags_def)
  then show ?case using small_parse_grown [OF 4] by (simp add: grown_def)
next
  case (5 argv c rest args f d)
  then show ?case by (auto simp: small_Execute_def)
next
  case (6 argv c rest args f d)
  then show ?case by (simp add: small_Execute_def)
qed

definition cobra_specs :: "flag_spec list" where
  "cobra_specs = root_flags @ root_persistent_flags @ [times_flag, second_flag, output_flag]"

lemmas cobra_specs_defs = cobra_specs_def root_flags_def root_persistent_flags_def times_flag_def second_flag_def output_flag_def

abbreviation cobra_flags :: "flag_list flags" where
  "cobra_flags \<equiv> list_flags (small_accepts cobra_specs)"

interpretation small_app: cobra cobra_flags "small_accepts cobra_specs" "cobra_app cobra_flags new_viper int_of S"
    small_kind small_new "small_dispatch (cobra_app cobra_flags new_viper int_of S)"
    "\<lambda>c. small_parse cobra_specs (command_flags (cobra_app cobra_flags new_viper int_of S) c)"
    "small_Execute cobra_specs (cobra_app cobra_flags new_viper int_of S)" for new_viper int_of S
  by (rule small_cobra)
    (simp add: app_ok_def cobra_specs_defs command_flags_def cobra_app_def rootCmd_def pingCmd_def timeCmd_def wgetCmd_def)

definition color_app :: "'f flags \<Rightarrow> (string \<Rightarrow> string \<Rightarrow> config_error option \<times> (string \<Rightarrow> (string \<times> string) list \<Rightarrow> viper))
    \<Rightarrow> (string \<Rightarrow> int) \<Rightarrow> ('f, unit) app" where
  "color_app F read_config int_of = \<lparr>root = NewRootCommand F read_config int_of, subcommands = []\<rparr>"

definition color_specs :: "flag_spec list" where
  "color_specs = [number_flag, color_flag]"

abbreviation color_flags :: "flag_list flags" where
  "color_flags \<equiv> list_flags (small_accepts color_specs)"

interpretation small_color: cobra color_flags "small_accepts color_specs" "color_app color_flags read_config int_of"
    small_kind small_new "small_dispatch (color_app color_flags read_config int_of)"
    "\<lambda>c. small_parse color_specs (command_flags (color_app color_flags read_config int_of) c)"
    "small_Execute color_specs (color_app color_flags read_config int_of)" for read_config int_of
  by (rule small_cobra) (simp add: app_ok_def command_flags_def color_app_def color_specs_def NewRootCommand_def number_flag_def color_flag_def)

definition small_int :: "string \<Rightarrow> int" where
  "small_int s = foldl (\<lambda>n c. 10 * n + (of_char c - 48)) 0 s"

text \<open>The environment sets one flag, and offers another a word.\<close>

definition small_env :: "string \<Rightarrow> (string \<times> string) list \<Rightarrow> viper" where
  "small_env pre repl = \<lparr>IsSet = (\<lambda>n. n \<in> set [''second-slash'', ''number'', ''favorite-color'']),
     GetString = (\<lambda>n. if n = ''second-slash'' then ''9'' else ''blue'')\<rparr>"

definition no_system :: "unit system" where
  "no_system = \<lparr>os_Create = (\<lambda>_ d. (None, d)), http_Get = (\<lambda>_. Inl ''no such host''), io_Copy = (\<lambda>_ _ d. (None, d))\<rparr>"

lemmas small_defs = small_dispatch_def flag_named_def small_set_def small_accepts_def small_new_def small_kind_def
  cobra_specs_defs list_flags_def color_specs_def number_flag_def color_flag_def

section \<open>Properties\<close>

lemma cobra_app_flags:
  "command_flags (cobra_app F new_viper int_of S) (timeCmd F new_viper int_of) = [times_flag, second_flag] @ root_persistent_flags"
  "command_flags (cobra_app F new_viper int_of S) (wgetCmd F S) = output_flag # root_persistent_flags"
  "command_flags (cobra_app F new_viper int_of S) pingCmd = root_persistent_flags"
  by (simp_all add: command_flags_def cobra_app_def timeCmd_def wgetCmd_def pingCmd_def rootCmd_def)

lemma print_simps [simp]:
  "printed (print_lines ls w) = printed w @ ls" "flag_state (print_lines ls w) = flag_state w" "disk (print_lines ls w) = disk w"
  "print_lines ls \<lparr>printed = ps, flag_state = f, disk = d\<rparr> = \<lparr>printed = ps @ ls, flag_state = f, disk = d\<rparr>"
  by (simp_all add: print_lines_def)

text \<open>C40: What \<open>cobra time\<close> does: without arguments it is an error and no hook runs; otherwise its own five
  hooks run in order, none of the root's, and the arguments are echoed as many times as the flag says:
  the value of the command line, else that of the environment if it is an integer, else 1.\<close>

theorem time_command:
  assumes "cobra F accepts (cobra_app F new_viper int_of S) kind_ok new_flags dispatch parse Execute"
    and "dispatch argv = Inr (timeCmd F new_viper int_of, rest)"
    and "parse (timeCmd F new_viper int_of) rest (new_flags ([times_flag, second_flag] @ root_persistent_flags)) = Inr (args, f)"
  shows "if args = [] then \<exists>e. Execute argv d = (Failed e, [], d)
    else (let v = new_viper ''DUBBO'' [(''-'', ''_'')];
              times = int_of (resolved F kind_ok v f times_flag); seconds = int_of (resolved F kind_ok v f second_flag)
          in Execute argv d = (Go_On,
            [''[step_1] PersistentPreRun:'', ''[step_2] PreRun:'', ''[step_3] Run:'',
             ''echoTime:'' @ dec_int times @ '', echoSeceond:'' @ dec_int seconds]
            @ replicate (nat times) (''Echo:'' @ strings_Join args '' '')
            @ [''[step_4] PostRun:'', ''[step_5] PersistentPostRun:''], d))"
proof -
  let ?A = "cobra_app F new_viper int_of S" and ?c = "timeCmd F new_viper int_of" and ?v = "new_viper ''DUBBO'' [(''-'', ''_'')]"
  have c: "?c \<in> set (root ?A # subcommands ?A)" by (simp add: cobra_app_def)
  have p: "parse ?c rest (new_flags (command_flags ?A ?c)) = Inr (args, f)" using assms(3) by (simp only: cobra_app_flags)
  have s: "times_flag \<in> set (command_flags ?A ?c)" "second_flag \<in> set (command_flags ?A ?c)" by (simp_all add: cobra_app_flags)
  have vals: "Value F (bindFlags F ?v f) ''times'' = resolved F kind_ok ?v f times_flag"
    "Value F (bindFlags F ?v f) ''second-slash'' = resolved F kind_ok ?v f second_flag"
    using cobra.bound_value [OF assms(1) c s(1) p, of ?v] cobra.bound_value [OF assms(1) c s(2) p, of ?v]
    by (simp_all add: times_flag_def second_flag_def)
  have admit: "admits (Args ?c) args \<longleftrightarrow> args \<noteq> []" by (cases args) (simp_all add: timeCmd_def)
  show ?thesis
  proof (cases "args = []")
    case True
    then show ?thesis using cobra.refused [OF assms(1,2) p, of d] admit by simp
  next
    case False
    then have "admits (Args ?c) args" "Run ?c \<noteq> None" using admit by (simp_all add: timeCmd_def)
    from cobra.executed [OF assms(1,2) p this, of d] show ?thesis
      using False
      by (auto simp: command_hooks_def timeCmd_def required_hook_def print_hook_def time_PersistentPreRun_def initialize_def
          envPrefix_def time_other_hooks_def time_Run_def length_echo_loop vals Let_def)
  qed
qed

theorem time_command_witness:
  "small_Execute cobra_specs (cobra_app cobra_flags small_env small_int no_system) [''time'', ''-t'', ''3'', ''hello''] () =
    (Go_On, [''[step_1] PersistentPreRun:'', ''[step_2] PreRun:'', ''[step_3] Run:'', ''echoTime:3, echoSeceond:9'',
       ''Echo:hello'', ''Echo:hello'', ''Echo:hello'', ''[step_4] PostRun:'', ''[step_5] PersistentPostRun:''], ())"
proof -
  let ?A = "cobra_app cobra_flags small_env small_int no_system" and ?f = "(''times'', ''3'', True) # small_new ([times_flag, second_flag] @ root_persistent_flags)"
  have d: "small_dispatch ?A [''time'', ''-t'', ''3'', ''hello''] = Inr (timeCmd cobra_flags small_env small_int, [''-t'', ''3'', ''hello''])"
    by (simp add: small_dispatch_def cobra_app_def pingCmd_def timeCmd_def)
  have p: "small_parse cobra_specs (command_flags ?A (timeCmd cobra_flags small_env small_int)) [''-t'', ''3'', ''hello'']
      (small_new ([times_flag, second_flag] @ root_persistent_flags)) = Inr ([''hello''], ?f)"
    unfolding cobra_app_flags by (simp add: small_defs)
  have t: "resolved cobra_flags small_kind v ?f times_flag = ''3''" for v
    by (simp add: resolved_def list_flags_def times_flag_def)
  have s: "resolved cobra_flags small_kind (small_env ''DUBBO'' [(''-'', ''_'')]) ?f second_flag = ''9''"
    by (simp add: resolved_def small_defs small_env_def)
  have n: "dec_int 3 = ''3''" "dec_int 9 = ''9''" by code_simp+
  show ?thesis
    using time_command [OF small_app.cobra_axioms d p, of "()"]
    by (simp add: Let_def t [simplified] s [simplified] small_int_def n numeral_3_eq_3)
qed

text \<open>What \<open>cobra wget\<close> does with one argument: without the flag \<open>output\<close> only the root's first hook runs, and
  nothing is fetched; with it the download is made between the root's persistent hooks, the second of
  which does not run if the download ends the process.\<close>

theorem wget_command:
  assumes "cobra F accepts (cobra_app F new_viper int_of S) kind_ok new_flags dispatch parse Execute"
    and "dispatch argv = Inr (wgetCmd F S, rest)"
    and "parse (wgetCmd F S) rest (new_flags (output_flag # root_persistent_flags)) = Inr ([url], f)"
  shows "if \<not> Changed F f ''output'' then \<exists>e. Execute argv d = (Failed e, [''ROOT [step_1] PersistentPreRun:''], d)
    else (case Download S url (Value F f ''output'') d of
       ((ls, Continues _), d') \<Rightarrow> Execute argv d = (Go_On, [''ROOT [step_1] PersistentPreRun:'', ''---wget running---''] @ ls
            @ [''ROOT [step_5] PersistentPostRun:''], d')
     | ((ls, Exits e), d') \<Rightarrow> Execute argv d = (Fatal e, [''ROOT [step_1] PersistentPreRun:'', ''---wget running---''] @ ls, d'))"
proof -
  let ?A = "cobra_app F new_viper int_of S" and ?c = "wgetCmd F S"
  have p: "parse ?c rest (new_flags (command_flags ?A ?c)) = Inr ([url], f)" using assms(3) by (simp only: cobra_app_flags)
  have "admits (Args ?c) [url]" "Run ?c \<noteq> None" by (simp_all add: wgetCmd_def)
  from cobra.executed [OF assms(1,2) p this, of d] show ?thesis
    by (auto simp: command_hooks_def wgetCmd_def required_hook_def print_hook_def cobra_app_def rootCmd_def root_hooks_def
        wget_Run_def split: prod.splits process.splits)
qed

theorem wget_command_witness:
  "\<exists>e. small_Execute cobra_specs (cobra_app cobra_flags small_env small_int no_system) [''wget'', ''url''] ()
    = (Failed e, [''ROOT [step_1] PersistentPreRun:''], ())"
proof -
  let ?A = "cobra_app cobra_flags small_env small_int no_system" and ?f = "small_new (output_flag # root_persistent_flags)"
  have d: "small_dispatch ?A [''wget'', ''url''] = Inr (wgetCmd cobra_flags no_system, [''url''])"
    by (simp add: small_dispatch_def cobra_app_def pingCmd_def timeCmd_def wgetCmd_def)
  have p: "small_parse cobra_specs (command_flags ?A (wgetCmd cobra_flags no_system)) [''url''] ?f = Inr ([''url''], ?f)"
    unfolding cobra_app_flags by (simp add: small_defs)
  have "\<not> Changed cobra_flags ?f ''output''" by (simp add: small_defs)
  with wget_command [OF small_app.cobra_axioms d p, of "()"] show ?thesis by simp
qed

text \<open>A command without persistent hooks of its own runs the root's.\<close>

lemma ping_command:
  assumes "cobra F accepts (cobra_app F new_viper int_of S) kind_ok new_flags dispatch parse Execute"
    and "dispatch argv = Inr (pingCmd, rest)"
    and "parse pingCmd rest (new_flags root_persistent_flags) = Inr (args, f)"
  shows "Execute argv d = (Go_On, [''ROOT [step_1] PersistentPreRun:'', ''ping called'', ''ROOT [step_5] PersistentPostRun:''], d)"
proof -
  let ?A = "cobra_app F new_viper int_of S" and ?c = "pingCmd :: ('a, 'b) command"
  have p: "parse ?c rest (new_flags (command_flags ?A ?c)) = Inr (args, f)" using assms(3) by (simp only: cobra_app_flags)
  have "admits (Args ?c) args" "Run ?c \<noteq> None" by (simp_all add: pingCmd_def)
  from cobra.executed [OF assms(1,2) p this, of d] show ?thesis
    by (auto simp: command_hooks_def pingCmd_def required_hook_def print_hook_def cobra_app_def rootCmd_def root_hooks_def ping_Run_def)
qed

text \<open>What the program of \<open>backup\<close> does: a configuration file that is there but cannot be read is an error,
  with exit code 1 and nothing printed; otherwise it prints the color and the number: the value of the
  command line, else that of viper if the flag accepts it, else red and 7.\<close>

theorem color_command:
  assumes "cobra F accepts (color_app F read_config int_of) kind_ok new_flags dispatch parse Execute"
    and "dispatch argv = Inr (NewRootCommand F read_config int_of, rest)"
    and "parse (NewRootCommand F read_config int_of) rest (new_flags [number_flag, color_flag]) = Inr (args, f)"
  shows "case read_config ''stingoftheviper'' ''.'' of
      (Some (ConfigError e), _) \<Rightarrow> Execute argv () = (Failed e, [], ()) \<and> exit_code (fst (Execute argv ())) = 1
    | (_, new_viper) \<Rightarrow>
        (let v = new_viper ''DUBBO'' [(''-'', ''_'')]
         in Execute argv () = (Go_On, [''Your favorite color is: '' @ resolved F kind_ok v f color_flag,
              ''The magic number is: '' @ dec_int (int_of (resolved F kind_ok v f number_flag))], ()))"
proof -
  let ?A = "color_app F read_config int_of" and ?c = "NewRootCommand F read_config int_of :: ('a, unit) command"
  have flags: "command_flags ?A ?c = [number_flag, color_flag]"
    by (simp add: command_flags_def color_app_def NewRootCommand_def)
  have c: "?c \<in> set (root ?A # subcommands ?A)" by (simp add: color_app_def)
  have p: "parse ?c rest (new_flags (command_flags ?A ?c)) = Inr (args, f)" using assms(3) by (simp only: flags)
  have s: "number_flag \<in> set (command_flags ?A ?c)" "color_flag \<in> set (command_flags ?A ?c)" by (simp_all add: flags)
  have vals: "Value F (bindFlags F v f) ''number'' = resolved F kind_ok v f number_flag"
    "Value F (bindFlags F v f) ''favorite-color'' = resolved F kind_ok v f color_flag" for v
    using cobra.bound_value [OF assms(1) c s(1) p, of v] cobra.bound_value [OF assms(1) c s(2) p, of v]
    by (simp_all add: number_flag_def color_flag_def)
  have "admits (Args ?c) args" "Run ?c \<noteq> None" by (simp_all add: NewRootCommand_def)
  from cobra.executed [OF assms(1,2) p this, of "()"] show ?thesis
    by (auto simp: command_hooks_def NewRootCommand_def required_hook_def color_app_def initializeConfig_def defaultConfigFilename_def
        envPrefix_def exit_code_def vals Let_def split: prod.splits option.splits config_error.splits)
qed

theorem color_command_witness:
  "small_Execute color_specs (color_app color_flags (\<lambda>_ _. (Some ConfigFileNotFoundError, small_env)) small_int) [] () =
    (Go_On, [''Your favorite color is: blue'', ''The magic number is: 7''], ())"
proof -
  let ?R = "\<lambda>_ _. (Some ConfigFileNotFoundError, small_env)" let ?A = "color_app color_flags ?R small_int" and ?f = "small_new [number_flag, color_flag]"
  have d: "small_dispatch ?A [] = Inr (NewRootCommand color_flags ?R small_int, [])"
    by (simp add: small_dispatch_def color_app_def)
  have p: "small_parse color_specs (command_flags ?A (NewRootCommand color_flags ?R small_int)) [] ?f = Inr ([], ?f)"
    by simp
  have v: "resolved color_flags small_kind (small_env ''DUBBO'' [(''-'', ''_'')]) ?f color_flag = ''blue''"
    "resolved color_flags small_kind (small_env ''DUBBO'' [(''-'', ''_'')]) ?f number_flag = ''7''"
    by (simp_all add: resolved_def small_defs small_env_def)
  have n: "dec_int 7 = ''7''" by code_simp
  show ?thesis
    using color_command [OF small_color.cobra_axioms d p] by (simp add: v small_int_def n)
qed

end
