(* ===== verification/Spec2Isabelle.thy ===== *)
theory Spec2Isabelle
  imports Order_Api Order_Reflect Order_Stubs Order_Race Plugin_Streams Plugin_Lives
    Spire_Mesh Monitoring_Mesh Gencerts Cobra_Commands
begin

text \<open>
  A verification library for the Go programs of the repository k8s-learning. The repository has
  four groups of programs, which do not call each other: a gRPC order service
  (\<^verbatim>\<open>dev/grpc/basic\<close>), the Envoy plugins written against the Proxy-Wasm SDK
  (\<^verbatim>\<open>istio/envoy/wasm-go\<close>), small web services that run behind Envoy (\<^verbatim>\<open>istio/envoy/security\<close>,
  \<^verbatim>\<open>istio/envoy/monitoring-and-tracing\<close>), and a command-line demo (\<^verbatim>\<open>dev/cobra\<close>). Paths are given
  relative to \<^verbatim>\<open>src/\<close>.

  \<^bold>\<open>The ground.\<close>
  \<^item> \<open>Go_Prelude\<close> says how Go is read in HOL: bytes, words, panics as values of \<open>outcome\<close>, errors as
    options, maps and the order of ranging over them.
  \<^item> \<open>Go_Stdlib\<close> models what the programs use of the standard library: \<open>strings\<close>, paths, decimal numbers,
    little-endian integers, hexadecimal, and the hashes FNV-1a of 32 and of 128 bits. Its lemmas
    are the round trips, the parity of the 32-bit hash, and that the two-limb computation of the
    128-bit hash is FNV-1a over 128-bit integers.
  \<^item> \<open>Proto_Wire\<close> is the wire format of protobuf, as its specification documents it, with the round
    trip of a sequence of fields.

  \<^bold>\<open>The order service.\<close>
  \<^item> \<open>Order_Types\<close>: the messages and getters of \<^verbatim>\<open>order/order.pb.go\<close>, gRPC errors and streams.
  \<^item> \<open>Order_Server\<close>: the five handlers of \<^verbatim>\<open>server/order.go\<close> over the global map of orders. The
    contract \<open>order_store\<close> is met by \<open>AddOrder\<close> and by the streamed \<open>UpdateOrders\<close>. The lemmas follow
    an order through \<open>ProcessOrders\<close>: grouping by address, batches, conservation. A handler is one
    uninterrupted run, except that \<open>ProcessOrders\<close> sees an arbitrary map at each message.
    \<open>Order_Lookups\<close>: \<open>ProcessOrders\<close> with the two or three look-ups that it makes for one message apart,
    each on a map of its own; it is the handler of \<open>Order_Server\<close> when those of a message find one map.
  \<^item> \<open>Order_Concurrent\<close>: the same handlers with one access to the map at a step, many calls over the one
    map, as an inductive step relation with an executable scheduler. Invariants over all reachable
    configurations give that the stores form one sequence, that what a streaming call answers is what
    its handler answers when its look-ups find past maps in order, and when a run ends, or crashes; an example shows
    that the look-ups for one message can find two maps. \<open>Order_Race\<close>: the accesses as they begin and
    end in time, a look-up finding any map that there was meanwhile; which calls can meet, and that the
    runs in which none do are those of \<open>Order_Concurrent\<close>, where an access is one step.
  \<^item> \<open>Order_Wire\<close>: the struct tags of \<^verbatim>\<open>order/order.pb.go\<close> and the contract \<open>protobuf\<close>, which says what the
    code relies on of an encoding. The properties hold for every codec that fulfils it; one with the
    numbers of the tags is given as an instance for the examples, not as a model of the runtime.
  \<^item> \<open>Order_Descriptor\<close>: the descriptor that \<^verbatim>\<open>order/order.pb.go\<close> embeds as bytes, read back and compared
    with the code beside it, and the start-up code of the package. \<open>Order_Reflect\<close>: \<open>Reset\<close>,
    \<open>ProtoReflect\<close> and the enum's methods, with the message information they keep in a message, under
    the contract \<open>message_state\<close> of the runtime's cell; reflection always finds the message's own type.
  \<^item> \<open>Order_Grpc\<close>: the stubs of \<^verbatim>\<open>order/order_grpc.pb.go\<close> on both sides and the service descriptor
    that joins them by name. \<open>Order_Transport\<close> has the contracts of the runtime between them,
    \<open>grpc_unary\<close> for calls and \<open>grpc_stream\<close> for streams that run while a handler waits, interpreted on
    a loopback connection that carries bytes to any server. \<open>Order_Stubs\<close>: the server's stream objects
    and the streaming handlers over them, on bytes, which refine the handlers of \<open>Order_Server\<close> on messages.
  \<^item> \<open>Order_Client\<close>: the demonstrations of \<^verbatim>\<open>client/main.go\<close> and the contract \<open>client_stream\<close> of a
    stream that is read to its end, of which every \<open>grpc_stream\<close> is an instance.
  \<^item> \<open>Order_Session\<close>: client, stubs, codec, transport and handlers together, under \<open>order_connection\<close>:
    what the demonstrations log and what the server then holds, for the bidirectional stream that it
    returns and logs the same under every schedule of the client's goroutine in which it does, and the client's \<open>main\<close>. \<open>Order_Api\<close>: the client and stream
    interfaces as records of their methods, and the server's \<open>main\<close> with the registration of the service,
    under the contract \<open>service_registrar\<close>: the client calls what is registered and nothing else.

  \<^bold>\<open>The plugins.\<close> Each plugin's contexts are records, each callback a definition over a host.
  \<^item> \<open>Proxy_Wasm\<close>: the host as a record of parameters over an abstract state, and the contracts a
    plugin may rely on, one locale each: \<open>body_buffering\<close> (a handler that waits for the whole body),
    \<open>body_channel\<close> (reading and editing it), \<open>cas_store\<close> (shared data), \<open>resume_host\<close> and its
    extension \<open>request_gate\<close> (paused requests and local responses), \<open>response_host\<close> (paused responses
    and callouts), \<open>header_store\<close>, \<open>shared_queues\<close>, \<open>metrics_host\<close>. Their laws are those of
    \<^verbatim>\<open>wasm-go/doc/OVERVIEW.md\<close>; a property takes the contract as its first hypothesis.
  \<^item> \<open>Reference_Host\<close>: an executable host in which every contract is interpreted. It shows that the
    laws can hold together, and it is the host of the witnesses.
  \<^item> \<open>Http_Body\<close> (\<^verbatim>\<open>http_body\<close>): three interpretations of \<open>body_buffering\<close>; bodies are edited or echoed
    whole, however they are cut into frames.
  \<^item> \<open>Shared_Data\<close> (\<^verbatim>\<open>shared_data\<close>): the retry loop is a \<open>partial_function\<close>, its requests in flight are
    threads under an arbitrary schedule. The invariant \<open>counting\<close> gives both that no increment is
    lost and that each request is done after \<open>2 n\<close> of its own host calls.
  \<^item> \<open>Postpone_Requests\<close> (\<^verbatim>\<open>postpone_requests\<close>), \<open>Multiple_Dispatches\<close> (\<^verbatim>\<open>multiple_dispatches\<close>, an
    inductive step relation with an invariant), \<open>Json_Validation\<close> (\<^verbatim>\<open>json_validation\<close>), \<open>Http_Auth\<close>
    (\<^verbatim>\<open>http_auth_random\<close> and \<^verbatim>\<open>properties\<close>), \<open>Http_Routing\<close> (\<^verbatim>\<open>http_routing\<close>), \<open>Shared_Queue\<close>
    (\<^verbatim>\<open>shared_queue/sender\<close> and \<^verbatim>\<open>shared_queue/receiver\<close>, end to end), \<open>Metrics\<close> (\<^verbatim>\<open>metrics\<close> and
    \<^verbatim>\<open>network\<close>), \<open>Http_Headers\<close> (\<^verbatim>\<open>http_headers\<close>), \<open>Tick_Plugins\<close> (\<^verbatim>\<open>dispatch_call_on_tick\<close>,
    \<^verbatim>\<open>foreign_call_on_tick\<close>, \<^verbatim>\<open>helloworld\<close>, \<^verbatim>\<open>vm_plugin_configuration\<close>).
  \<^item> \<open>Plugin_Vm\<close>: a program as the record of its contexts' methods over the SDK's default contexts, and
    the VM that keeps the contexts and calls the methods as the proxy's events come
    (\<^verbatim>\<open>wasm-go/doc/OVERVIEW.md\<close>, Contexts). A panic ends the VM. Its contract \<open>stream_program\<close> is that of
    a program whose callbacks keep to the current stream; the theorem \<open>isolated\<close> in it says that such a
    VM serves each of its streams as if it were alone, until one of them panics.
  \<^item> \<open>Plugin_Programs\<close>: what each plugin's \<open>main\<close> hands to the SDK. \<open>Plugin_Streams\<close>: the contract
    \<open>many_streams\<close> of a proxy that keeps its streams apart, under which the seven HTTP filters
    meet \<open>stream_program\<close>, so that what was shown of the callbacks of one stream holds in a VM of many. \<open>Plugin_Lives\<close>: \<open>postpone_requests\<close> and \<open>metrics\<close>, whose streams do share
    state, in the VM.

  \<^bold>\<open>The web services.\<close>
  \<^item> \<open>Http_Server\<close>: the response writer, the client, one \<open>Read\<close> and the default mux of \<open>net/http\<close>, which redirects
    to clean paths, the contract \<open>http_handler\<close> of a handler under a middleware, and \<open>chi_router\<close>.
  \<^item> \<open>Spire_Services\<close>: the web, backend and database servers of \<^verbatim>\<open>envoy-spire-ext-authz/src\<close>, also
    composed, with the connections between them as parameters.
  \<^item> \<open>Monitoring_Services\<close>: services A, B and C of \<^verbatim>\<open>monitoring-and-accesslog\<close>.
  \<^item> \<open>Service_Mains\<close>: the \<open>main\<close> functions of all these servers, with the flags of the SPIRE demo as the
    package \<open>flag\<close> parses them, and how each program ends.
  \<^item> \<open>Spire_Envoys\<close>: the configurations of the Envoys of both SPIRE demos as records, the Rego policies of
    \<^verbatim>\<open>envoy-spire-ext-authz\<close>, and the contract \<open>envoy_proxy\<close> of the proxy that obeys them: who gets through.
  \<^item> \<open>Spire_Example\<close>: the programs of \<^verbatim>\<open>spire-example/src\<close>, whose files repeat those of the other demo.
  \<^item> \<open>Spire_Mesh\<close>: both demos as deployed. A request goes from Envoy to Envoy and server to server, each
    reached only on the port that it listens on; \<open>spire_mesh\<close> is what the demos have in common, and both are instances. They differ in what their databases let in.
  \<^item> \<open>Monitoring_Mesh\<close>: services A, B and C of \<^verbatim>\<open>monitoring-and-tracing/monitoring\<close>, with the same
    handlers, behind Envoys of which two inject faults: the page or the redirect that a request gets.
  \<^item> \<open>Gencerts\<close>: the certificate generator of the SPIRE demo over the contract \<open>crypto_files\<close> of keys,
    certificates and files: what is on disk after a run, also after one that panics half-way.

  \<^bold>\<open>The command line.\<close> \<open>Cobra_Cli\<close>: the binding of flags to environment and configuration under the
  contract \<open>flag_set\<close>, and what the commands do. \<open>Cobra_Commands\<close>: the commands as they are registered,
  and whole runs of them under the contract \<open>cobra\<close>, which extends \<open>flag_set\<close> by the order of the hooks.

  \<^bold>\<open>Bounds.\<close> The plugins' \<open>int\<close> has 32 bits: a body is read whole below \<open>2 ^ 31\<close> bytes. The version of
  a shared datum must not wrap around during a run (\<open>2 ^ 32\<close> writes), nor may more than \<open>2 ^ 32\<close>
  metrics be defined. Counters wrap, and the statements say so with words. A protobuf varint has at most
  ten bytes and 64 bits, and a message of \<open>2 ^ 31\<close> bytes or more is refused, as the runtime does, so a
  length always fits. Loops over lists and maps are structural; \<open>echo_loop\<close>, \<open>UpdateOrders_loop\<close>,
  \<open>trim_prefixes\<close>, \<open>varint\<close> and \<open>parse_fields\<close> have measures. Only the readers of the descriptor
  take a depth: 2 levels of messages for \<open>read_message\<close> and 3 for \<open>flat_messages\<close>, enough since the
  one file they read nests messages once. A request in a mesh has fuel for the hosts it passes, enough for
  the longest way: 5 Envoys (\<open>demo_hops\<close>) in \<open>Spire_Mesh\<close>, and 6 hosts in \<open>Monitoring_Mesh\<close>; the statements
  hold for any more. Two loops may run forever: that of \<open>Shared_Data\<close>, which is shown to
  return, and \<open>serverStream_loop\<close>, which is shown to return exactly when its stream does not break.
  A run of the server over finitely many calls is bounded by the messages and keys it has.

  \<^bold>\<open>Not modelled.\<close> Third-party code is a parameter, with its documented behaviour as a law where one is
  needed: the proxy and the SDK, gjson, chi, cobra, pflag, viper, the gRPC and protobuf runtimes,
  crypto/x509. Left out are the textual form of messages (\<open>String\<close> hands them to the runtime), the usage
  text of the flags, and build-tool imports. Where \<^verbatim>\<open>spire-example\<close> and
  \<^verbatim>\<open>monitoring-and-tracing/monitoring\<close> repeat a Go file byte for byte, the handlers are defined as those of the
  file repeated and not translated a second time, nor is \<^verbatim>\<open>gencerts.go\<close>. Of the Envoys' configuration,
  access logs, tracing, health checks and timeouts are left out.
  The output of \<open>%q\<close> and of \<open>Fprintf\<close> without arguments is a parameter. Time, the file system and the
  network are arguments. Of the SDK's VM only what the guide says is there: an event for a context that was
  not made is skipped, a failed start is recorded and what the proxy does about it is left to the events.
\<close>

end
